(* ===== verification/Remerge_Prelude.thy ===== *)
theory Remerge_Prelude
  imports "HOL-Library.Word" "HOL-Library.Char_ord" "HOL-Library.List_Lexorder"
    "HOL-Library.Code_Target_Nat"
begin

text \<open>
  Prelude of the development.  It fixes the types every component shares
  (bytes, identifiers, timestamps, results), gives the operations of Rust's
  standard library that the sources use on strings, options, results and maps,
  and proves the generic laws on which the component theories rely.

  A \<^typ>\<open>string\<close> is the sequence of the characters of a Rust \<open>str\<close>.  The classes
  of characters (white space, alphanumeric, upper and lower case) are those of
  the ASCII range; a character outside it belongs to none of them.
\<close>

section \<open>Collections of rewrite rules\<close>

named_theorems result_simps
  \<open>the combinators on results and options\<close>

named_theorems char_class_defs
  \<open>the definitions of the classes of characters\<close>

section \<open>Shared types\<close>

type_synonym byte = "8 word"

type_synonym bytes = "8 word list"

type_synonym uuid = "128 word"

text \<open>An instant in time, in nanoseconds from the epoch.\<close>

type_synonym timestamp = int

section \<open>Results and options\<close>

text \<open>The operator \<open>?\<close> and \<open>and_then\<close> on a result.\<close>

definition rbind :: "'e + 'a \<Rightarrow> ('a \<Rightarrow> 'e + 'b) \<Rightarrow> 'e + 'b" where
  "rbind r f = (case r of Inl e \<Rightarrow> Inl e | Inr x \<Rightarrow> f x)"

definition ok_or :: "'e \<Rightarrow> 'a option \<Rightarrow> 'e + 'a" where
  "ok_or e x = (case x of None \<Rightarrow> Inl e | Some v \<Rightarrow> Inr v)"

definition unwrap_or :: "'a \<Rightarrow> 'a option \<Rightarrow> 'a" where
  "unwrap_or d x = (case x of None \<Rightarrow> d | Some v \<Rightarrow> v)"

text \<open>\<open>Option::or_else\<close>: the first of two options that holds a value.\<close>

definition or_else :: "'a option \<Rightarrow> 'a option \<Rightarrow> 'a option" where
  "or_else x y = (case x of None \<Rightarrow> y | Some v \<Rightarrow> Some v)"

definition is_ok :: "'e + 'a \<Rightarrow> bool" where
  "is_ok r = (case r of Inl _ \<Rightarrow> False | Inr _ \<Rightarrow> True)"

section \<open>Integers\<close>

definition u64_max :: nat where
  "u64_max = 2 ^ 64 - 1"

text \<open>A cast \<open>as i64\<close> of an unsigned 64-bit value keeps the bits.\<close>

definition as_i64 :: "nat \<Rightarrow> int" where
  "as_i64 n = (let m = int n mod 2 ^ 64 in if m < 2 ^ 63 then m else m - 2 ^ 64)"

text \<open>\<open>chrono::Duration::hours\<close>, in nanoseconds.\<close>

definition duration_hours :: "int \<Rightarrow> int" where
  "duration_hours h = h * 3600 * 1000000000"

text \<open>\<open>AtomicU64::fetch_sub\<close> and \<open>fetch_add\<close> wrap around.\<close>

type_synonym u64 = "64 word"

section \<open>Classes of characters\<close>

definition is_digit :: "char \<Rightarrow> bool" where
  [char_class_defs]: "is_digit c \<longleftrightarrow> 48 \<le> (of_char c :: nat) \<and> (of_char c :: nat) \<le> 57"

definition is_lower :: "char \<Rightarrow> bool" where
  [char_class_defs]: "is_lower c \<longleftrightarrow> 97 \<le> (of_char c :: nat) \<and> (of_char c :: nat) \<le> 122"

definition is_upper :: "char \<Rightarrow> bool" where
  [char_class_defs]: "is_upper c \<longleftrightarrow> 65 \<le> (of_char c :: nat) \<and> (of_char c :: nat) \<le> 90"

definition is_alphabetic :: "char \<Rightarrow> bool" where
  [char_class_defs]: "is_alphabetic c \<longleftrightarrow> is_lower c \<or> is_upper c"

definition is_alphanumeric :: "char \<Rightarrow> bool" where
  [char_class_defs]: "is_alphanumeric c \<longleftrightarrow> is_lower c \<or> is_upper c \<or> is_digit c"

definition is_hexdigit :: "char \<Rightarrow> bool" where
  [char_class_defs]: "is_hexdigit c \<longleftrightarrow> is_digit c
     \<or> (97 \<le> (of_char c :: nat) \<and> (of_char c :: nat) \<le> 102)
     \<or> (65 \<le> (of_char c :: nat) \<and> (of_char c :: nat) \<le> 70)"

definition is_whitespace :: "char \<Rightarrow> bool" where
  [char_class_defs]: "is_whitespace c \<longleftrightarrow>
     (9 \<le> (of_char c :: nat) \<and> (of_char c :: nat) \<le> 13) \<or> (of_char c :: nat) = 32"

definition to_lower :: "char \<Rightarrow> char" where
  "to_lower c = (if is_upper c then char_of ((of_char c :: nat) + 32) else c)"

definition to_upper :: "char \<Rightarrow> char" where
  "to_upper c = (if is_lower c then char_of ((of_char c :: nat) - 32) else c)"

definition newline :: char where
  "newline = CHR 0x0A"

definition carriage_return :: char where
  "carriage_return = CHR 0x0D"

section \<open>Operations on strings\<close>

fun strip_prefix :: "string \<Rightarrow> string \<Rightarrow> string option" where
  "strip_prefix [] s = Some s"
| "strip_prefix (p # ps) [] = None"
| "strip_prefix (p # ps) (c # cs) = (if p = c then strip_prefix ps cs else None)"

definition starts_with :: "string \<Rightarrow> string \<Rightarrow> bool" where
  "starts_with p s \<longleftrightarrow> take (length p) s = p"

definition ends_with :: "string \<Rightarrow> string \<Rightarrow> bool" where
  "ends_with p s \<longleftrightarrow> starts_with (rev p) (rev s)"

definition strip_suffix :: "string \<Rightarrow> string \<Rightarrow> string option" where
  "strip_suffix p s = map_option rev (strip_prefix (rev p) (rev s))"

text \<open>\<open>str::split_once\<close> and \<open>str::split\<close> at a character; \<open>split\<close> of the empty
  string is one empty piece.\<close>

fun split_once :: "char \<Rightarrow> string \<Rightarrow> (string \<times> string) option" where
  "split_once d [] = None"
| "split_once d (c # cs) =
     (if c = d then Some ([], cs)
      else map_option (\<lambda>(a, b). (c # a, b)) (split_once d cs))"

fun split_on :: "char \<Rightarrow> string \<Rightarrow> string list" where
  "split_on d [] = [[]]"
| "split_on d (c # cs) =
     (if c = d then [] # split_on d cs
      else (case split_on d cs of [] \<Rightarrow> [[c]] | p # ps \<Rightarrow> (c # p) # ps))"

text \<open>\<open>str::rsplit_once\<close>.\<close>

definition rsplit_once :: "char \<Rightarrow> string \<Rightarrow> (string \<times> string) option" where
  "rsplit_once d s = map_option (\<lambda>(b, a). (rev a, rev b)) (split_once d (rev s))"

definition trim_start :: "string \<Rightarrow> string" where
  "trim_start s = dropWhile is_whitespace s"

definition trim_end :: "string \<Rightarrow> string" where
  "trim_end s = rev (dropWhile is_whitespace (rev s))"

definition trim :: "string \<Rightarrow> string" where
  "trim s = trim_end (trim_start s)"

definition trim_end_matches :: "char \<Rightarrow> string \<Rightarrow> string" where
  "trim_end_matches d s = rev (dropWhile (\<lambda>c. c = d) (rev s))"

text \<open>\<open>str::lines\<close>: the pieces between newlines, the last one dropped when it is
  empty, one trailing carriage return stripped from each.\<close>

definition strip_cr :: "string \<Rightarrow> string" where
  "strip_cr s = unwrap_or s (strip_suffix [carriage_return] s)"

definition str_lines :: "string \<Rightarrow> string list" where
  "str_lines s = (let ps = split_on newline s in
     map strip_cr (if last ps = [] then butlast ps else ps))"

text \<open>\<open>str::split_whitespace\<close>: the maximal runs without white space.\<close>

fun split_ws_acc :: "string \<Rightarrow> string \<Rightarrow> string list" where
  "split_ws_acc acc [] = (if acc = [] then [] else [rev acc])"
| "split_ws_acc acc (c # cs) =
     (if is_whitespace c
      then (if acc = [] then split_ws_acc [] cs else rev acc # split_ws_acc [] cs)
      else split_ws_acc (c # acc) cs)"

definition split_whitespace :: "string \<Rightarrow> string list" where
  "split_whitespace s = split_ws_acc [] s"

fun join_with :: "string \<Rightarrow> string list \<Rightarrow> string" where
  "join_with sep [] = []"
| "join_with sep [s] = s"
| "join_with sep (s # t # ss) = s @ sep @ join_with sep (t # ss)"

fun contains_str :: "string \<Rightarrow> string \<Rightarrow> bool" where
  "contains_str p [] \<longleftrightarrow> p = []"
| "contains_str p (c # cs) \<longleftrightarrow> starts_with p (c # cs) \<or> contains_str p cs"

definition eq_ignore_ascii_case :: "string \<Rightarrow> string \<Rightarrow> bool" where
  "eq_ignore_ascii_case a b \<longleftrightarrow> map to_lower a = map to_lower b"

text \<open>Decimal digits, most significant first, and \<open>str::parse::<u64>\<close>.\<close>

fun show_nat :: "nat \<Rightarrow> string" where
  "show_nat n = (if n < 10 then [char_of (48 + n)]
                 else show_nat (n div 10) @ [char_of (48 + n mod 10)])"

declare show_nat.simps [simp del]

definition digit_value :: "char \<Rightarrow> nat" where
  "digit_value c = of_char c - 48"

definition digits_value :: "string \<Rightarrow> nat" where
  "digits_value s = foldl (\<lambda>n c. 10 * n + digit_value c) 0 s"

definition parse_unsigned :: "nat \<Rightarrow> string \<Rightarrow> nat option" where
  "parse_unsigned bound s =
     (let ds = unwrap_or s (strip_prefix ''+'' s) in
      if ds = [] \<or> \<not> list_all is_digit ds then None
      else if digits_value ds \<le> bound then Some (digits_value ds) else None)"

section \<open>Maps\<close>

text \<open>A \<open>HashMap\<close> is an association list with distinct keys, whose order is the
  order of iteration; nothing is assumed of that order.  A \<open>BTreeMap\<close> is the list
  of its entries in ascending order of the keys.\<close>

type_synonym ('k, 'v) hash_map = "('k \<times> 'v) list"

type_synonym ('k, 'v) btree_map = "('k \<times> 'v) list"

fun hm_insert :: "'k \<Rightarrow> 'v \<Rightarrow> ('k, 'v) hash_map \<Rightarrow> ('k, 'v) hash_map" where
  "hm_insert k v [] = [(k, v)]"
| "hm_insert k v ((a, b) # m) = (if a = k then (k, v) # m else (a, b) # hm_insert k v m)"

definition hm_remove :: "'k \<Rightarrow> ('k, 'v) hash_map \<Rightarrow> ('k, 'v) hash_map" where
  "hm_remove k m = filter (\<lambda>p. fst p \<noteq> k) m"

text \<open>\<open>if let Some(v) = m.get_mut(k)\<close> followed by an update of \<open>v\<close>.\<close>

definition hm_modify :: "'k \<Rightarrow> ('v \<Rightarrow> 'v) \<Rightarrow> ('k, 'v) hash_map \<Rightarrow> ('k, 'v) hash_map" where
  "hm_modify k f m = (case map_of m k of None \<Rightarrow> m | Some v \<Rightarrow> hm_insert k (f v) m)"

definition hm_wf :: "('k, 'v) hash_map \<Rightarrow> bool" where
  "hm_wf m = distinct (map fst m)"

fun bm_insert :: "'k::linorder \<Rightarrow> 'v \<Rightarrow> ('k, 'v) btree_map \<Rightarrow> ('k, 'v) btree_map" where
  "bm_insert k v [] = [(k, v)]"
| "bm_insert k v ((a, b) # m) =
     (if k < a then (k, v) # (a, b) # m
      else if k = a then (k, v) # m
      else (a, b) # bm_insert k v m)"

definition bm_remove :: "'k::linorder \<Rightarrow> ('k, 'v) btree_map \<Rightarrow> ('k, 'v) btree_map" where
  "bm_remove k m = filter (\<lambda>p. fst p \<noteq> k) m"

definition bm_wf :: "('k::linorder, 'v) btree_map \<Rightarrow> bool" where
  "bm_wf m = sorted_wrt (<) (map fst m)"

definition bm_of_list :: "('k::linorder \<times> 'v) list \<Rightarrow> ('k, 'v) btree_map" where
  "bm_of_list ps = fold (\<lambda>(k, v). bm_insert k v) ps []"

text \<open>\<open>BTreeSet\<close> of strings: the ascending list of its elements.\<close>

fun bs_insert :: "'k::linorder \<Rightarrow> 'k list \<Rightarrow> 'k list" where
  "bs_insert k [] = [k]"
| "bs_insert k (a # s) = (if k < a then k # a # s else if k = a then a # s else a # bs_insert k s)"

section \<open>Laws of results and options\<close>

lemma rbind_simps [simp, result_simps]:
  "rbind (Inl e) f = Inl e"
  "rbind (Inr x) f = f x"
  by (simp_all add: rbind_def)

lemma rbind_Inr_iff: "rbind r f = Inr y \<longleftrightarrow> (\<exists>x. r = Inr x \<and> f x = Inr y)"
  by (cases r) simp_all

lemma rbind_Inl_iff: "rbind r f = Inl e \<longleftrightarrow> r = Inl e \<or> (\<exists>x. r = Inr x \<and> f x = Inl e)"
  by (cases r) simp_all

lemma ok_or_simps [simp, result_simps]:
  "ok_or e None = Inl e"
  "ok_or e (Some v) = Inr v"
  by (simp_all add: ok_or_def)

lemma unwrap_or_simps [simp, result_simps]:
  "unwrap_or d None = d"
  "unwrap_or d (Some v) = v"
  by (simp_all add: unwrap_or_def)

lemma or_else_simps [simp, result_simps]:
  "or_else None y = y"
  "or_else (Some v) y = Some v"
  by (simp_all add: or_else_def)

lemma is_ok_simps [simp, result_simps]:
  "is_ok (Inl e) = False"
  "is_ok (Inr x) = True"
  by (simp_all add: is_ok_def)

section \<open>Laws of strings\<close>

lemma strip_prefix_Some_iff: "strip_prefix p s = Some t \<longleftrightarrow> s = p @ t"
  by (induction p s rule: strip_prefix.induct) auto

lemma strip_prefix_append [simp]: "strip_prefix p (p @ s) = Some s"
  by (simp add: strip_prefix_Some_iff)

lemma strip_suffix_Some_iff: "strip_suffix p s = Some t \<longleftrightarrow> s = t @ p"
  by (auto simp: strip_suffix_def strip_prefix_Some_iff rev_swap)

lemma starts_with_iff: "starts_with p s \<longleftrightarrow> (\<exists>t. s = p @ t)"
  by (metis append_eq_conv_conj append_take_drop_id starts_with_def)

lemma ends_with_iff: "ends_with p s \<longleftrightarrow> (\<exists>t. s = t @ p)"
  by (metis ends_with_def rev_append rev_rev_ident starts_with_iff)

lemma split_once_Some_iff:
  "split_once d s = Some (a, b) \<longleftrightarrow> s = a @ d # b \<and> d \<notin> set a"
proof (induction s arbitrary: a)
  case (Cons c cs)
  then show ?case
    by (cases a) auto
qed simp

lemma split_once_None_iff: "split_once d s = None \<longleftrightarrow> d \<notin> set s"
  by (induction d s rule: split_once.induct) auto

lemma rsplit_once_Some_iff:
  "rsplit_once d s = Some (a, b) \<longleftrightarrow> s = a @ d # b \<and> d \<notin> set b"
proof -
  have "rsplit_once d s = Some (a, b) \<longleftrightarrow> split_once d (rev s) = Some (rev b, rev a)"
    by (auto simp: rsplit_once_def rev_swap)
  also have "\<dots> \<longleftrightarrow> rev s = rev b @ d # rev a \<and> d \<notin> set b"
    by (simp add: split_once_Some_iff)
  also have "rev s = rev b @ d # rev a \<longleftrightarrow> s = a @ d # b"
    by (simp add: rev_swap)
  finally show ?thesis .
qed

lemma split_on_not_Nil [simp]: "split_on d s \<noteq> []"
  by (cases s) (auto split: list.splits)

lemma split_on_no_sep: "d \<notin> set s \<Longrightarrow> split_on d s = [s]"
  by (induction s) auto

lemma split_on_pieces: "p \<in> set (split_on d s) \<Longrightarrow> d \<notin> set p \<and> set p \<subseteq> set s"
proof (induction s arbitrary: p)
  case (Cons c cs)
  obtain q qs where q: "split_on d cs = q # qs"
    using split_on_not_Nil by (meson neq_Nil_conv)
  from Cons.IH [of q] Cons.IH [of p] Cons.prems q show ?case
    by (auto split: if_splits)
qed simp

lemma split_on_append: "d \<notin> set a \<Longrightarrow> split_on d (a @ d # s) = a # split_on d s"
  by (induction a) auto

lemma split_on_join:
  "ps \<noteq> [] \<Longrightarrow> \<forall>p\<in>set ps. d \<notin> set p \<Longrightarrow> split_on d (join_with [d] ps) = ps"
  by (induction ps rule: induct_list012) (simp_all add: split_on_no_sep split_on_append)

lemma join_with_Cons_char: "join_with sep ((c # p) # ps) = c # join_with sep (p # ps)"
  by (cases ps) simp_all

lemma join_with_Nil_Cons: "ps \<noteq> [] \<Longrightarrow> join_with sep ([] # ps) = sep @ join_with sep ps"
  by (cases ps) simp_all

lemma join_split_on: "join_with [d] (split_on d s) = s"
proof (induction s)
  case (Cons c cs)
  obtain q qs where q: "split_on d cs = q # qs"
    using split_on_not_Nil by (meson neq_Nil_conv)
  with Cons.IH show ?case
    by (simp add: join_with_Cons_char)
qed simp

section \<open>Laws of maps\<close>

text \<open>The contract of a map, whatever its representation: what a lookup returns
  after an insertion or a removal, and that both keep the representation
  well-formed.  The clients of both kinds of map use the facts proved here.\<close>

locale map_interface =
  fixes lookup :: "'m \<Rightarrow> 'k \<Rightarrow> 'v option"
    and put :: "'k \<Rightarrow> 'v \<Rightarrow> 'm \<Rightarrow> 'm"
    and remove :: "'k \<Rightarrow> 'm \<Rightarrow> 'm"
    and wf :: "'m \<Rightarrow> bool"
  assumes lookup_put: "wf m \<Longrightarrow> lookup (put k v m) = (lookup m)(k \<mapsto> v)"
    and lookup_remove: "wf m \<Longrightarrow> lookup (remove k m) = (lookup m)(k := None)"
    and wf_put: "wf m \<Longrightarrow> wf (put k v m)"
    and wf_remove: "wf m \<Longrightarrow> wf (remove k m)"
begin

lemma dom_put: "wf m \<Longrightarrow> dom (lookup (put k v m)) = insert k (dom (lookup m))"
  by (simp add: lookup_put)

lemma lookup_put_other: "wf m \<Longrightarrow> j \<noteq> k \<Longrightarrow> lookup (put k v m) j = lookup m j"
  by (simp add: lookup_put)

lemma put_remove: "wf m \<Longrightarrow> lookup (put k v (remove k m)) = lookup (put k v m)"
  by (simp add: lookup_put lookup_remove wf_remove fun_eq_iff)

lemma wf_fold_put: "wf m \<Longrightarrow> wf (fold (\<lambda>(k, v). put k v) ps m)"
  by (induction ps arbitrary: m) (auto simp: wf_put)

lemma lookup_fold_put:
  "wf m \<Longrightarrow> lookup (fold (\<lambda>(k, v). put k v) ps m) = lookup m ++ map_of (rev ps)"
proof (induction ps arbitrary: m)
  case (Cons p ps)
  obtain k v where "p = (k, v)" by (cases p)
  then show ?case
    using Cons.IH [of "put k v m"] Cons.prems
    by (simp add: wf_put lookup_put map_add_def fun_eq_iff split: option.split)
qed simp

end

lemma hm_lookup_insert: "map_of (hm_insert k v m) = (map_of m)(k \<mapsto> v)"
  by (induction m) (auto simp: fun_eq_iff)

lemma hm_keys_insert: "set (map fst (hm_insert k v m)) = insert k (set (map fst m))"
  by (induction k v m rule: hm_insert.induct) auto

lemma hm_wf_insert: "hm_wf m \<Longrightarrow> hm_wf (hm_insert k v m)"
  unfolding hm_wf_def
proof (induction m)
  case (Cons p m)
  then show ?case
    using hm_keys_insert [of k v m] by (cases p) auto
qed simp

lemma map_of_filter_key: "map_of (filter (\<lambda>p. fst p \<noteq> k) m) = (map_of m)(k := None)"
  by (induction m) (auto simp: fun_eq_iff)

lemma hm_wf_remove: "hm_wf m \<Longrightarrow> hm_wf (hm_remove k m)"
  by (simp add: hm_wf_def hm_remove_def distinct_map_filter)

lemma map_of_hm_remove [simp]: "map_of (hm_remove k m) = (map_of m)(k := None)"
  by (simp add: hm_remove_def map_of_filter_key)

interpretation hm: map_interface map_of hm_insert hm_remove hm_wf
  by unfold_locales
    (simp_all add: hm_lookup_insert hm_wf_insert hm_wf_remove)

lemma bm_keys_insert: "set (map fst (bm_insert k v m)) = insert k (set (map fst m))"
  by (induction k v m rule: bm_insert.induct) auto

lemma bm_lookup_insert: "bm_wf m \<Longrightarrow> map_of (bm_insert k v m) = (map_of m)(k \<mapsto> v)"
  by (induction m) (auto simp: fun_eq_iff bm_wf_def)

lemma bm_wf_insert: "bm_wf m \<Longrightarrow> bm_wf (bm_insert k v m)"
  unfolding bm_wf_def
proof (induction m)
  case (Cons p m)
  then show ?case
    using bm_keys_insert [of k v m] by (cases p) (auto dest: less_trans)
qed simp

lemma sorted_wrt_map_filter:
  "sorted_wrt R (map f xs) \<Longrightarrow> sorted_wrt R (map f (filter P xs))"
  by (induction xs) auto

lemma bm_wf_remove: "bm_wf m \<Longrightarrow> bm_wf (bm_remove k m)"
  by (simp add: bm_wf_def bm_remove_def sorted_wrt_map_filter)

lemma map_of_bm_remove [simp]: "map_of (bm_remove k m) = (map_of m)(k := None)"
  by (simp add: bm_remove_def map_of_filter_key)

interpretation bm: map_interface map_of bm_insert bm_remove bm_wf
  by unfold_locales
    (simp_all add: bm_lookup_insert bm_wf_insert bm_wf_remove)

lemma bm_wf_of_list [simp]: "bm_wf (bm_of_list ps)"
  unfolding bm_of_list_def by (rule bm.wf_fold_put) (simp add: bm_wf_def)

lemma map_of_bm_of_list: "map_of (bm_of_list ps) = map_of (rev ps)"
  unfolding bm_of_list_def by (subst bm.lookup_fold_put) (simp_all add: bm_wf_def)

declare hm_lookup_insert [simp]

lemma map_of_hm_modify [simp]:
  "map_of (hm_modify k f m) = (map_of m)(k := map_option f (map_of m k))"
  by (auto simp: hm_modify_def fun_eq_iff split: option.splits)

lemma hm_wf_modify: "hm_wf m \<Longrightarrow> hm_wf (hm_modify k f m)"
  by (simp add: hm_modify_def hm_wf_insert split: option.splits)

lemma hm_modify_keys: "set (map fst (hm_modify k f m)) = set (map fst m)"
proof (cases "map_of m k")
  case (Some v)
  then have "k \<in> set (map fst m)"
    by (metis map_of_eq_None_iff option.distinct(1) set_map)
  with Some show ?thesis
    using hm_keys_insert [of k "f v" m] by (auto simp: hm_modify_def)
qed (simp add: hm_modify_def)

lemma bs_insert_set [simp]: "set (bs_insert k s) = insert k (set s)"
  by (induction s) auto

lemma bs_insert_sorted: "sorted_wrt (<) s \<Longrightarrow> sorted_wrt (<) (bs_insert k s)"
  by (induction s) (auto dest: less_trans)

end
