(* ===== verification/Text_Lines.thy ===== *)
theory Text_Lines
  imports Remerge_Prelude
begin

text \<open>Laws of lines, words and trimming that the readers and the writers of configuration files
  share: the lines of a text built line by line, the words of a line built word by word.\<close>

section \<open>Trimming\<close>

lemma trim_end_Nil [simp]: "trim_end [] = []"
  by (simp add: trim_end_def)

lemma trim_start_Nil [simp]: "trim_start [] = []"
  by (simp add: trim_start_def)

lemma trim_Nil [simp]: "trim [] = []"
  by (simp add: trim_def)

lemma trim_end_snoc: "trim_end (s @ [c]) = (if is_whitespace c then trim_end s else s @ [c])"
  by (simp add: trim_end_def)

lemma trim_end_solid_last: "s \<noteq> [] \<Longrightarrow> \<not> is_whitespace (last s) \<Longrightarrow> trim_end s = s"
  by (metis append_butlast_last_id trim_end_snoc)

lemma trim_end_append_solid: "trim_end t \<noteq> [] \<Longrightarrow> trim_end (s @ t) = s @ trim_end t"
  by (induction t rule: rev_induct) (auto simp: trim_end_snoc simp flip: append_assoc)

lemma trim_end_append_blank: "trim_end t = [] \<Longrightarrow> trim_end (s @ t) = trim_end s"
  by (induction t rule: rev_induct) (auto simp: trim_end_snoc simp flip: append_assoc split: if_splits)

lemma trim_end_idem [simp]: "trim_end (trim_end s) = trim_end s"
  by (induction s rule: rev_induct) (auto simp: trim_end_snoc)

lemma trim_start_solid: "s \<noteq> [] \<Longrightarrow> \<not> is_whitespace (hd s) \<Longrightarrow> trim_start s = s"
  by (cases s) (simp_all add: trim_start_def)

lemma trim_start_Cons: "trim_start (c # s) = (if is_whitespace c then trim_start s else c # s)"
  by (simp add: trim_start_def)

lemma trim_end_Cons: "trim_end (c # s) = (if trim_end s = [] then (if is_whitespace c then [] else [c]) else c # trim_end s)"
  using trim_end_append_solid [of s "[c]"] trim_end_append_blank [of s "[c]"] trim_end_snoc [of "[]" c] by auto

lemma trim_end_mid: "\<not> is_whitespace c \<Longrightarrow> trim_end (a @ c # b) = a @ c # trim_end b"
  using trim_end_append_solid [of "c # b" a] by (simp add: trim_end_Cons)

lemma trim_mid:
  assumes "a \<noteq> []" and "\<not> is_whitespace (hd a)" and "\<not> is_whitespace c"
  shows "trim (a @ c # b) = a @ c # trim_end b"
  using assms by (simp add: trim_def trim_start_solid trim_end_mid)

lemma trim_start_end: "trim_start (trim_end s) = trim_end (trim_start s)"
  by (induction s) (auto simp: trim_end_Cons trim_start_Cons trim_start_def)

lemma trim_idem [simp]: "trim (trim s) = trim s"
  by (simp add: trim_def trim_start_end) (metis dropWhile_idem trim_start_def trim_start_end)

lemma trim_trim_end [simp]: "trim (trim_end s) = trim s"
  by (simp add: trim_def trim_start_end)

lemma trim_Cons: "trim (c # s) = (if is_whitespace c then trim s else c # trim_end s)"
  by (auto simp: trim_def trim_start_Cons trim_end_Cons)

lemma trim_snoc_space: "is_whitespace c \<Longrightarrow> trim (s @ [c]) = trim s"
  by (simp add: trim_def trim_end_snoc flip: trim_start_end)

lemma hd_trim: "trim s \<noteq> [] \<Longrightarrow> \<not> is_whitespace (hd (trim s))"
  by (induction s) (auto simp: trim_Cons split: if_splits)

lemma last_trim_end: "trim_end s \<noteq> [] \<Longrightarrow> \<not> is_whitespace (last (trim_end s))"
  by (induction s rule: rev_induct) (auto simp: trim_end_snoc split: if_splits)

lemma last_trim: "trim s \<noteq> [] \<Longrightarrow> \<not> is_whitespace (last (trim s))"
  by (simp add: trim_def last_trim_end)

lemma set_trim: "set (trim s) \<subseteq> set s"
  by (auto simp: trim_def trim_end_def trim_start_def dest!: set_dropWhileD)

lemma trim_fixed_iff: "trim s = s \<longleftrightarrow> s = [] \<or> \<not> is_whitespace (hd s) \<and> \<not> is_whitespace (last s)"
  using hd_trim [of s] last_trim [of s] trim_end_solid_last [of s] trim_start_solid [of s]
  by (cases "s = []") (auto simp: trim_def)

lemma trim_solid: "list_all (\<lambda>c. \<not> is_whitespace c) s \<Longrightarrow> trim s = s"
  by (auto simp: trim_fixed_iff list_all_iff)

lemma whitespace_chars [simp]:
  "is_whitespace CHR '' ''"
  "is_whitespace newline"
  "is_whitespace carriage_return"
  by (simp_all add: is_whitespace_def newline_def carriage_return_def)

section \<open>Lines\<close>

lemma strip_cr_snoc: "strip_cr (s @ [c]) = (if c = carriage_return then s else s @ [c])"
proof (cases "strip_suffix [carriage_return] (s @ [c])")
  case None
  then have "c \<noteq> carriage_return"
    by (metis option.distinct(1) strip_suffix_Some_iff)
  with None show ?thesis
    by (simp add: strip_cr_def)
next
  case (Some t)
  then show ?thesis
    by (auto simp: strip_cr_def dest: strip_suffix_Some_iff [THEN iffD1])
qed

lemma strip_cr_Nil [simp]: "strip_cr [] = []"
  by (simp add: strip_cr_def strip_suffix_def)

lemma strip_cr_solid: "s = [] \<or> last s \<noteq> carriage_return \<Longrightarrow> strip_cr s = s"
  by (induction s rule: rev_induct) (auto simp: strip_cr_snoc)

lemma set_strip_cr: "set (strip_cr s) \<subseteq> set s"
  by (cases s rule: rev_cases) (auto simp: strip_cr_snoc)

lemma trim_strip_cr [simp]: "trim (strip_cr s) = trim s"
  by (cases s rule: rev_cases) (auto simp: strip_cr_snoc trim_snoc_space)

lemma split_on_lines:
  assumes "\<forall>l \<in> set ls. newline \<notin> set l"
  shows "split_on newline (concat (map (\<lambda>l. l @ [newline]) ls)) = ls @ [[]]"
  using assms by (induction ls) (simp_all add: split_on_append)

lemma lines_concat:
  assumes "\<forall>l \<in> set ls. newline \<notin> set l"
  shows "str_lines (concat (map (\<lambda>l. l @ [newline]) ls)) = map strip_cr ls"
  by (simp add: str_lines_def split_on_lines [OF assms])

lemma trimmed_lines_concat:
  assumes "\<forall>l \<in> set ls. newline \<notin> set l"
  shows "map trim (str_lines (concat (map (\<lambda>l. l @ [newline]) ls))) = map trim ls"
  by (simp add: lines_concat [OF assms])

lemma line_no_newline: "l \<in> set (str_lines s) \<Longrightarrow> newline \<notin> set l"
  using split_on_pieces [of _ newline s] set_strip_cr
  by (auto simp: str_lines_def Let_def split: if_splits dest!: in_set_butlastD)

section \<open>Words\<close>

definition is_word :: "string \<Rightarrow> bool" where
  "is_word w \<longleftrightarrow> w \<noteq> [] \<and> list_all (\<lambda>c. \<not> is_whitespace c) w"

lemma split_ws_acc_word:
  "list_all (\<lambda>c. \<not> is_whitespace c) w \<Longrightarrow> split_ws_acc acc (w @ s) = split_ws_acc (rev w @ acc) s"
  by (induction w arbitrary: acc) auto

lemma split_whitespace_Nil [simp]: "split_whitespace [] = []"
  by (simp add: split_whitespace_def)

lemma split_whitespace_space [simp]: "is_whitespace c \<Longrightarrow> split_whitespace (c # s) = split_whitespace s"
  by (simp add: split_whitespace_def)

lemma split_whitespace_word: "is_word w \<Longrightarrow> split_whitespace w = [w]"
  using split_ws_acc_word [of w "[]" "[]"] by (auto simp: split_whitespace_def is_word_def)

lemma split_whitespace_Cons_word:
  "is_word w \<Longrightarrow> is_whitespace c \<Longrightarrow> split_whitespace (w @ c # s) = w # split_whitespace s"
  using split_ws_acc_word [of w "[]" "c # s"] by (auto simp: split_whitespace_def is_word_def)

lemma split_whitespace_join: "list_all is_word ws \<Longrightarrow> split_whitespace (join_with '' '' ws) = ws"
proof (induction "'' ''" ws rule: join_with.induct)
  case (3 s t ss)
  then show ?case
    by (simp add: split_whitespace_Cons_word)
qed (simp_all add: split_whitespace_word)

lemma split_ws_acc_end: "is_whitespace c \<Longrightarrow> split_ws_acc acc (s @ [c]) = split_ws_acc acc s"
  by (induction s arbitrary: acc) auto

lemma split_whitespace_trim_end: "split_whitespace (trim_end s) = split_whitespace s"
  by (induction s rule: rev_induct) (auto simp: trim_end_snoc split_whitespace_def split_ws_acc_end)

lemma split_whitespace_trim [simp]: "split_whitespace (trim s) = split_whitespace s"
proof (induction s)
  case (Cons c s)
  then show ?case
    using split_whitespace_trim_end [of "c # s"] by (auto simp: trim_Cons trim_end_Cons split: if_splits)
qed simp

lemma split_ws_acc_words:
  "list_all (\<lambda>c. \<not> is_whitespace c) acc \<Longrightarrow> list_all is_word (split_ws_acc acc s)"
proof (induction s arbitrary: acc)
  case (Cons c cs)
  then have "list_all is_word (split_ws_acc [] cs)"
    and "\<not> is_whitespace c \<Longrightarrow> list_all is_word (split_ws_acc (c # acc) cs)"
    by simp_all
  moreover have "acc \<noteq> [] \<Longrightarrow> is_word (rev acc)"
    using Cons.prems by (simp add: is_word_def list_all_iff)
  ultimately show ?case
    by simp
qed (simp add: is_word_def list_all_iff)

lemma split_whitespace_words: "list_all is_word (split_whitespace s)"
  by (simp add: split_whitespace_def split_ws_acc_words)

end
