(* ===== verification/Remerge_Types.thy ===== *)
theory Remerge_Types
  imports Remerge_Prelude
begin

text \<open>
  The data shared by the client, the server and the worker
  (\<open>crates/types/src\<close>): client roles and states, authentication modes, the
  portage configuration and its snapshot manifest, workorders with their
  status, events and results, and the bodies of the HTTP requests and responses.
  A struct is a record whose fields carry the source's names behind a short
  prefix (fields of distinct structs share names in the sources); an enum is a
  datatype with the source's constructors.
\<close>

section \<open>Client identity (client.rs, auth.rs)\<close>

type_synonym client_id = uuid

type_synonym workorder_id = uuid

datatype client_role = Main | Follower

fun client_role_display :: "client_role \<Rightarrow> string" where
  "client_role_display Main = ''main''"
| "client_role_display Follower = ''follower''"

definition client_role_from_str :: "string \<Rightarrow> string + client_role" where
  "client_role_from_str s =
     (if s = ''main'' then Inr Main
      else if s = ''follower'' then Inr Follower
      else Inl (''unknown role '' @ [CHR 0x27] @ s @ [CHR 0x27] @ '' (expected '' @
        [CHR 0x27] @ ''main'' @ [CHR 0x27] @ '' or '' @ [CHR 0x27] @ ''follower'' @
        [CHR 0x27] @ '')''))"

datatype auth_mode = AuthNone | Mtls | Mixed

fun auth_mode_display :: "auth_mode \<Rightarrow> string" where
  "auth_mode_display AuthNone = ''none''"
| "auth_mode_display Mtls = ''mtls''"
| "auth_mode_display Mixed = ''mixed''"

definition auth_mode_from_str :: "string \<Rightarrow> string + auth_mode" where
  "auth_mode_from_str s =
     (if s = ''none'' then Inr AuthNone
      else if s = ''mtls'' then Inr Mtls
      else if s = ''mixed'' then Inr Mixed
      else Inl (''unknown auth mode '' @ [CHR 0x27] @ s @ [CHR 0x27] @ '' (expected '' @
        [CHR 0x27] @ ''none'' @ [CHR 0x27] @ '', '' @ [CHR 0x27] @ ''mtls'' @ [CHR 0x27] @
        '', or '' @ [CHR 0x27] @ ''mixed'' @ [CHR 0x27] @ '')''))"

record client_state =
  cs_client_id :: client_id
  cs_config_hash :: string
  cs_system_hash :: string
  cs_last_seen :: timestamp
  cs_active_workorder :: "workorder_id option"

record config_diff =
  portage_changed :: bool
  system_changed :: bool

definition config_diff_is_empty :: "config_diff \<Rightarrow> bool" where
  "config_diff_is_empty d \<longleftrightarrow> \<not> portage_changed d \<and> \<not> system_changed d"

section \<open>Portage configuration (portage.rs)\<close>

type_synonym repo_snapshot = "(string, string) btree_map"

type_synonym snapshot_refs = "(string, string) btree_map"

record snapshot_entry =
  se_digest :: string
  se_size :: nat
  se_mtime_secs :: int

record repo_snapshot_manifest =
  rsm_tree_digest :: string
  rsm_entries :: "(string, snapshot_entry) btree_map"

record snapshot_manifest =
  sm_version :: nat
  sm_repo_snapshots :: "(string, repo_snapshot_manifest) btree_map"
  sm_distfiles :: "(string, snapshot_entry) btree_map"

definition SNAPSHOT_MANIFEST_VERSION_V1 :: nat where
  "SNAPSHOT_MANIFEST_VERSION_V1 = 1"

definition snapshot_manifest_default :: snapshot_manifest where
  "snapshot_manifest_default =
     \<lparr> sm_version = SNAPSHOT_MANIFEST_VERSION_V1, sm_repo_snapshots = [], sm_distfiles = [] \<rparr>"

record package_use_entry =
  pu_atom :: string
  pu_flags :: "string list"

record package_keyword_entry =
  pk_atom :: string
  pk_keywords :: "string list"

record package_license_entry =
  pl_atom :: string
  pl_licenses :: "string list"

record package_env_entry =
  pe_atom :: string
  pe_env_file :: string

record make_conf =
  mc_cflags :: string
  mc_cxxflags :: string
  mc_ldflags :: string
  mc_makeopts :: string
  mc_use_flags :: "string list"
  mc_features :: "string list"
  mc_accept_license :: string
  mc_accept_keywords :: string
  mc_emerge_default_opts :: string
  mc_chost :: string
  mc_cpu_flags :: "(string \<times> string list) option"
  mc_original_cflags :: "string option"
  mc_use_expand :: "(string, string list) btree_map"
  mc_extra :: "(string, string) btree_map"
  mc_use_flags_resolved :: bool

definition make_conf_default :: make_conf where
  "make_conf_default =
     \<lparr> mc_cflags = ''-O2 -pipe'',
       mc_cxxflags = ''${CFLAGS}'',
       mc_ldflags = ''-Wl,-O1 -Wl,--as-needed'',
       mc_makeopts = ''-j1'',
       mc_use_flags = [],
       mc_features = [],
       mc_accept_license = ''-* @FREE'',
       mc_accept_keywords = ''amd64'',
       mc_emerge_default_opts = [],
       mc_chost = ''x86_64-pc-linux-gnu'',
       mc_cpu_flags = None,
       mc_original_cflags = None,
       mc_use_expand = [],
       mc_extra = [],
       mc_use_flags_resolved = False \<rparr>"

record portage_config =
  pc_make_conf :: make_conf
  pc_package_use :: "package_use_entry list"
  pc_package_accept_keywords :: "package_keyword_entry list"
  pc_package_license :: "package_license_entry list"
  pc_package_mask :: "string list"
  pc_package_unmask :: "string list"
  pc_package_env :: "package_env_entry list"
  pc_env_files :: "(string, string) btree_map"
  pc_repos_conf :: "(string, string) btree_map"
  pc_snapshot_manifest :: snapshot_manifest
  pc_repo_snapshots :: "(string, repo_snapshot) btree_map"
  pc_repo_snapshot_refs :: "(string, snapshot_refs) btree_map"
  pc_repo_snapshot_trees :: "(string, string) btree_map"
  pc_patches :: "(string, string) btree_map"
  pc_profile_overlay :: "(string, string) btree_map"
  pc_distfile_snapshots :: "(string, bytes) btree_map"
  pc_distfile_snapshot_refs :: "(string, string) btree_map"
  pc_profile :: string
  pc_world :: "string list"

record system_identity =
  si_arch :: string
  si_chost :: string
  si_gcc_version :: string
  si_libc_version :: string
  si_kernel_version :: string
  si_python_targets :: "string list"
  si_profile :: string

section \<open>Workorders (workorder.rs, trace.rs)\<close>

record trace_context =
  tc_trace_id :: string
  tc_traceparent :: string

datatype workorder_status =
    Pending
  | Provisioning
  | Building
  | Completed
  | Failed string
  | Cancelled

record workorder =
  wo_id :: workorder_id
  wo_client_id :: client_id
  wo_role :: client_role
  wo_atoms :: "string list"
  wo_emerge_args :: "string list"
  wo_portage_config :: portage_config
  wo_system_id :: system_identity
  wo_trace_context :: "trace_context option"
  wo_status :: workorder_status
  wo_created_at :: timestamp
  wo_updated_at :: timestamp

datatype build_event =
    StatusChanged workorder_status workorder_status
  | Log string
  | PackageBuilt string nat
  | PackageFailed string string
  | Finished "string list" "string list"

record build_progress_event =
  bp_workorder_id :: workorder_id
  bp_trace_id :: "string option"
  bp_event :: build_event
  bp_timestamp :: timestamp

record parity_file_entry =
  pf_digest :: string
  pf_size :: nat
  pf_mtime_secs :: int

record parity_directory_entry =
  pd_mtime_secs :: int

record parity_symlink_entry =
  ps_digest :: string
  ps_size :: nat
  ps_mtime_secs :: int

record parity_manifest =
  pm_files :: "(string, parity_file_entry) btree_map"
  pm_directories :: "(string, parity_directory_entry) btree_map"
  pm_symlinks :: "(string, parity_symlink_entry) btree_map"

definition parity_manifest_default :: parity_manifest where
  "parity_manifest_default = \<lparr> pm_files = [], pm_directories = [], pm_symlinks = [] \<rparr>"

record built_package =
  bpk_atom :: string
  bpk_binpkg_path :: string
  bpk_sha256 :: string
  bpk_size :: nat

record failed_package =
  fp_atom :: string
  fp_reason :: string
  fp_build_log :: "string option"

record workorder_result =
  wr_workorder_id :: workorder_id
  wr_built_packages :: "built_package list"
  wr_failed_packages :: "failed_package list"
  wr_binhost_uri :: string
  wr_fetched_distfiles :: "(string, snapshot_entry) btree_map"
  wr_parity_manifest :: parity_manifest

section \<open>Requests and responses (api.rs)\<close>

record submit_workorder_request =
  sr_client_id :: client_id
  sr_role :: client_role
  sr_atoms :: "string list"
  sr_emerge_args :: "string list"
  sr_portage_config :: portage_config
  sr_system_id :: system_identity

record submit_workorder_response =
  sp_workorder_id :: workorder_id
  sp_progress_ws_url :: string
  sp_trace_id :: "string option"

record workorder_status_response =
  ws_workorder_id :: workorder_id
  ws_status :: workorder_status
  ws_result :: "workorder_result option"
  ws_trace_id :: "string option"

record workorder_summary =
  wsm_id :: workorder_id
  wsm_atoms :: "string list"
  wsm_status :: workorder_status
  wsm_created_at :: timestamp

record cancel_workorder_response =
  cw_workorder_id :: workorder_id
  cw_cancelled :: bool

record client_summary =
  csm_client_id :: client_id
  csm_config_hash :: string
  csm_last_seen :: timestamp
  csm_active_workorder :: "workorder_id option"

record client_detail_response =
  cd_client_id :: client_id
  cd_config_hash :: string
  cd_system_hash :: string
  cd_last_seen :: timestamp
  cd_active_workorder :: "workorder_id option"

record server_info_response =
  sir_version :: string
  sir_binhost_base_url :: string
  sir_active_workers :: nat
  sir_queued_workorders :: nat
  sir_auth_mode :: auth_mode
  sir_binpkg_signing :: bool
  sir_signing_key_fingerprint :: "string option"
  sir_signing_key_endpoint :: "string option"

section \<open>Snapshot references (server runtime.rs)\<close>

record snapshot_reference_set =
  srs_blob_digests :: "string list"
  srs_tree_digests :: "string list"
  srs_total_blob_bytes :: nat
  srs_total_tree_bytes :: nat
  srs_last_referenced_at :: timestamp

section \<open>Terminal statuses\<close>

text \<open>The test the sources write as \<open>matches!(status, Completed | Failed .. | Cancelled)\<close>.\<close>

fun is_terminal :: "workorder_status \<Rightarrow> bool" where
  "is_terminal Completed = True"
| "is_terminal (Failed _) = True"
| "is_terminal Cancelled = True"
| "is_terminal Pending = False"
| "is_terminal Provisioning = False"
| "is_terminal Building = False"

section \<open>Sample values\<close>

text \<open>Small concrete values on which the examples evaluate the model.\<close>

definition sample_portage_config :: portage_config where
  "sample_portage_config =
     \<lparr> pc_make_conf = make_conf_default, pc_package_use = [], pc_package_accept_keywords = [],
       pc_package_license = [], pc_package_mask = [], pc_package_unmask = [], pc_package_env = [],
       pc_env_files = [], pc_repos_conf = [], pc_snapshot_manifest = snapshot_manifest_default,
       pc_repo_snapshots = [], pc_repo_snapshot_refs = [], pc_repo_snapshot_trees = [],
       pc_patches = [], pc_profile_overlay = [], pc_distfile_snapshots = [],
       pc_distfile_snapshot_refs = [], pc_profile = ''default/linux/amd64/23.0'', pc_world = [] \<rparr>"

definition sample_system_identity :: system_identity where
  "sample_system_identity =
     \<lparr> si_arch = ''amd64'', si_chost = ''x86_64-pc-linux-gnu'', si_gcc_version = ''13'',
       si_libc_version = ''2.38'', si_kernel_version = ''6.6'', si_python_targets = [],
       si_profile = ''default/linux/amd64/23.0'' \<rparr>"

section \<open>Laws of the parsers and printers\<close>

lemma client_role_from_str_display: "client_role_from_str (client_role_display r) = Inr r"
  by (cases r) (simp_all add: client_role_from_str_def)

lemma client_role_from_str_Inr:
  "client_role_from_str s = Inr r \<Longrightarrow> s = client_role_display r"
  by (auto simp: client_role_from_str_def split: if_splits)

lemma auth_mode_from_str_display: "auth_mode_from_str (auth_mode_display m) = Inr m"
  by (cases m) (simp_all add: auth_mode_from_str_def)

lemma auth_mode_from_str_Inr: "auth_mode_from_str s = Inr m \<Longrightarrow> s = auth_mode_display m"
  by (auto simp: auth_mode_from_str_def split: if_splits)

text \<open>A parser and a printer of a configuration value are inverse to each other:
  the contract both kinds of value satisfy.\<close>

locale value_codec =
  fixes display :: "'a \<Rightarrow> string"
    and from_str :: "string \<Rightarrow> string + 'a"
  assumes from_str_display: "from_str (display x) = Inr x"
    and display_from_str: "from_str s = Inr x \<Longrightarrow> s = display x"
begin

lemma from_str_Inr_iff: "from_str s = Inr x \<longleftrightarrow> s = display x"
  using from_str_display display_from_str by blast

lemma display_inject: "display x = display y \<longleftrightarrow> x = y"
  by (metis from_str_display sum.inject(2))

end

interpretation role_codec: value_codec client_role_display client_role_from_str
  by unfold_locales (simp_all add: client_role_from_str_display client_role_from_str_Inr)

interpretation mode_codec: value_codec auth_mode_display auth_mode_from_str
  by unfold_locales (simp_all add: auth_mode_from_str_display auth_mode_from_str_Inr)

end
