(* ===== verification/Atom_Validation.thy ===== *)
theory Atom_Validation
  imports Remerge_Prelude
begin

text \<open>
  Validation of package atoms (\<open>crates/types/src/validation.rs\<close>): the checks a
  submission goes through before its atoms reach \<open>emerge\<close>.  The accepted
  language is given independently as the inductive predicate \<open>atom_grammar\<close>
  and the validator is shown to decide it.
\<close>

section \<open>The validator\<close>

datatype atom_validation_error =
    Empty
  | DangerousCharacters
  | InvalidFormat string

fun atom_validation_error_display :: "atom_validation_error \<Rightarrow> string" where
  "atom_validation_error_display Empty = ''atom is empty''"
| "atom_validation_error_display DangerousCharacters =
     ''atom contains dangerous shell metacharacters''"
| "atom_validation_error_display (InvalidFormat msg) = ''invalid atom format: '' @ msg"

definition shell_chars :: "char list" where
  "shell_chars = [CHR ''`'', CHR ''$'', CHR 0x5C, CHR 0x22, CHR 0x27, CHR '';'', CHR ''&'',
     CHR ''|'', CHR ''('', CHR '')'', CHR ''{'', CHR ''}'', CHR 0x0A, CHR 0x0D, CHR 0x00]"

text \<open>The characters of a set name and of a category, and those of a package name.\<close>

definition name_char :: "char \<Rightarrow> bool" where
  "name_char c \<longleftrightarrow> is_alphanumeric c \<or> c = CHR ''-'' \<or> c = CHR ''_''"

definition package_char :: "char \<Rightarrow> bool" where
  "package_char c \<longleftrightarrow> is_alphanumeric c \<or>
     c \<in> {CHR ''-'', CHR ''_'', CHR ''.'', CHR ''+'', CHR ''*''}"

definition validate_package_name :: "string \<Rightarrow> atom_validation_error + unit" where
  "validate_package_name package =
     (if package = [] then Inl (InvalidFormat ''empty package name'')
      else if \<not> list_all package_char package
        then Inl (InvalidFormat ''invalid package name characters'')
      else Inr ())"

definition strip_version_operator :: "string \<Rightarrow> string" where
  "strip_version_operator atom =
     unwrap_or atom
       (or_else (strip_prefix ''>='' atom)
       (or_else (strip_prefix ''<='' atom)
       (or_else (strip_prefix ''='' atom)
       (or_else (strip_prefix ''>'' atom)
       (or_else (strip_prefix ''<'' atom)
                (strip_prefix ''~'' atom))))))"

definition validate_atom :: "string \<Rightarrow> atom_validation_error + unit" where
  "validate_atom atom =
     (if atom = [] then Inl Empty
      else if \<exists>c\<in>set atom. c \<in> set shell_chars then Inl DangerousCharacters
      else case strip_prefix ''@'' atom of
        Some set_name \<Rightarrow>
          (if set_name = [] then Inl (InvalidFormat ''empty set name'')
           else if \<not> list_all name_char set_name
             then Inl (InvalidFormat ''invalid set name characters'')
           else Inr ())
      | None \<Rightarrow>
          let stripped = strip_version_operator atom in
          case split_once CHR ''/'' stripped of
            Some (category, package) \<Rightarrow>
              (if CHR ''/'' \<in> set package
                 then Inl (InvalidFormat (''too many '' @ [CHR 0x27] @ ''/'' @ [CHR 0x27] @ '' separators''))
               else if category = [] then Inl (InvalidFormat ''empty category'')
               else if \<not> list_all name_char category
                 then Inl (InvalidFormat ''invalid category characters'')
               else if package = [] then Inl (InvalidFormat ''empty package name'')
               else validate_package_name package)
          | None \<Rightarrow>
              (if stripped \<noteq> atom
                 then Inl (InvalidFormat
                   ''version operators require a qualified category/package atom'')
               else validate_package_name stripped))"

section \<open>The language of atoms\<close>

definition version_operators :: "string list" where
  "version_operators = [[], ''>='', ''<='', ''='', ''>'', ''<'', ''~'']"

inductive atom_grammar :: "string \<Rightarrow> bool" where
  package_set: "n \<noteq> [] \<Longrightarrow> list_all name_char n \<Longrightarrow> atom_grammar (''@'' @ n)"
| bare: "p \<noteq> [] \<Longrightarrow> list_all package_char p \<Longrightarrow> atom_grammar p"
| with_category: "operator \<in> set version_operators \<Longrightarrow>
    category \<noteq> [] \<Longrightarrow> list_all name_char category \<Longrightarrow>
    p \<noteq> [] \<Longrightarrow> list_all package_char p \<Longrightarrow>
    atom_grammar (operator @ category @ ''/'' @ p)"

section \<open>Character classes of atoms\<close>

lemma name_char_package_char: "name_char c \<Longrightarrow> package_char c"
  by (auto simp: name_char_def package_char_def)

lemma package_char_neq:
  assumes "package_char c"
  shows "c \<noteq> CHR ''/''" "c \<noteq> CHR ''@''" "c \<noteq> CHR ''>''" "c \<noteq> CHR ''<''" "c \<noteq> CHR ''=''"
    "c \<noteq> CHR ''~''" "c \<notin> set shell_chars" "\<not> is_whitespace c"
  using assms by (auto simp: package_char_def shell_chars_def char_class_defs)

lemmas name_char_neq = package_char_neq [OF name_char_package_char]

lemma strip_version_operator_split:
  "\<exists>operator\<in>set version_operators. atom = operator @ strip_version_operator atom"
proof -
  show ?thesis
    unfolding strip_version_operator_def or_else_def unwrap_or_def version_operators_def
    by (simp split: option.split add: strip_prefix_Some_iff)
qed

lemma strip_version_operator_prefixed:
  assumes "operator \<in> set version_operators" "package_char c"
  shows "strip_version_operator (operator @ c # cs) = c # cs"
  using assms package_char_neq [of c]
  by (auto simp: strip_version_operator_def version_operators_def)

lemma validate_package_name_ok:
  "validate_package_name p = Inr () \<longleftrightarrow> p \<noteq> [] \<and> list_all package_char p"
  by (simp add: validate_package_name_def)

lemma package_chars_safe:
  "list_all package_char p \<Longrightarrow> \<not> (\<exists>c\<in>set p. c \<in> set shell_chars)"
  "list_all package_char p \<Longrightarrow> CHR ''/'' \<notin> set p"
  by (auto simp: list_all_iff dest: package_char_neq)

lemma name_chars_package_chars: "list_all name_char p \<Longrightarrow> list_all package_char p"
  by (auto simp: list_all_iff name_char_package_char)

lemma operators_safe:
  "operator \<in> set version_operators \<Longrightarrow> c \<in> set operator \<Longrightarrow> c \<notin> set shell_chars"
  by (auto simp: version_operators_def shell_chars_def)

lemma slash_safe: "CHR ''/'' \<notin> set shell_chars"
  by (simp add: shell_chars_def)

lemma validate_bare:
  assumes "p \<noteq> []" "list_all package_char p"
  shows "validate_atom p = Inr ()"
proof -
  obtain c cs where p: "p = c # cs" "package_char c"
    using assms by (cases p) auto
  then have "strip_version_operator p = p" "strip_prefix ''@'' p = None"
    using strip_version_operator_prefixed [of "[]" c cs] package_char_neq [of c]
    by (auto simp: version_operators_def)
  then show ?thesis
    using assms package_chars_safe [of p]
    by (simp add: validate_atom_def validate_package_name_def
        split_once_None_iff [THEN iffD2] del: split_once.simps)
qed

lemma validate_with_category:
  assumes "operator \<in> set version_operators" "category \<noteq> []" "list_all name_char category"
    and "p \<noteq> []" "list_all package_char p"
  shows "validate_atom (operator @ category @ ''/'' @ p) = Inr ()"
proof -
  let ?a = "operator @ category @ ''/'' @ p"
  obtain c cs where c: "category = c # cs" "package_char c"
    using assms by (cases category) (auto dest: name_char_package_char)
  have safe: "\<not> (\<exists>c\<in>set ?a. c \<in> set shell_chars)"
    using operators_safe [OF assms(1)] package_chars_safe(1) [OF assms(5)] slash_safe
      package_chars_safe(1) [OF name_chars_package_chars [OF assms(3)]]
    by (simp del: bex_simps) blast
  have "strip_prefix ''@'' ?a = None"
    using assms(1) c package_char_neq(2) [OF c(2)] by (auto simp: version_operators_def)
  moreover have "strip_version_operator ?a = category @ ''/'' @ p"
    using strip_version_operator_prefixed [OF assms(1) c(2)] c(1) by simp
  moreover have "split_once CHR ''/'' (category @ ''/'' @ p) = Some (category, p)"
    using package_chars_safe(2) [OF name_chars_package_chars [OF assms(3)]]
    by (simp add: split_once_Some_iff)
  moreover have "?a \<noteq> []" by simp
  ultimately show ?thesis
    using assms(2-5) safe package_chars_safe(2) [OF assms(5)]
    unfolding validate_atom_def
    by (simp only: Let_def validate_package_name_def if_False if_True option.case prod.case
        not_True_eq_False simp_thms)
qed

lemma validate_atom_complete: "atom_grammar a \<Longrightarrow> validate_atom a = Inr ()"
proof (induction rule: atom_grammar.induct)
  case (package_set n)
  then show ?case
    using package_chars_safe(1) [OF name_chars_package_chars [of n]]
    by (simp add: validate_atom_def shell_chars_def)
next
  case (bare p)
  then show ?case by (rule validate_bare)
next
  case (with_category operator category p)
  then show ?case by (rule validate_with_category)
qed

lemma validate_atom_sound:
  assumes ok: "validate_atom a = Inr ()"
  shows "atom_grammar a"
proof (cases "strip_prefix ''@'' a")
  case (Some n)
  then have "a = ''@'' @ n" "n \<noteq> []" "list_all name_char n"
    using ok by (auto simp: validate_atom_def strip_prefix_Some_iff split: if_splits)
  then show ?thesis by (simp add: atom_grammar.package_set del: append.simps)
next
  case None
  obtain operator where a: "operator \<in> set version_operators" "a = operator @ strip_version_operator a"
    using strip_version_operator_split by blast
  show ?thesis
  proof (cases "split_once CHR ''/'' (strip_version_operator a)")
    case None': None
    then have "strip_version_operator a = a" "a \<noteq> []" "list_all package_char a"
      using ok None by (auto simp: validate_atom_def validate_package_name_def Let_def split: if_splits)
    then show ?thesis by (simp add: atom_grammar.bare)
  next
    case (Some cp)
    obtain category p where cp: "cp = (category, p)" by (cases cp)
    then have s: "strip_version_operator a = category @ ''/'' @ p"
      using Some by (simp add: split_once_Some_iff)
    have "category \<noteq> []" "list_all name_char category" "p \<noteq> []" "list_all package_char p"
      using ok None Some cp
      by (auto simp: validate_atom_def validate_package_name_def Let_def split: if_splits)
    then show ?thesis
      using a s by (metis atom_grammar.with_category)
  qed
qed

lemma split_ws_acc_no_ws:
  "\<forall>c\<in>set s. \<not> is_whitespace c \<Longrightarrow> acc @ s \<noteq> [] \<Longrightarrow> split_ws_acc acc s = [rev acc @ s]"
  by (induction s arbitrary: acc) auto

lemma atom_grammar_chars:
  "atom_grammar a \<Longrightarrow> a \<noteq> [] \<and> (\<forall>c\<in>set a. package_char c \<or> c \<in> set ''@/<>=~'')"
proof (induction rule: atom_grammar.induct)
  case (with_category operator category p)
  then show ?case
    by (auto simp: list_all_iff version_operators_def dest: name_char_package_char)
qed (auto simp: list_all_iff dest: name_char_package_char)

lemma atom_chars_safe:
  assumes "package_char c \<or> c \<in> set ''@/<>=~''"
  shows "c \<notin> set shell_chars \<and> \<not> is_whitespace c"
  using assms
proof
  assume "c \<in> set ''@/<>=~''"
  then have "c = CHR ''@'' \<or> c = CHR ''/'' \<or> c = CHR ''<'' \<or> c = CHR ''>'' \<or> c = CHR ''=''
      \<or> c = CHR ''~''"
    by simp
  then show ?thesis
    by (elim disjE) (simp_all add: shell_chars_def is_whitespace_def)
qed (simp add: package_char_neq)

section \<open>Properties\<close>

text \<open>C32: the validator decides the documented language of atoms: an atom is accepted
  exactly when it is a package set \<open>@name\<close>, a bare package name, or a qualified
  \<open>category/package\<close> with at most one version operator in front.\<close>

theorem validate_atom_iff_grammar: "validate_atom a = Inr () \<longleftrightarrow> atom_grammar a"
  using validate_atom_complete validate_atom_sound by blast

text \<open>An accepted atom holds no shell metacharacter and is a single word: splitting a
  command line at white space gives it back unchanged.\<close>

theorem validate_atom_shell_safe:
  assumes "validate_atom a = Inr ()"
  shows "set a \<inter> set shell_chars = {} \<and> split_whitespace a = [a]"
proof -
  have g: "a \<noteq> []" "\<forall>c\<in>set a. c \<notin> set shell_chars \<and> \<not> is_whitespace c"
    using atom_grammar_chars [OF validate_atom_sound [OF assms]] atom_chars_safe by blast+
  then show ?thesis
    using split_ws_acc_no_ws [of a "[]"] by (auto simp: split_whitespace_def)
qed

theorem validate_atom_shell_safe_witness:
  "validate_atom ''>=dev-libs/openssl-3.1.4'' = Inr ()
   \<and> split_whitespace ''>=dev-libs/openssl-3.1.4'' = [''>=dev-libs/openssl-3.1.4'']"
proof -
  have ok: "validate_atom ''>=dev-libs/openssl-3.1.4'' = Inr ()" by code_simp
  show ?thesis
    by (rule conjI [OF ok conjunct2 [OF validate_atom_shell_safe [OF ok]]])
qed


end
