(* ===== verification/Chunk_Frame.thy ===== *)
theory Chunk_Frame
  imports Remerge_Types
begin

text \<open>
  The binary frames of the snapshot upload protocol
  (\<open>crates/types/src/api.rs\<close>): a header of 36 bytes followed by the payload.
  The checksum \<open>adler32_slice\<close> comes from the crate \<open>adler2\<close> and is the parameter
  \<open>adler32\<close> of the definitions; nothing is assumed of it.
\<close>

section \<open>Big-endian integers\<close>

text \<open>\<open>to_be_bytes\<close> and \<open>from_be_bytes\<close> of the unsigned integers, on their values.\<close>

fun be_bytes :: "nat \<Rightarrow> nat \<Rightarrow> bytes" where
  "be_bytes 0 x = []"
| "be_bytes (Suc k) x = be_bytes k (x div 256) @ [word_of_nat x]"

definition be_value :: "bytes \<Rightarrow> nat" where
  "be_value bs = foldl (\<lambda>n b. 256 * n + unat b) 0 bs"

definition u64_to_be_bytes :: "64 word \<Rightarrow> bytes" where
  "u64_to_be_bytes w = be_bytes 8 (unat w)"

definition u32_to_be_bytes :: "32 word \<Rightarrow> bytes" where
  "u32_to_be_bytes w = be_bytes 4 (unat w)"

definition u16_to_be_bytes :: "16 word \<Rightarrow> bytes" where
  "u16_to_be_bytes w = be_bytes 2 (unat w)"

definition u64_from_be_bytes :: "bytes \<Rightarrow> 64 word" where
  "u64_from_be_bytes bs = word_of_nat (be_value bs)"

definition u32_from_be_bytes :: "bytes \<Rightarrow> 32 word" where
  "u32_from_be_bytes bs = word_of_nat (be_value bs)"

definition u16_from_be_bytes :: "bytes \<Rightarrow> 16 word" where
  "u16_from_be_bytes bs = word_of_nat (be_value bs)"

section \<open>Frames\<close>

definition SNAPSHOT_BLOB_PROTOCOL_VERSION :: byte where
  "SNAPSHOT_BLOB_PROTOCOL_VERSION = 1"

definition SNAPSHOT_BLOB_CHUNK_MAGIC :: bytes where
  "SNAPSHOT_BLOB_CHUNK_MAGIC = [0x52, 0x4D, 0x43, 0x48]"

definition SNAPSHOT_BLOB_CHUNK_HEADER_LEN :: nat where
  "SNAPSHOT_BLOB_CHUNK_HEADER_LEN = 36"

definition SNAPSHOT_BLOB_DEFAULT_CHUNK_SIZE_BYTES :: nat where
  "SNAPSHOT_BLOB_DEFAULT_CHUNK_SIZE_BYTES = 10 * 1024 * 1024"

definition SNAPSHOT_BLOB_ENCODING_ZSTD :: string where
  "SNAPSHOT_BLOB_ENCODING_ZSTD = ''zstd''"

record chunk_header =
  ch_sequence :: "64 word"
  ch_offset_bytes :: "64 word"
  ch_payload_size_bytes :: "64 word"
  ch_payload_checksum :: "32 word"

datatype chunk_frame_error =
    FrameTooShort nat nat
  | InvalidMagic
  | UnsupportedVersion byte
  | UnsupportedFlags byte
  | NonZeroReserved
  | PayloadSizeMismatch "64 word" nat
  | ChecksumMismatch "32 word" "32 word"
  | PayloadTooLarge

definition from_payload ::
    "(bytes \<Rightarrow> 32 word) \<Rightarrow> 64 word \<Rightarrow> 64 word \<Rightarrow> bytes \<Rightarrow> chunk_header" where
  "from_payload adler32 sequence offset_bytes payload =
     \<lparr> ch_sequence = sequence,
       ch_offset_bytes = offset_bytes,
       ch_payload_size_bytes = word_of_nat (length payload),
       ch_payload_checksum = adler32 payload \<rparr>"

definition encode_with_payload ::
    "(bytes \<Rightarrow> 32 word) \<Rightarrow> chunk_header \<Rightarrow> bytes \<Rightarrow> chunk_frame_error + bytes" where
  "encode_with_payload adler32 h payload =
     (if length payload \<noteq> unat (ch_payload_size_bytes h)
        then Inl (PayloadSizeMismatch (ch_payload_size_bytes h) (length payload))
      else if adler32 payload \<noteq> ch_payload_checksum h
        then Inl (ChecksumMismatch (ch_payload_checksum h) (adler32 payload))
      else Inr (SNAPSHOT_BLOB_CHUNK_MAGIC @ [SNAPSHOT_BLOB_PROTOCOL_VERSION] @ [0]
        @ u16_to_be_bytes 0
        @ u64_to_be_bytes (ch_sequence h)
        @ u64_to_be_bytes (ch_offset_bytes h)
        @ u64_to_be_bytes (ch_payload_size_bytes h)
        @ u32_to_be_bytes (ch_payload_checksum h)
        @ payload))"

text \<open>The slice \<open>frame[a..b]\<close>.\<close>

definition subslice :: "nat \<Rightarrow> nat \<Rightarrow> 'a list \<Rightarrow> 'a list" where
  "subslice a b xs = take (b - a) (drop a xs)"

definition decode :: "(bytes \<Rightarrow> 32 word) \<Rightarrow> bytes \<Rightarrow> chunk_frame_error + (chunk_header \<times> bytes)" where
  "decode adler32 frame =
     (if length frame < SNAPSHOT_BLOB_CHUNK_HEADER_LEN
        then Inl (FrameTooShort SNAPSHOT_BLOB_CHUNK_HEADER_LEN (length frame))
      else if subslice 0 4 frame \<noteq> SNAPSHOT_BLOB_CHUNK_MAGIC then Inl InvalidMagic
      else if frame ! 4 \<noteq> SNAPSHOT_BLOB_PROTOCOL_VERSION then Inl (UnsupportedVersion (frame ! 4))
      else if frame ! 5 \<noteq> 0 then Inl (UnsupportedFlags (frame ! 5))
      else if u16_from_be_bytes [frame ! 6, frame ! 7] \<noteq> 0 then Inl NonZeroReserved
      else
        let sequence = u64_from_be_bytes (subslice 8 16 frame);
            offset_bytes = u64_from_be_bytes (subslice 16 24 frame);
            payload_size_bytes = u64_from_be_bytes (subslice 24 32 frame);
            payload_checksum = u32_from_be_bytes (subslice 32 36 frame);
            payload = drop SNAPSHOT_BLOB_CHUNK_HEADER_LEN frame
        in if length payload \<noteq> unat payload_size_bytes
             then Inl (PayloadSizeMismatch payload_size_bytes (length payload))
           else if adler32 payload \<noteq> payload_checksum
             then Inl (ChecksumMismatch payload_checksum (adler32 payload))
           else Inr (\<lparr> ch_sequence = sequence, ch_offset_bytes = offset_bytes,
             ch_payload_size_bytes = payload_size_bytes,
             ch_payload_checksum = payload_checksum \<rparr>, payload))"

section \<open>Laws of big-endian integers\<close>

lemma length_be_bytes [simp]: "length (be_bytes k x) = k"
  by (induction k arbitrary: x) simp_all

lemma be_value_snoc: "be_value (bs @ [b]) = 256 * be_value bs + unat b"
  by (simp add: be_value_def)

lemma be_value_Nil [simp]: "be_value [] = 0"
  by (simp add: be_value_def)

lemma unat_byte_of_nat: "unat (word_of_nat x :: byte) = x mod 256"
  by (simp add: unat_of_nat)

lemma be_value_be_bytes: "be_value (be_bytes k x) = x mod 256 ^ k"
proof (induction k arbitrary: x)
  case (Suc k)
  have "x mod (256 * 256 ^ k) = 256 * (x div 256 mod 256 ^ k) + x mod 256"
    by (rule mod_mult2_eq)
  then show ?case
    by (simp add: be_value_snoc Suc.IH unat_byte_of_nat)
qed simp

lemma be_value_less: "be_value bs < 256 ^ length bs"
proof (induction bs rule: rev_induct)
  case (snoc b bs)
  have "unat b < 256" using unsigned_less [of b] by simp
  with snoc show ?case by (simp add: be_value_snoc)
qed simp

lemma be_bytes_be_value: "be_bytes (length bs) (be_value bs) = bs"
proof (induction bs rule: rev_induct)
  case (snoc b bs)
  have "unat b < 256" using unsigned_less [of b] by simp
  then have "(256 * be_value bs + unat b) div 256 = be_value bs" by simp
  moreover have "(word_of_nat (256 * be_value bs + unat b) :: byte) = b"
    by (rule unsigned_word_eqI [where ?'a = nat], simp only: unat_byte_of_nat)
      (simp add: \<open>unat b < 256\<close>)
  ultimately show ?case
    using snoc by (simp add: be_value_snoc)
qed simp

text \<open>A width of \<open>k\<close> bytes and its word type: encoding and decoding are inverse.\<close>

locale be_codec =
  fixes k :: nat
    and to_bytes :: "'a::len word \<Rightarrow> bytes"
    and from_bytes :: "bytes \<Rightarrow> 'a word"
  assumes to_bytes: "to_bytes w = be_bytes k (unat w)"
    and from_bytes: "from_bytes bs = word_of_nat (be_value bs)"
    and width: "2 ^ LENGTH('a) = (256 :: nat) ^ k"
begin

lemma length_to_bytes: "length (to_bytes w) = k"
  by (simp add: to_bytes)

lemma from_to: "from_bytes (to_bytes w) = w"
proof -
  have "unat w < 2 ^ LENGTH('a)" by (rule unsigned_less)
  then have "unat w < 256 ^ k" by (simp only: width)
  then show ?thesis by (simp add: to_bytes from_bytes be_value_be_bytes)
qed

lemma to_from: "length bs = k \<Longrightarrow> to_bytes (from_bytes bs) = bs"
proof -
  assume l: "length bs = k"
  have "be_value bs < 2 ^ LENGTH('a)"
    using be_value_less [of bs] l by (simp add: width)
  then have "unat (word_of_nat (be_value bs) :: 'a word) = be_value bs"
    by (simp add: unat_of_nat)
  then show ?thesis
    using be_bytes_be_value [of bs] l by (simp add: to_bytes from_bytes)
qed

end

interpretation u64_codec: be_codec 8 u64_to_be_bytes u64_from_be_bytes
  by unfold_locales (simp_all add: u64_to_be_bytes_def u64_from_be_bytes_def)

interpretation u32_codec: be_codec 4 u32_to_be_bytes u32_from_be_bytes
  by unfold_locales (simp_all add: u32_to_be_bytes_def u32_from_be_bytes_def)

interpretation u16_codec: be_codec 2 u16_to_be_bytes u16_from_be_bytes
  by unfold_locales (simp_all add: u16_to_be_bytes_def u16_from_be_bytes_def)

lemmas codec_lengths [simp] =
  u64_codec.length_to_bytes u32_codec.length_to_bytes u16_codec.length_to_bytes

lemma subslice_append_drop: "a \<le> b \<Longrightarrow> subslice a b xs @ drop b xs = drop a xs"
  by (metis append_take_drop_id drop_drop le_add_diff_inverse2 subslice_def)

lemma length_subslice: "a \<le> b \<Longrightarrow> b \<le> length xs \<Longrightarrow> length (subslice a b xs) = b - a"
  by (simp add: subslice_def)

text \<open>The layout of a frame, as a decomposition that holds of every frame with a
  complete header.\<close>

lemma frame_layout:
  assumes "36 \<le> length f"
  shows "f = subslice 0 4 f @ [f ! 4] @ [f ! 5] @ [f ! 6, f ! 7]
    @ subslice 8 16 f @ subslice 16 24 f @ subslice 24 32 f @ subslice 32 36 f @ drop 36 f"
proof -
  have "drop 4 f = f ! 4 # f ! 5 # f ! 6 # f ! 7 # drop 8 f"
    using assms by (simp add: Cons_nth_drop_Suc [symmetric] numeral_eq_Suc)
  moreover have "f = subslice 0 4 f @ drop 4 f"
    using subslice_append_drop [of 0 4 f] by simp
  ultimately show ?thesis
    using subslice_append_drop [of 8 16 f] subslice_append_drop [of 16 24 f]
      subslice_append_drop [of 24 32 f] subslice_append_drop [of 32 36 f] by simp
qed

lemma layout_fields:
  assumes "length m = 4" "length s = 8" "length z = 8" "length y = 8" "length c = 4"
    and f: "f = m @ [v] @ [g] @ [a, b] @ s @ z @ y @ c @ payload"
  shows "length f = 36 + length payload" "subslice 0 4 f = m" "f ! 4 = v" "f ! 5 = g"
    "f ! 6 = a" "f ! 7 = b" "subslice 8 16 f = s" "subslice 16 24 f = z" "subslice 24 32 f = y"
    "subslice 32 36 f = c" "drop 36 f = payload"
  unfolding f using assms(1-5) by (simp_all add: subslice_def nth_append)

lemma u16_zero: "u16_to_be_bytes 0 = [0, 0]"
  by (simp add: u16_to_be_bytes_def numeral_2_eq_2)

lemma reserved_zero: "u16_from_be_bytes [a, b] = 0 \<longleftrightarrow> a = 0 \<and> b = 0"
  using u16_codec.to_from [of "[a, b]"] u16_codec.from_to [of 0] by (auto simp: u16_zero)

lemmas frame_consts = SNAPSHOT_BLOB_CHUNK_MAGIC_def SNAPSHOT_BLOB_PROTOCOL_VERSION_def
  SNAPSHOT_BLOB_CHUNK_HEADER_LEN_def

lemma decode_encoded:
  assumes "encode_with_payload adler32 h payload = Inr frame"
  shows "decode adler32 frame = Inr (h, payload)"
proof -
  have ok: "length payload = unat (ch_payload_size_bytes h)" "adler32 payload = ch_payload_checksum h"
    and frame: "frame = SNAPSHOT_BLOB_CHUNK_MAGIC @ [SNAPSHOT_BLOB_PROTOCOL_VERSION] @ [0] @ [0, 0]
      @ u64_to_be_bytes (ch_sequence h) @ u64_to_be_bytes (ch_offset_bytes h)
      @ u64_to_be_bytes (ch_payload_size_bytes h) @ u32_to_be_bytes (ch_payload_checksum h) @ payload"
    using assms by (auto simp: encode_with_payload_def u16_zero split: if_splits)
  have m: "length SNAPSHOT_BLOB_CHUNK_MAGIC = 4" by (simp add: frame_consts)
  show ?thesis
    unfolding frame decode_def SNAPSHOT_BLOB_CHUNK_HEADER_LEN_def
    using ok
    by (simp only: layout_fields [OF m codec_lengths(1) codec_lengths(1) codec_lengths(1) codec_lengths(2) refl]
        reserved_zero u64_codec.from_to u32_codec.from_to Let_def) simp
qed

lemma encode_decoded:
  assumes "decode adler32 frame = Inr (h, payload)"
  shows "encode_with_payload adler32 h payload = Inr frame"
proof -
  have len: "36 \<le> length frame"
    using assms by (auto simp: decode_def frame_consts(3) split: if_splits)
  have magic: "subslice 0 4 frame = SNAPSHOT_BLOB_CHUNK_MAGIC" "frame ! 4 = SNAPSHOT_BLOB_PROTOCOL_VERSION"
      "frame ! 5 = 0" "u16_from_be_bytes [frame ! 6, frame ! 7] = 0"
    and h: "h = \<lparr> ch_sequence = u64_from_be_bytes (subslice 8 16 frame),
      ch_offset_bytes = u64_from_be_bytes (subslice 16 24 frame),
      ch_payload_size_bytes = u64_from_be_bytes (subslice 24 32 frame),
      ch_payload_checksum = u32_from_be_bytes (subslice 32 36 frame) \<rparr>"
    and payload: "payload = drop 36 frame"
      "length payload = unat (ch_payload_size_bytes h)" "adler32 payload = ch_payload_checksum h"
    using assms by (auto simp: decode_def frame_consts(3) Let_def split: if_splits)
  have sl: "length (subslice 8 16 frame) = 8" "length (subslice 16 24 frame) = 8"
    "length (subslice 24 32 frame) = 8" "length (subslice 32 36 frame) = 4"
    using len by (simp_all add: length_subslice)
  have zero: "frame ! 6 = 0" "frame ! 7 = 0"
    using magic(4) by (simp_all add: reserved_zero)
  have "encode_with_payload adler32 h payload = Inr (subslice 0 4 frame @ [frame ! 4] @ [frame ! 5]
      @ [frame ! 6, frame ! 7] @ subslice 8 16 frame @ subslice 16 24 frame @ subslice 24 32 frame
      @ subslice 32 36 frame @ drop 36 frame)"
    using payload sl unfolding magic(1-3) zero
    by (simp add: encode_with_payload_def h u64_codec.to_from u32_codec.to_from u16_zero)
  also have "\<dots> = Inr frame"
    by (simp only: frame_layout [OF len, symmetric])
  finally show ?thesis .
qed

section \<open>Properties\<close>

text \<open>C33: a chunk of any payload that fits the size field survives the wire: encoding the
  header built from the payload succeeds, and decoding the frame returns that header and
  exactly that payload.\<close>

theorem chunk_frame_roundtrip:
  assumes "length payload < 2 ^ 64"
  shows "\<exists>frame. encode_with_payload adler32 (from_payload adler32 sequence off payload) payload = Inr frame
    \<and> decode adler32 frame = Inr (from_payload adler32 sequence off payload, payload)"
proof -
  have "unat (word_of_nat (length payload) :: 64 word) = length payload"
    using assms by (simp add: unat_of_nat)
  then obtain frame where
    "encode_with_payload adler32 (from_payload adler32 sequence off payload) payload = Inr frame"
    by (simp add: encode_with_payload_def from_payload_def)
  then show ?thesis using decode_encoded by blast
qed

theorem chunk_frame_roundtrip_witness:
  "\<exists>frame. encode_with_payload (\<lambda>bs. of_nat (length bs)) (from_payload (\<lambda>bs. of_nat (length bs)) 3 20 [7, 8]) [7, 8] = Inr frame
    \<and> decode (\<lambda>bs. of_nat (length bs)) frame
      = Inr (from_payload (\<lambda>bs. of_nat (length bs)) 3 20 [7, 8], [7, 8])"
  by (rule chunk_frame_roundtrip) simp

text \<open>Decoding accepts canonical frames only: whatever \<open>decode\<close> accepts is the encoding
  of the header and payload it returns, so no two distinct frames decode to the same chunk
  and every accepted payload matches its declared size and checksum.\<close>

theorem chunk_frame_decode_canonical:
  "decode adler32 frame = Inr (h, payload)
    \<longleftrightarrow> encode_with_payload adler32 h payload = Inr frame"
  using decode_encoded encode_decoded by blast

end
