(* ===== verification/Auth.thy ===== *)
theory Auth
  imports Remerge_Types
begin

text \<open>
  Client authentication (\<open>crates/server/src/auth.rs\<close>): the certificate registry
  built from the configuration and the resolution of the effective identity of a
  request.  A header map is the list of its entries, in order; the value is
  \<^const>\<open>None\<close> where \<open>HeaderValue::to_str\<close> fails.  The parser of header names is
  code of the crate \<open>http\<close> and a parameter of \<open>cert_registry_new\<close>.
\<close>

section \<open>Configuration and registry\<close>

definition DEFAULT_CERT_HEADER :: string where
  "DEFAULT_CERT_HEADER = ''x-client-cert-fingerprint''"

record cert_entry =
  ce_fingerprint :: string
  ce_client_id :: client_id
  ce_role :: client_role
  ce_label :: "string option"

record auth_config =
  ac_mode :: auth_mode
  ac_cert_header :: string
  ac_clients :: "cert_entry list"

definition auth_config_default :: auth_config where
  "auth_config_default =
     \<lparr> ac_mode = AuthNone, ac_cert_header = DEFAULT_CERT_HEADER, ac_clients = [] \<rparr>"

record cert_registry =
  cr_mode :: auth_mode
  cr_cert_header :: string
  cr_entries :: "(string, cert_entry) hash_map"

datatype auth_method =
    SelfDeclared
  | Certificate string "string option"

fun auth_method_display :: "auth_method \<Rightarrow> string" where
  "auth_method_display SelfDeclared = ''self-declared''"
| "auth_method_display (Certificate fingerprint (Some label)) = ''certificate ('' @ label @ '')''"
| "auth_method_display (Certificate fingerprint None) =
     ''certificate ('' @ take (min 12 (length fingerprint)) fingerprint
       @ [CHR 0xE2, CHR 0x80, CHR 0xA6] @ '')''"

record resolved_identity =
  ri_client_id :: client_id
  ri_role :: client_role
  ri_method :: auth_method

datatype auth_error =
    CertificateRequired
  | MainRequiresCert
  | UnknownCertificate string

fun auth_error_display :: "auth_error \<Rightarrow> string" where
  "auth_error_display CertificateRequired = ''client certificate required (mTLS mode)''"
| "auth_error_display MainRequiresCert =
     ''main clients must authenticate via mTLS (mixed mode)''"
| "auth_error_display (UnknownCertificate fp) = ''unknown client certificate: '' @ fp"

fun auth_error_status_code :: "auth_error \<Rightarrow> nat" where
  "auth_error_status_code CertificateRequired = 401"
| "auth_error_status_code (UnknownCertificate _) = 401"
| "auth_error_status_code MainRequiresCert = 403"

definition normalise_fingerprint :: "string \<Rightarrow> string" where
  "normalise_fingerprint fp =
     (let lower = map to_lower (trim fp);
          without_prefix = unwrap_or lower (strip_prefix ''sha256:'' lower)
      in filter (\<lambda>c. c \<noteq> CHR '':'' \<and> c \<noteq> CHR '' '') without_prefix)"

definition cert_registry_new :: "(string \<Rightarrow> string option) \<Rightarrow> auth_config \<Rightarrow> cert_registry" where
  "cert_registry_new parse_header_name config =
     \<lparr> cr_mode = ac_mode config,
       cr_cert_header = unwrap_or ''x-client-cert-fingerprint''
         (parse_header_name (ac_cert_header config)),
       cr_entries = fold (\<lambda>(k, v). hm_insert k v)
         (map (\<lambda>e. (normalise_fingerprint (ce_fingerprint e), e)) (ac_clients config)) [] \<rparr>"

type_synonym header_map = "(string \<times> string option) list"

definition extract_fingerprint :: "cert_registry \<Rightarrow> header_map \<Rightarrow> string option" where
  "extract_fingerprint r headers =
     (case map_of headers (cr_cert_header r) of
        Some (Some raw) \<Rightarrow>
          (let normalised = normalise_fingerprint raw in
           if normalised = [] then None else Some normalised)
      | _ \<Rightarrow> None)"

text \<open>The identity of a certificate entry, as both certificate branches build it.\<close>

definition certificate_identity :: "cert_entry \<Rightarrow> resolved_identity" where
  "certificate_identity e =
     \<lparr> ri_client_id = ce_client_id e, ri_role = ce_role e,
       ri_method = Certificate (normalise_fingerprint (ce_fingerprint e)) (ce_label e) \<rparr>"

definition resolve ::
    "cert_registry \<Rightarrow> header_map \<Rightarrow> client_id \<Rightarrow> client_role \<Rightarrow> auth_error + resolved_identity" where
  "resolve r headers body_client_id body_role =
     (let cert_fp = extract_fingerprint r headers in
      case cr_mode r of
        AuthNone \<Rightarrow> Inr \<lparr> ri_client_id = body_client_id, ri_role = body_role,
                         ri_method = SelfDeclared \<rparr>
      | Mtls \<Rightarrow>
          rbind (ok_or CertificateRequired cert_fp) (\<lambda>fp.
          rbind (ok_or (UnknownCertificate fp) (map_of (cr_entries r) fp)) (\<lambda>entry.
          Inr (certificate_identity entry)))
      | Mixed \<Rightarrow>
          (case cert_fp of
             Some fp \<Rightarrow>
               rbind (ok_or (UnknownCertificate fp) (map_of (cr_entries r) fp)) (\<lambda>entry.
               Inr (certificate_identity entry))
           | None \<Rightarrow>
               (if body_role = Main then Inl MainRequiresCert
                else Inr \<lparr> ri_client_id = body_client_id, ri_role = Follower,
                           ri_method = SelfDeclared \<rparr>)))"

definition resolve_header_only :: "cert_registry \<Rightarrow> header_map \<Rightarrow> client_id option" where
  "resolve_header_only r headers =
     (case extract_fingerprint r headers of
        None \<Rightarrow> None
      | Some fp \<Rightarrow> map_option ce_client_id (map_of (cr_entries r) fp))"

section \<open>Fingerprints\<close>

text \<open>The characters of a printed fingerprint: hexadecimal digits and separators.\<close>

definition fingerprint_char :: "char \<Rightarrow> bool" where
  "fingerprint_char c \<longleftrightarrow> is_hexdigit c \<or> c = CHR '':'' \<or> c = CHR '' ''"

lemma of_char_to_lower: "is_upper c \<Longrightarrow> of_char (to_lower c) = (of_char c + 32 :: nat)"
  by (simp add: to_lower_def is_upper_def)

lemma to_lower_separator:
  "to_lower c = CHR '':'' \<longleftrightarrow> c = CHR '':''"
  "to_lower c = CHR '' '' \<longleftrightarrow> c = CHR '' ''"
proof -
  have "to_lower c \<noteq> d \<and> c \<noteq> d" if "is_upper c" "(of_char d :: nat) < 65" for d
  proof -
    have "of_char (to_lower c) \<noteq> (of_char d :: nat)"
      using that of_char_to_lower [OF that(1)] by (simp add: is_upper_def)
    moreover have "c \<noteq> d"
      using that by (auto simp: is_upper_def)
    ultimately show ?thesis by auto
  qed
  from this [of "CHR '':''"] this [of "CHR '' ''"] show
    "to_lower c = CHR '':'' \<longleftrightarrow> c = CHR '':''" "to_lower c = CHR '' '' \<longleftrightarrow> c = CHR '' ''"
    by (cases "is_upper c"; simp add: to_lower_def)+
qed

lemma filter_map_to_lower:
  "filter (\<lambda>c. c \<noteq> CHR '':'' \<and> c \<noteq> CHR '' '') (map to_lower s)
     = map to_lower (filter (\<lambda>c. c \<noteq> CHR '':'' \<and> c \<noteq> CHR '' '') s)"
  by (simp add: filter_map o_def to_lower_separator)

lemma filter_dropWhile:
  "\<forall>c\<in>set s. Q c \<longrightarrow> \<not> P c \<Longrightarrow> filter P (dropWhile Q s) = filter P s"
  by (induction s) auto

lemma fingerprint_char_cases:
  assumes "fingerprint_char c"
  shows "is_whitespace c \<Longrightarrow> c = CHR '' ''" "to_lower c \<noteq> CHR ''s''"
    "(c \<noteq> CHR '':'' \<and> c \<noteq> CHR '' '') = is_hexdigit c"
proof -
  show "is_whitespace c \<Longrightarrow> c = CHR '' ''"
    using assms by (auto simp: fingerprint_char_def char_class_defs)
  show "to_lower c \<noteq> CHR ''s''"
  proof
    assume eq: "to_lower c = CHR ''s''"
    then have "of_char (to_lower c) = (115 :: nat)" by simp
    then have "is_upper c \<Longrightarrow> False"
      using of_char_to_lower [of c] assms by (auto simp: fingerprint_char_def char_class_defs)
    with eq assms show False
      by (auto simp: to_lower_def fingerprint_char_def char_class_defs split: if_splits)
  qed
  show "(c \<noteq> CHR '':'' \<and> c \<noteq> CHR '' '') = is_hexdigit c"
    using assms by (auto simp: fingerprint_char_def char_class_defs)
qed

lemma filter_trim_end:
  "list_all fingerprint_char s \<Longrightarrow>
     filter (\<lambda>c. c \<noteq> CHR '':'' \<and> c \<noteq> CHR '' '') (trim_end s) = filter is_hexdigit s"
proof -
  assume s: "list_all fingerprint_char s"
  let ?P = "\<lambda>c. c \<noteq> CHR '':'' \<and> c \<noteq> CHR '' ''"
  have "filter ?P (rev (dropWhile is_whitespace (rev s))) = filter ?P s"
    using s fingerprint_char_cases(1)
    by (subst rev_filter [symmetric], subst filter_dropWhile) (auto simp: list_all_iff rev_filter)
  also have "\<dots> = filter is_hexdigit s"
    using s by (intro filter_cong) (simp_all add: fingerprint_char_cases(3) list_all_iff)
  finally show ?thesis by (simp add: trim_end_def)
qed

lemma set_trim_end: "set (trim_end s) \<subseteq> set s"
  using set_dropWhileD by (fastforce simp: trim_end_def)

lemma normalise_bare:
  assumes fp: "list_all fingerprint_char fp"
  shows "normalise_fingerprint fp = map to_lower (filter is_hexdigit fp)"
proof -
  let ?t = "trim_start fp"
  have t: "list_all fingerprint_char ?t"
    using fp set_dropWhileD by (fastforce simp: trim_start_def list_all_iff)
  have "filter is_hexdigit ?t = filter is_hexdigit fp"
    unfolding trim_start_def by (rule filter_dropWhile) (auto simp: char_class_defs)
  moreover have "strip_prefix ''sha256:'' (map to_lower (trim fp)) = None"
  proof -
    have "\<forall>c\<in>set (trim fp). to_lower c \<noteq> CHR ''s''"
      using t set_trim_end [of ?t] fingerprint_char_cases(2) by (auto simp: trim_def list_all_iff)
    then show ?thesis by (cases "trim fp") auto
  qed
  ultimately show ?thesis
    using filter_trim_end [OF t]
    by (simp add: normalise_fingerprint_def Let_def filter_map_to_lower trim_def)
qed

lemma trim_end_append: "\<not> is_whitespace c \<Longrightarrow> trim_end (a @ c # b) = a @ c # trim_end b"
proof -
  assume c: "\<not> is_whitespace c"
  have "dropWhile is_whitespace (rev b @ c # rev a) = dropWhile is_whitespace (rev b) @ c # rev a"
    using c by (induction b rule: rev_induct) auto
  then show ?thesis by (simp add: trim_end_def)
qed

lemma normalise_prefixed:
  assumes fp: "list_all fingerprint_char fp" and p: "p \<in> {''sha256:'', ''SHA256:''}"
  shows "normalise_fingerprint (p @ fp) = map to_lower (filter is_hexdigit fp)"
proof -
  have "map to_lower ''sha256:'' = ''sha256:''" "map to_lower ''SHA256:'' = ''sha256:''"
    by code_simp+
  then obtain q where q: "p = q @ '':''" and lower: "map to_lower p = ''sha256:''"
    using p by fastforce
  have "trim (p @ fp) = trim_end (p @ fp)"
    using p by (auto simp: trim_def trim_start_def is_whitespace_def)
  also have "\<dots> = p @ trim_end fp"
    using trim_end_append [of "CHR '':''" q fp] by (simp add: q is_whitespace_def)
  finally have "map to_lower (trim (p @ fp)) = ''sha256:'' @ map to_lower (trim_end fp)"
    using lower by simp
  then show ?thesis
    using filter_trim_end [OF fp]
    by (simp add: normalise_fingerprint_def Let_def filter_map_to_lower del: append.simps)
qed

section \<open>The registry\<close>

text \<open>Looking up a fingerprint finds the last entry registered under it.\<close>

lemma cert_registry_lookup:
  "map_of (cr_entries (cert_registry_new parse config)) fp
     = map_of (rev (map (\<lambda>e. (normalise_fingerprint (ce_fingerprint e), e)) (ac_clients config))) fp"
  unfolding cert_registry_new_def cert_registry.simps
  by (subst hm.lookup_fold_put) (simp_all add: hm_wf_def)

lemma cert_registry_lookup_Some:
  assumes "map_of (cr_entries (cert_registry_new parse config)) fp = Some e"
  shows "e \<in> set (ac_clients config)" "normalise_fingerprint (ce_fingerprint e) = fp"
  using map_of_SomeD [OF assms [unfolded cert_registry_lookup]] by auto

lemma resolve_certificate:
  assumes "cr_mode r = Mtls \<or> cr_mode r = Mixed \<and> extract_fingerprint r headers \<noteq> None"
    and "resolve r headers cid role = Inr ident"
  obtains fp e where "extract_fingerprint r headers = Some fp" "map_of (cr_entries r) fp = Some e"
    "ident = certificate_identity e"
  using assms
  by (auto simp: resolve_def Let_def rbind_Inr_iff ok_or_def split: option.splits)

section \<open>Properties\<close>

text \<open>C34: in mTLS mode the identity never comes from the request body: a resolved identity is
  that of a configured certificate whose normalised fingerprint is the presented one, and
  changing the identity the body declares changes nothing.\<close>

theorem mtls_identity_from_certificate:
  assumes "ac_mode config = Mtls"
    and "resolve (cert_registry_new parse config) headers cid role = Inr ident"
  shows "(\<exists>e\<in>set (ac_clients config). ident = certificate_identity e
      \<and> extract_fingerprint (cert_registry_new parse config) headers
          = Some (normalise_fingerprint (ce_fingerprint e)))
    \<and> (\<forall>cid' role'. resolve (cert_registry_new parse config) headers cid' role' = Inr ident)"
proof -
  let ?r = "cert_registry_new parse config"
  have m: "cr_mode ?r = Mtls" using assms(1) by (simp add: cert_registry_new_def)
  obtain fp e where *: "extract_fingerprint ?r headers = Some fp" "map_of (cr_entries ?r) fp = Some e"
    "ident = certificate_identity e"
    using resolve_certificate assms(2) m by blast
  have "resolve ?r headers cid' role' = Inr ident" for cid' role'
    using * m by (simp add: resolve_def)
  then show ?thesis
    using * cert_registry_lookup_Some by blast
qed

theorem mtls_identity_from_certificate_witness:
  "let config = \<lparr> ac_mode = Mtls, ac_cert_header = ''x-fp'',
       ac_clients = [\<lparr> ce_fingerprint = ''AB:CD'', ce_client_id = 7, ce_role = Main, ce_label = None \<rparr>] \<rparr>
   in \<forall>cid' role'. resolve (cert_registry_new Some config) [(''x-fp'', Some ''sha256:abcd'')] cid' role'
        = Inr \<lparr> ri_client_id = 7, ri_role = Main, ri_method = Certificate ''abcd'' None \<rparr>"
proof -
  let ?config = "\<lparr> ac_mode = Mtls, ac_cert_header = ''x-fp'',
    ac_clients = [\<lparr> ce_fingerprint = ''AB:CD'', ce_client_id = 7, ce_role = Main, ce_label = None \<rparr>] \<rparr>"
  have "ac_mode ?config = Mtls" by simp
  moreover have "resolve (cert_registry_new Some ?config) [(''x-fp'', Some ''sha256:abcd'')] 9 Follower
      = Inr \<lparr> ri_client_id = 7, ri_role = Main, ri_method = Certificate ''abcd'' None \<rparr>"
    by code_simp
  ultimately show ?thesis
    unfolding Let_def by (rule conjunct2 [OF mtls_identity_from_certificate])
qed

text \<open>In mixed mode nobody becomes a main client without a certificate: a resolved
  identity with the main role was assigned by a configured entry of that role, and the
  identity of a request without certificate is a self-declared follower.\<close>

theorem mixed_main_needs_certificate:
  assumes "ac_mode config = Mixed"
    and "resolve (cert_registry_new parse config) headers cid role = Inr ident"
  shows "(ri_role ident = Main \<longrightarrow> (\<exists>e\<in>set (ac_clients config). ce_role e = Main
      \<and> ri_client_id ident = ce_client_id e
      \<and> extract_fingerprint (cert_registry_new parse config) headers
          = Some (normalise_fingerprint (ce_fingerprint e))))
    \<and> (extract_fingerprint (cert_registry_new parse config) headers = None \<longrightarrow>
        ident = \<lparr> ri_client_id = cid, ri_role = Follower, ri_method = SelfDeclared \<rparr> \<and> role = Follower)"
proof (cases "extract_fingerprint (cert_registry_new parse config) headers")
  case None
  then show ?thesis
    using assms by (cases role) (auto simp: resolve_def Let_def cert_registry_new_def split: if_splits)
next
  case (Some fp)
  have "cr_mode (cert_registry_new parse config) = Mixed"
    using assms(1) by (simp add: cert_registry_new_def)
  then obtain e where "map_of (cr_entries (cert_registry_new parse config)) fp = Some e"
    "ident = certificate_identity e"
    using resolve_certificate assms(2) Some by (metis option.distinct(1) option.inject)
  then show ?thesis
    using Some cert_registry_lookup_Some by (auto simp: certificate_identity_def)
qed

theorem mixed_main_needs_certificate_witness:
  "let config = \<lparr> ac_mode = Mixed, ac_cert_header = ''x-fp'',
       ac_clients = [\<lparr> ce_fingerprint = ''AB:CD'', ce_client_id = 7, ce_role = Main, ce_label = None \<rparr>] \<rparr>
   in \<exists>e\<in>set (ac_clients config). ce_role e = Main \<and> ce_client_id e = 7"
proof -
  let ?config = "\<lparr> ac_mode = Mixed, ac_cert_header = ''x-fp'',
    ac_clients = [\<lparr> ce_fingerprint = ''AB:CD'', ce_client_id = 7, ce_role = Main, ce_label = None \<rparr>] \<rparr>"
  let ?ident = "\<lparr> ri_client_id = 7, ri_role = Main, ri_method = Certificate ''abcd'' None \<rparr>"
  have "ac_mode ?config = Mixed" by simp
  moreover have "resolve (cert_registry_new Some ?config) [(''x-fp'', Some ''ab cd'')] 9 Follower = Inr ?ident"
    by code_simp
  ultimately have "ri_role ?ident = Main \<longrightarrow> (\<exists>e\<in>set (ac_clients ?config). ce_role e = Main
      \<and> ri_client_id ?ident = ce_client_id e
      \<and> extract_fingerprint (cert_registry_new Some ?config) [(''x-fp'', Some ''ab cd'')]
          = Some (normalise_fingerprint (ce_fingerprint e)))"
    by (rule conjunct1 [OF mixed_main_needs_certificate])
  then show ?thesis unfolding Let_def by simp
qed

text \<open>Fingerprints match however they are written: with or without the \<open>sha256:\<close> prefix in
  either case, in upper or lower case, with colons, spaces or no separators, normalisation
  gives the lower-case hexadecimal digits.\<close>

theorem normalise_fingerprint_formats:
  assumes "list_all fingerprint_char fp" and "p \<in> {[], ''sha256:'', ''SHA256:''}"
  shows "normalise_fingerprint (p @ fp) = map to_lower (filter is_hexdigit fp)"
  using assms normalise_bare normalise_prefixed by (cases "p = []") auto

theorem normalise_fingerprint_formats_witness:
  "normalise_fingerprint (''SHA256:'' @ ''AB:cd 01'') = ''abcd01''"
proof -
  have "normalise_fingerprint (''SHA256:'' @ ''AB:cd 01'') = map to_lower (filter is_hexdigit ''AB:cd 01'')"
    by (rule normalise_fingerprint_formats) (code_simp, simp)
  also have "\<dots> = ''abcd01''" by code_simp
  finally show ?thesis .
qed

end
