(* ===== verification/Registry.thy ===== *)
theory Registry
  imports Remerge_Types
begin

text \<open>
  The client registry (\<open>crates/server/src/registry.rs\<close>): which configuration a
  client last registered, what a new submission changes, and the marker of the
  workorder in progress for a client.  Serialisation to JSON and SHA-256 come
  from crates outside the repository; they are the fields of \<open>hash_env\<close>.
\<close>

section \<open>Operations\<close>

record hash_env =
  json_portage_config :: "portage_config \<Rightarrow> string option"
  json_system_identity :: "system_identity \<Rightarrow> string option"
  sha256_hex :: "string \<Rightarrow> string"

definition hash_json :: "('a \<Rightarrow> string option) \<Rightarrow> (string \<Rightarrow> string) \<Rightarrow> 'a \<Rightarrow> string" where
  "hash_json to_json sha v = sha (unwrap_or [] (to_json v))"

type_synonym client_registry = "(client_id, client_state) hash_map"

datatype registry_error =
    ActiveWorkorder workorder_id
  | NoMainClient
  | ConfigMismatch

fun registry_error_display :: "(uuid \<Rightarrow> string) \<Rightarrow> registry_error \<Rightarrow> string" where
  "registry_error_display show_uuid (ActiveWorkorder w) =
     ''workorder '' @ show_uuid w @ '' is already active for this client ID''"
| "registry_error_display show_uuid NoMainClient =
     ''no main client has registered for this client ID yet''"
| "registry_error_display show_uuid ConfigMismatch =
     ''follower config differs from main client '' @ [CHR 0xE2, CHR 0x80, CHR 0x94]
       @ '' followers cannot change config''"

definition registry_new :: client_registry where
  "registry_new = []"

definition from_persisted :: "client_registry \<Rightarrow> client_registry" where
  "from_persisted clients = clients"

definition registry_update ::
    "hash_env \<Rightarrow> timestamp \<Rightarrow> client_id \<Rightarrow> client_role \<Rightarrow> portage_config \<Rightarrow> system_identity
     \<Rightarrow> client_registry \<Rightarrow> (registry_error + config_diff) \<times> client_registry" where
  "registry_update env now cid role cfg sys clients =
     (let config_hash = hash_json (json_portage_config env) (sha256_hex env) cfg;
          system_hash = hash_json (json_system_identity env) (sha256_hex env) sys;
          stored = map_of clients cid;
          diff = (case stored of
             Some e \<Rightarrow> \<lparr> portage_changed = cs_config_hash e \<noteq> config_hash,
                         system_changed = cs_system_hash e \<noteq> system_hash \<rparr>
           | None \<Rightarrow> \<lparr> portage_changed = True, system_changed = True \<rparr>)
      in case Option.bind stored cs_active_workorder of
           Some active_id \<Rightarrow> (Inl (ActiveWorkorder active_id), clients)
         | None \<Rightarrow>
             if stored \<noteq> None \<and> role = Follower \<and> (portage_changed diff \<or> system_changed diff)
               then (Inl ConfigMismatch, clients)
             else if stored = None \<and> role = Follower then (Inl NoMainClient, clients)
             else (Inr diff,
               if role = Main
               then hm_insert cid \<lparr> cs_client_id = cid, cs_config_hash = config_hash,
                      cs_system_hash = system_hash, cs_last_seen = now,
                      cs_active_workorder = None \<rparr> clients
               else hm_modify cid (\<lambda>e. e\<lparr> cs_last_seen := now \<rparr>) clients))"

definition set_active_workorder ::
    "client_id \<Rightarrow> workorder_id \<Rightarrow> client_registry \<Rightarrow> client_registry" where
  "set_active_workorder cid w clients =
     hm_modify cid (\<lambda>e. e\<lparr> cs_active_workorder := Some w \<rparr>) clients"

definition clear_active_workorder :: "client_id \<Rightarrow> client_registry \<Rightarrow> client_registry" where
  "clear_active_workorder cid clients =
     hm_modify cid (\<lambda>e. e\<lparr> cs_active_workorder := None \<rparr>) clients"

definition registry_get :: "client_id \<Rightarrow> client_registry \<Rightarrow> client_state option" where
  "registry_get cid clients = map_of clients cid"

definition registry_list_all :: "client_registry \<Rightarrow> client_state list" where
  "registry_list_all clients = map snd clients"

definition registry_snapshot :: "client_registry \<Rightarrow> client_registry" where
  "registry_snapshot clients = clients"

section \<open>The marker of the active workorder\<close>

definition active_workorder :: "client_registry \<Rightarrow> client_id \<Rightarrow> workorder_id option" where
  "active_workorder clients cid = Option.bind (map_of clients cid) cs_active_workorder"

text \<open>The admission of a submission as its caller sees it: the update alone.\<close>

definition admit ::
    "hash_env \<Rightarrow> timestamp \<Rightarrow> client_id \<Rightarrow> client_role \<Rightarrow> portage_config \<Rightarrow> system_identity
     \<Rightarrow> client_registry \<Rightarrow> client_registry option" where
  "admit env now cid role cfg sys clients =
     (case registry_update env now cid role cfg sys clients of
        (Inl _, _) \<Rightarrow> None | (Inr _, clients') \<Rightarrow> Some clients')"

lemma active_set:
  "active_workorder (set_active_workorder cid w clients) c =
     (if c = cid \<and> map_of clients cid \<noteq> None then Some w else active_workorder clients c)"
  by (auto simp: active_workorder_def set_active_workorder_def split: option.splits)

lemma active_clear:
  "active_workorder (clear_active_workorder cid clients) c =
     (if c = cid then None else active_workorder clients c)"
  by (cases "map_of clients cid") (auto simp: active_workorder_def clear_active_workorder_def)

lemma map_of_set_active_None:
  "map_of (set_active_workorder cid w clients) c = None \<longleftrightarrow> map_of clients c = None"
  by (simp add: set_active_workorder_def)

lemma map_of_clear_active_None:
  "map_of (clear_active_workorder cid clients) c = None \<longleftrightarrow> map_of clients c = None"
  by (simp add: clear_active_workorder_def)

lemma registry_update_Inr:
  assumes "registry_update env now cid role cfg sys clients = (Inr diff, clients')"
  shows "active_workorder clients cid = None" "map_of clients' cid \<noteq> None"
    "active_workorder clients' c = active_workorder clients c"
    "c \<noteq> cid \<Longrightarrow> map_of clients' c = map_of clients c"
  using assms
  by (cases role; auto simp: registry_update_def active_workorder_def Let_def
      split: option.splits if_splits bind_splits)+

lemma registry_update_Inl:
  assumes "registry_update env now cid role cfg sys clients = (Inl e, clients')"
  shows "clients' = clients"
  using assms by (auto simp: registry_update_def Let_def split: option.splits if_splits)

lemma registry_update_active:
  "active_workorder clients cid = Some w \<Longrightarrow>
     registry_update env now cid role cfg sys clients = (Inl (ActiveWorkorder w), clients)"
  by (simp add: registry_update_def active_workorder_def Let_def)

lemma hm_wf_registry_update:
  "hm_wf clients \<Longrightarrow> hm_wf (snd (registry_update env now cid role cfg sys clients))"
  by (auto simp: registry_update_def Let_def hm_wf_insert hm_wf_modify split: option.splits)

text \<open>The contract the submission handler relies on: one slot per client, taken by
  \<open>mark\<close> after an admission, freed by \<open>release\<close>.\<close>

locale client_slots =
  fixes slot :: "'r \<Rightarrow> client_id \<Rightarrow> workorder_id option"
    and admits :: "client_id \<Rightarrow> 'r \<Rightarrow> 'r option"
    and mark :: "client_id \<Rightarrow> workorder_id \<Rightarrow> 'r \<Rightarrow> 'r"
    and release :: "client_id \<Rightarrow> 'r \<Rightarrow> 'r"
  assumes admits_free: "admits c r = Some r' \<Longrightarrow> slot r c = None"
    and admits_slots: "admits c r = Some r' \<Longrightarrow> slot r' = slot r"
    and mark_admitted: "admits c r = Some r' \<Longrightarrow> slot (mark c w r') = (slot r)(c := Some w)"
    and slot_release: "slot (release c r) = (slot r)(c := None)"
begin

lemma admitted_excludes:
  "admits c r = Some r' \<Longrightarrow> admits c (mark c w r') = None"
  by (metis admits_free fun_upd_same mark_admitted not_Some_eq option.distinct(1))

lemma release_of_other:
  "c \<noteq> d \<Longrightarrow> slot (release d (mark c w r)) c = slot (mark c w r) c"
  by (simp add: slot_release)

end

interpretation registry_slots: client_slots active_workorder
    "\<lambda>c r. admit env now c role cfg sys r" set_active_workorder clear_active_workorder
  for env now role cfg sys
proof unfold_locales
  fix c r r' w
  assume "admit env now c role cfg sys r = Some r'"
  then obtain diff where u: "registry_update env now c role cfg sys r = (Inr diff, r')"
    by (auto simp: admit_def split: prod.splits sum.splits)
  show "active_workorder r c = None" by (rule registry_update_Inr(1) [OF u])
  show "active_workorder r' = active_workorder r"
    using registry_update_Inr(3) [OF u] by blast
  show "active_workorder (set_active_workorder c w r') = (active_workorder r)(c := Some w)"
    using registry_update_Inr(2,3) [OF u] by (auto simp: active_set fun_eq_iff)
next
  fix c and r :: client_registry
  show "active_workorder (clear_active_workorder c r) = (active_workorder r)(c := None)"
    by (auto simp: active_clear fun_eq_iff)
qed

section \<open>Properties\<close>


text \<open>Only a main client decides the configuration of a client id: whatever a follower
  submits, accepted or refused, the hashes registered for every client stay as they were.\<close>

theorem follower_keeps_registered_config:
  "map_option (\<lambda>e. (cs_config_hash e, cs_system_hash e))
       (map_of (snd (registry_update env now cid Follower cfg sys clients)) c)
     = map_option (\<lambda>e. (cs_config_hash e, cs_system_hash e)) (map_of clients c)"
  by (auto simp: registry_update_def Let_def option.map_comp o_def split: option.splits)

text \<open>An accepted submission whose workorder is marked excludes every further submission of
  the same client id, whatever its role, configuration or time, with the error that names the
  workorder in progress; the slots of the other clients are not touched.\<close>

theorem one_submission_per_client:
  assumes "registry_update env now cid role cfg sys clients = (Inr diff, clients')"
  shows "registry_update env' now' cid role' cfg' sys' (set_active_workorder cid w clients')
      = (Inl (ActiveWorkorder w), set_active_workorder cid w clients')
    \<and> (\<forall>c. c \<noteq> cid \<longrightarrow>
        active_workorder (set_active_workorder cid w clients') c = active_workorder clients c)"
proof -
  have a: "admit env now cid role cfg sys clients = Some clients'"
    using assms by (simp add: admit_def)
  have "active_workorder (set_active_workorder cid w clients') = (active_workorder clients)(cid := Some w)"
    by (rule registry_slots.mark_admitted [OF a])
  then show ?thesis
    by (simp add: registry_update_active)
qed

theorem one_submission_per_client_witness:
  "let env = \<lparr> json_portage_config = (\<lambda>c. Some (pc_profile c)),
         json_system_identity = (\<lambda>s. Some (si_arch s)), sha256_hex = rev \<rparr>;
       clients' = snd (registry_update env 0 7 Main sample_portage_config sample_system_identity [])
   in registry_update env 5 7 Follower sample_portage_config sample_system_identity
        (set_active_workorder 7 42 clients')
      = (Inl (ActiveWorkorder 42), set_active_workorder 7 42 clients')"
proof -
  let ?env = "\<lparr> json_portage_config = (\<lambda>c. Some (pc_profile c)),
         json_system_identity = (\<lambda>s. Some (si_arch s)), sha256_hex = rev \<rparr>"
  show ?thesis
    unfolding Let_def
    by (rule conjunct1 [OF one_submission_per_client [where env = ?env and now = 0 and role = Main
        and diff = "\<lparr> portage_changed = True, system_changed = True \<rparr>" and clients = "[]"]])
      (simp add: registry_update_def Let_def)
qed

end
