(* ===== verification/Metrics.thy ===== *)
theory Metrics
  imports Remerge_Types
begin

text \<open>
  The server's counters and gauges (\<open>crates/server/src/metrics.rs\<close>).  Every
  \<open>AtomicU64\<close> is a 64-bit word, so \<open>fetch_add\<close> and \<open>fetch_sub\<close> wrap around as they
  do in the sources.  The per-package series are bounded; the text exposition is
  built line by line as \<open>to_prometheus\<close> does.
\<close>

definition MAX_PACKAGE_BUILD_METRIC_SERIES :: nat where
  "MAX_PACKAGE_BUILD_METRIC_SERIES = 128"

record package_build_metrics =
  pbm_builds_total :: u64
  pbm_duration_secs_total :: u64

record metrics =
  m_workorders_submitted :: u64
  m_workorders_completed :: u64
  m_workorders_failed :: u64
  m_workorders_cancelled :: u64
  m_builds_active :: u64
  m_builds_total_duration_secs :: u64
  m_queue_depth :: u64
  m_binpkg_disk_usage_bytes :: u64
  m_worker_image_builds_total :: u64
  m_worker_image_build_duration_secs_total :: u64
  m_worker_container_starts_total :: u64
  m_worker_container_startup_duration_secs_total :: u64
  m_cleanup_success_total :: u64
  m_cleanup_failure_total :: u64
  m_cleanup_reclaimed_bytes_total :: u64
  m_snapshot_missing_blob_queries_total :: u64
  m_snapshot_missing_blob_digests_total :: u64
  m_snapshot_missing_blob_digests_missing_total :: u64
  m_snapshot_blob_uploads_total :: u64
  m_snapshot_blob_upload_dedup_hits_total :: u64
  m_snapshot_blob_upload_bytes_total :: u64
  m_snapshot_blob_downloads_total :: u64
  m_snapshot_blob_download_bytes_total :: u64
  m_snapshot_runtime_stages_total :: u64
  m_snapshot_runtime_stage_bytes_total :: u64
  m_package_builds_total :: u64
  m_package_build_duration_secs_total :: u64
  m_package_builds_by_atom :: "(string, package_build_metrics) btree_map"

definition metrics_new :: metrics where
  "metrics_new =
     \<lparr> m_workorders_submitted = 0, m_workorders_completed = 0, m_workorders_failed = 0,
       m_workorders_cancelled = 0, m_builds_active = 0, m_builds_total_duration_secs = 0,
       m_queue_depth = 0, m_binpkg_disk_usage_bytes = 0, m_worker_image_builds_total = 0,
       m_worker_image_build_duration_secs_total = 0, m_worker_container_starts_total = 0,
       m_worker_container_startup_duration_secs_total = 0, m_cleanup_success_total = 0,
       m_cleanup_failure_total = 0, m_cleanup_reclaimed_bytes_total = 0,
       m_snapshot_missing_blob_queries_total = 0, m_snapshot_missing_blob_digests_total = 0,
       m_snapshot_missing_blob_digests_missing_total = 0, m_snapshot_blob_uploads_total = 0,
       m_snapshot_blob_upload_dedup_hits_total = 0, m_snapshot_blob_upload_bytes_total = 0,
       m_snapshot_blob_downloads_total = 0, m_snapshot_blob_download_bytes_total = 0,
       m_snapshot_runtime_stages_total = 0, m_snapshot_runtime_stage_bytes_total = 0,
       m_package_builds_total = 0, m_package_build_duration_secs_total = 0,
       m_package_builds_by_atom = [] \<rparr>"

section \<open>Recording\<close>

definition record_worker_image_build :: "u64 \<Rightarrow> metrics \<Rightarrow> metrics" where
  "record_worker_image_build duration_secs m =
     m\<lparr> m_worker_image_builds_total := m_worker_image_builds_total m + 1,
        m_worker_image_build_duration_secs_total :=
          m_worker_image_build_duration_secs_total m + duration_secs \<rparr>"

definition record_worker_container_start :: "u64 \<Rightarrow> metrics \<Rightarrow> metrics" where
  "record_worker_container_start duration_secs m =
     m\<lparr> m_worker_container_starts_total := m_worker_container_starts_total m + 1,
        m_worker_container_startup_duration_secs_total :=
          m_worker_container_startup_duration_secs_total m + duration_secs \<rparr>"

definition record_cleanup :: "bool \<Rightarrow> metrics \<Rightarrow> metrics" where
  "record_cleanup success m =
     (if success then m\<lparr> m_cleanup_success_total := m_cleanup_success_total m + 1 \<rparr>
      else m\<lparr> m_cleanup_failure_total := m_cleanup_failure_total m + 1 \<rparr>)"

definition record_cleanup_reclaimed_bytes :: "u64 \<Rightarrow> metrics \<Rightarrow> metrics" where
  "record_cleanup_reclaimed_bytes reclaimed_bytes m =
     m\<lparr> m_cleanup_reclaimed_bytes_total := m_cleanup_reclaimed_bytes_total m + reclaimed_bytes \<rparr>"

definition record_snapshot_missing_blob_query :: "nat \<Rightarrow> nat \<Rightarrow> metrics \<Rightarrow> metrics" where
  "record_snapshot_missing_blob_query digest_count missing_count m =
     m\<lparr> m_snapshot_missing_blob_queries_total := m_snapshot_missing_blob_queries_total m + 1,
        m_snapshot_missing_blob_digests_total :=
          m_snapshot_missing_blob_digests_total m + word_of_nat digest_count,
        m_snapshot_missing_blob_digests_missing_total :=
          m_snapshot_missing_blob_digests_missing_total m + word_of_nat missing_count \<rparr>"

definition record_snapshot_blob_upload :: "u64 \<Rightarrow> bool \<Rightarrow> metrics \<Rightarrow> metrics" where
  "record_snapshot_blob_upload raw_size_bytes uploaded m =
     (let m' = m\<lparr> m_snapshot_blob_uploads_total := m_snapshot_blob_uploads_total m + 1,
                  m_snapshot_blob_upload_bytes_total :=
                    m_snapshot_blob_upload_bytes_total m + raw_size_bytes \<rparr>
      in if uploaded then m'
         else m'\<lparr> m_snapshot_blob_upload_dedup_hits_total :=
                    m_snapshot_blob_upload_dedup_hits_total m' + 1 \<rparr>)"

definition record_snapshot_blob_download :: "u64 \<Rightarrow> metrics \<Rightarrow> metrics" where
  "record_snapshot_blob_download served_bytes m =
     m\<lparr> m_snapshot_blob_downloads_total := m_snapshot_blob_downloads_total m + 1,
        m_snapshot_blob_download_bytes_total :=
          m_snapshot_blob_download_bytes_total m + served_bytes \<rparr>"

definition record_snapshot_runtime_stage :: "u64 \<Rightarrow> metrics \<Rightarrow> metrics" where
  "record_snapshot_runtime_stage materialized_bytes m =
     m\<lparr> m_snapshot_runtime_stages_total := m_snapshot_runtime_stages_total m + 1,
        m_snapshot_runtime_stage_bytes_total :=
          m_snapshot_runtime_stage_bytes_total m + materialized_bytes \<rparr>"

definition record_package_build :: "string \<Rightarrow> u64 \<Rightarrow> metrics \<Rightarrow> metrics" where
  "record_package_build atom duration_secs m =
     (let m' = m\<lparr> m_package_builds_total := m_package_builds_total m + 1,
                  m_package_build_duration_secs_total :=
                    m_package_build_duration_secs_total m + duration_secs \<rparr>;
          by_atom = m_package_builds_by_atom m'
      in if map_of by_atom atom = None \<and> length by_atom \<ge> MAX_PACKAGE_BUILD_METRIC_SERIES then m'
         else
           let entry = unwrap_or \<lparr> pbm_builds_total = 0, pbm_duration_secs_total = 0 \<rparr>
                         (map_of by_atom atom)
           in m'\<lparr> m_package_builds_by_atom := bm_insert atom
                  \<lparr> pbm_builds_total = pbm_builds_total entry + 1,
                    pbm_duration_secs_total = pbm_duration_secs_total entry + duration_secs \<rparr>
                  by_atom \<rparr>)"

section \<open>Text exposition\<close>

text \<open>\<open>str::replace\<close> of one character by a string.\<close>

definition replace_char :: "char \<Rightarrow> string \<Rightarrow> string \<Rightarrow> string" where
  "replace_char c r s = concat (map (\<lambda>d. if d = c then r else [d]) s)"

definition prometheus_escape_label_value :: "string \<Rightarrow> string" where
  "prometheus_escape_label_value v =
     replace_char CHR 0x22 [CHR 0x5C, CHR 0x22]
       (replace_char CHR 0x0A [CHR 0x5C, CHR ''n'']
         (replace_char CHR 0x5C [CHR 0x5C, CHR 0x5C] v))"

definition write_counter :: "string \<Rightarrow> string \<Rightarrow> u64 \<Rightarrow> string" where
  "write_counter name help v =
     ''# HELP '' @ name @ '' '' @ help @ [newline] @
     ''# TYPE '' @ name @ '' counter'' @ [newline] @
     name @ '' '' @ show_nat (unat v) @ [newline, newline]"

definition write_gauge :: "string \<Rightarrow> string \<Rightarrow> u64 \<Rightarrow> string" where
  "write_gauge name help v =
     ''# HELP '' @ name @ '' '' @ help @ [newline] @
     ''# TYPE '' @ name @ '' gauge'' @ [newline] @
     name @ '' '' @ show_nat (unat v) @ [newline, newline]"

definition prometheus_head :: "metrics \<Rightarrow> string" where
  "prometheus_head m =
     write_counter ''remerge_workorders_submitted_total'' ''Total number of workorders submitted.''
       (m_workorders_submitted m) @
     write_counter ''remerge_workorders_completed_total''
       ''Total number of workorders completed successfully.'' (m_workorders_completed m) @
     write_counter ''remerge_workorders_failed_total'' ''Total number of workorders that failed.''
       (m_workorders_failed m) @
     write_counter ''remerge_workorders_cancelled_total'' ''Total number of workorders cancelled.''
       (m_workorders_cancelled m) @
     write_gauge ''remerge_builds_active'' ''Number of builds currently in progress.''
       (m_builds_active m) @
     write_counter ''remerge_builds_duration_seconds_total''
       ''Total cumulative build duration in seconds.'' (m_builds_total_duration_secs m) @
     write_gauge ''remerge_queue_depth'' ''Number of workorders waiting in the queue.''
       (m_queue_depth m) @
     write_gauge ''remerge_binpkg_disk_usage_bytes''
       ''Total size of the binpkg repository in bytes.'' (m_binpkg_disk_usage_bytes m) @
     write_counter ''remerge_worker_image_builds_total''
       ''Total number of worker image build attempts.'' (m_worker_image_builds_total m) @
     write_counter ''remerge_worker_image_build_duration_seconds_total''
       ''Total cumulative worker image build duration in seconds.''
       (m_worker_image_build_duration_secs_total m) @
     write_counter ''remerge_worker_container_starts_total''
       ''Total number of worker container start attempts.'' (m_worker_container_starts_total m) @
     write_counter ''remerge_worker_container_startup_duration_seconds_total''
       ''Total cumulative worker container startup duration in seconds.''
       (m_worker_container_startup_duration_secs_total m) @
     write_counter ''remerge_cleanup_success_total''
       ''Total successful worker runtime cleanup operations.'' (m_cleanup_success_total m) @
     write_counter ''remerge_cleanup_failure_total''
       ''Total failed worker runtime cleanup operations.'' (m_cleanup_failure_total m) @
     write_counter ''remerge_cleanup_reclaimed_bytes_total''
       ''Total snapshot cache bytes reclaimed by cleanup.'' (m_cleanup_reclaimed_bytes_total m)"

definition prometheus_snapshots :: "metrics \<Rightarrow> string" where
  "prometheus_snapshots m =
     write_counter ''remerge_snapshot_missing_blob_queries_total''
       ''Total snapshot missing-blob discovery requests.''
       (m_snapshot_missing_blob_queries_total m) @
     write_counter ''remerge_snapshot_missing_blob_digests_total''
       ''Total digests examined by snapshot missing-blob discovery.''
       (m_snapshot_missing_blob_digests_total m) @
     write_counter ''remerge_snapshot_missing_blob_digests_missing_total''
       ''Total digests reported missing by snapshot missing-blob discovery.''
       (m_snapshot_missing_blob_digests_missing_total m) @
     write_counter ''remerge_snapshot_blob_uploads_total''
       ''Total snapshot blob upload requests accepted by the server.''
       (m_snapshot_blob_uploads_total m) @
     write_counter ''remerge_snapshot_blob_upload_dedup_hits_total''
       ''Snapshot blob upload requests that reused an already stored canonical blob.''
       (m_snapshot_blob_upload_dedup_hits_total m) @
     write_counter ''remerge_snapshot_blob_upload_bytes_total''
       ''Total raw snapshot blob bytes accepted by the server.''
       (m_snapshot_blob_upload_bytes_total m) @
     write_counter ''remerge_snapshot_blob_downloads_total''
       ''Total snapshot blob download responses served.'' (m_snapshot_blob_downloads_total m) @
     write_counter ''remerge_snapshot_blob_download_bytes_total''
       ''Total snapshot blob bytes served to clients.''
       (m_snapshot_blob_download_bytes_total m) @
     write_counter ''remerge_snapshot_runtime_stages_total''
       ''Total snapshot runtime staging passes completed successfully.''
       (m_snapshot_runtime_stages_total m) @
     write_counter ''remerge_snapshot_runtime_stage_bytes_total''
       ''Total bytes materialized while staging snapshot runtimes.''
       (m_snapshot_runtime_stage_bytes_total m) @
     write_counter ''remerge_package_builds_total''
       ''Total best-effort package build completions detected from emerge output.''
       (m_package_builds_total m) @
     write_counter ''remerge_package_build_duration_seconds_total''
       ''Total cumulative best-effort package build duration in seconds.''
       (m_package_build_duration_secs_total m)"

definition prometheus_atom_series :: "string \<times> package_build_metrics \<Rightarrow> string" where
  "prometheus_atom_series p =
     (let atom = prometheus_escape_label_value (fst p) in
      ''remerge_package_builds_by_atom_total{atom='' @ [CHR 0x22] @ atom @ [CHR 0x22] @ ''} '' @
      show_nat (unat (pbm_builds_total (snd p))) @ [newline] @
      ''remerge_package_build_duration_seconds_by_atom_total{atom='' @ [CHR 0x22] @ atom @
      [CHR 0x22] @ ''} '' @ show_nat (unat (pbm_duration_secs_total (snd p))) @ [newline])"

definition prometheus_by_atom :: "metrics \<Rightarrow> string" where
  "prometheus_by_atom m =
     ''# HELP remerge_package_builds_by_atom_total Best-effort package build completions grouped by atom.''
       @ [newline] @
     ''# TYPE remerge_package_builds_by_atom_total counter'' @ [newline] @
     ''# HELP remerge_package_build_duration_seconds_by_atom_total Best-effort package build duration grouped by atom.''
       @ [newline] @
     ''# TYPE remerge_package_build_duration_seconds_by_atom_total counter'' @ [newline] @
     concat (map prometheus_atom_series (m_package_builds_by_atom m)) @ [newline]"

definition to_prometheus :: "metrics \<Rightarrow> string" where
  "to_prometheus m = prometheus_head m @ prometheus_snapshots m @ prometheus_by_atom m"

section \<open>The bounded per-package series\<close>

definition metrics_wf :: "metrics \<Rightarrow> bool" where
  "metrics_wf m \<longleftrightarrow> bm_wf (m_package_builds_by_atom m)
     \<and> length (m_package_builds_by_atom m) \<le> MAX_PACKAGE_BUILD_METRIC_SERIES"

lemma bm_insert_length_new: "map_of m k = None \<Longrightarrow> length (bm_insert k v m) = Suc (length m)"
  by (induction k v m rule: bm_insert.induct) (auto split: if_splits)

lemma bm_insert_length_old:
  "bm_wf m \<Longrightarrow> map_of m k \<noteq> None \<Longrightarrow> length (bm_insert k v m) = length m"
proof (induction k v m rule: bm_insert.induct)
  case (2 k v a b m)
  have "map_of m k = None" if "k < a"
    using 2(2) that by (auto simp: bm_wf_def map_of_eq_None_iff dest: less_asym)
  with 2 show ?case by (auto simp: bm_wf_def split: if_splits)
qed simp

lemma escape_chars:
  "c \<in> set (prometheus_escape_label_value v) \<Longrightarrow> c \<noteq> CHR 0x0A"
  by (auto simp: prometheus_escape_label_value_def replace_char_def split: if_splits)

section \<open>Properties\<close>

text \<open>Recording package builds keeps the exposition bounded: from any well-formed metrics
  the number of per-package series stays at most 128 over any sequence of builds, while the
  totals count every build (modulo the width of the counter).\<close>

theorem record_package_build_bounded:
  assumes "metrics_wf m"
  shows "metrics_wf (fold (\<lambda>(a, d). record_package_build a d) builds m)
    \<and> m_package_builds_total (fold (\<lambda>(a, d). record_package_build a d) builds m)
        = m_package_builds_total m + word_of_nat (length builds)"
  using assms
proof (induction builds arbitrary: m)
  case (Cons b builds)
  obtain a d where b: "b = (a, d)" by (cases b)
  have wf: "metrics_wf (record_package_build a d m)"
  proof (cases "map_of (m_package_builds_by_atom m) a")
    case None
    then show ?thesis
      using Cons.prems
      by (auto simp: metrics_wf_def record_package_build_def Let_def bm_wf_insert bm_insert_length_new)
  next
    case (Some e)
    then show ?thesis
      using Cons.prems
      by (auto simp: metrics_wf_def record_package_build_def Let_def bm_wf_insert bm_insert_length_old)
  qed
  have "m_package_builds_total (record_package_build a d m) = m_package_builds_total m + 1"
    by (simp add: record_package_build_def Let_def)
  then show ?case
    using Cons.IH [OF wf] by (simp add: b)
qed simp

theorem record_package_build_bounded_witness:
  "metrics_wf metrics_new
   \<and> metrics_wf (fold (\<lambda>(a, d). record_package_build a d) [(''dev-libs/a'', 3), (''dev-libs/b'', 4)] metrics_new)"
proof -
  have wf: "metrics_wf metrics_new" by code_simp
  show ?thesis by (rule conjI [OF wf conjunct1 [OF record_package_build_bounded [OF wf]]])
qed

end
