(* ===== verification/Server_Config.thy ===== *)
theory Server_Config
  imports Auth
begin

text \<open>
  The server configuration (\<open>crates/server/src/config.rs\<close>): the defaults, the
  overrides read from the environment, and the validation that resets unusable
  values.  The TOML parser is code of the crate \<open>toml\<close>; it, the environment and
  the file system are fields of \<open>config_host\<close>.  A \<open>usize\<close> or \<open>u64\<close> is a natural
  number, and a value outside its range does not parse; an \<open>f32\<close> is its bit
  pattern, read by a field of \<open>config_host\<close>.
\<close>

section \<open>Configuration\<close>

record signing_config =
  sg_gpg_key :: "string option"
  sg_gpg_home :: "string option"

definition signing_enabled :: "signing_config \<Rightarrow> bool" where
  "signing_enabled s \<longleftrightarrow> sg_gpg_key s \<noteq> None \<and> sg_gpg_home s \<noteq> None"

record tls_config =
  tls_cert :: string
  tls_key :: string

record server_config =
  sc_binpkg_dir :: string
  sc_binhost_url :: string
  sc_docker_socket :: string
  sc_worker_image_prefix :: string
  sc_max_workers :: nat
  sc_max_active_workorders :: nat
  sc_request_body_size_bytes :: nat
  sc_build_timeout_secs :: nat
  sc_worker_idle_timeout :: nat
  sc_worker_memory_bytes :: int
  sc_worker_cpu_shares :: int
  sc_worker_network_mode :: string
  sc_worker_binpkg_mount :: string
  sc_auth :: auth_config
  sc_signing :: signing_config
  sc_parallel_jobs :: "nat option"
  sc_load_average :: "32 word option"
  sc_tls :: "tls_config option"
  sc_state_dir :: string
  sc_retention_hours :: nat
  sc_worker_binary :: "string option"
  sc_max_retained_workorders :: nat
  sc_log_json :: bool
  sc_repos_dir :: "string option"
  sc_binpkg_disk_warn_bytes :: nat
  sc_worker_base_image :: "string option"
  sc_skip_worker_sync :: bool
  sc_snapshot_cache_grace_period_hours :: nat
  sc_snapshot_cache_hard_delete_hours :: nat
  sc_snapshot_min_retained_bytes :: nat

definition default_request_body_size_bytes :: nat where
  "default_request_body_size_bytes = 2 * 1024 * 1024"

definition default_worker_memory_bytes :: int where
  "default_worker_memory_bytes = 4 * 1024 * 1024 * 1024"

definition default_worker_cpu_shares :: int where
  "default_worker_cpu_shares = 1024"

definition default_worker_network_mode :: string where
  "default_worker_network_mode = ''bridge''"

definition default_snapshot_cache_grace_period_hours :: nat where
  "default_snapshot_cache_grace_period_hours = 7 * 24"

definition default_snapshot_cache_hard_delete_hours :: nat where
  "default_snapshot_cache_hard_delete_hours = 30 * 24"

definition server_config_default :: server_config where
  "server_config_default =
     \<lparr> sc_binpkg_dir = ''/var/cache/remerge/binpkgs'',
       sc_binhost_url = ''http://localhost:7654/binpkgs'',
       sc_docker_socket = ''unix:///var/run/docker.sock'',
       sc_worker_image_prefix = ''remerge-worker'',
       sc_max_workers = 4,
       sc_max_active_workorders = 256,
       sc_request_body_size_bytes = default_request_body_size_bytes,
       sc_build_timeout_secs = 4 * 60 * 60,
       sc_worker_idle_timeout = 3600,
       sc_worker_memory_bytes = default_worker_memory_bytes,
       sc_worker_cpu_shares = default_worker_cpu_shares,
       sc_worker_network_mode = default_worker_network_mode,
       sc_worker_binpkg_mount = ''/var/cache/binpkgs'',
       sc_auth = auth_config_default,
       sc_signing = \<lparr> sg_gpg_key = None, sg_gpg_home = None \<rparr>,
       sc_parallel_jobs = None,
       sc_load_average = None,
       sc_tls = None,
       sc_state_dir = ''/var/lib/remerge'',
       sc_retention_hours = 24,
       sc_worker_binary = None,
       sc_max_retained_workorders = 1000,
       sc_log_json = False,
       sc_repos_dir = None,
       sc_binpkg_disk_warn_bytes = 10 * 1024 * 1024 * 1024,
       sc_worker_base_image = None,
       sc_skip_worker_sync = False,
       sc_snapshot_cache_grace_period_hours = default_snapshot_cache_grace_period_hours,
       sc_snapshot_cache_hard_delete_hours = default_snapshot_cache_hard_delete_hours,
       sc_snapshot_min_retained_bytes = 10 * 1024 * 1024 * 1024 \<rparr>"

text \<open>What the loader reads of its host: the environment, files, and the parsers of TOML
  and of \<open>f32\<close>.\<close>

record config_host =
  ho_env :: "string \<Rightarrow> string option"
  ho_read_to_string :: "string \<Rightarrow> string option"
  ho_exists :: "string \<Rightarrow> bool"
  ho_is_dir :: "string \<Rightarrow> bool"
  ho_is_file :: "string \<Rightarrow> bool"
  ho_current_exe :: "string option"
  ho_parse_toml :: "string \<Rightarrow> string + server_config"
  ho_parse_f32 :: "string \<Rightarrow> 32 word option"

section \<open>Validation\<close>

text \<open>One \<open>if\<close> of the validator: warn and reset.\<close>

definition reset_if ::
    "(server_config \<Rightarrow> bool) \<Rightarrow> (server_config \<Rightarrow> server_config) \<Rightarrow> server_config \<Rightarrow> server_config" where
  "reset_if bad fix_up c = (if bad c then fix_up c else c)"

definition validate_repos_dir :: "config_host \<Rightarrow> server_config \<Rightarrow> server_config" where
  "validate_repos_dir h =
     reset_if (\<lambda>c. case sc_repos_dir c of None \<Rightarrow> False
        | Some path \<Rightarrow> \<not> ho_exists h path \<or> \<not> ho_is_dir h path)
       (\<lambda>c. c\<lparr> sc_repos_dir := None \<rparr>)"

definition config_validate :: "config_host \<Rightarrow> server_config \<Rightarrow> server_config" where
  "config_validate h c =
     fold id
       [reset_if (\<lambda>c. sc_request_body_size_bytes c = 0)
          (\<lambda>c. c\<lparr> sc_request_body_size_bytes := default_request_body_size_bytes \<rparr>),
        reset_if (\<lambda>c. sc_worker_memory_bytes c \<le> 0)
          (\<lambda>c. c\<lparr> sc_worker_memory_bytes := default_worker_memory_bytes \<rparr>),
        reset_if (\<lambda>c. sc_worker_cpu_shares c \<le> 0)
          (\<lambda>c. c\<lparr> sc_worker_cpu_shares := default_worker_cpu_shares \<rparr>),
        reset_if (\<lambda>c. trim (sc_worker_network_mode c) = [])
          (\<lambda>c. c\<lparr> sc_worker_network_mode := default_worker_network_mode \<rparr>),
        reset_if (\<lambda>c. sc_snapshot_cache_grace_period_hours c = 0)
          (\<lambda>c. c\<lparr> sc_snapshot_cache_grace_period_hours := default_snapshot_cache_grace_period_hours \<rparr>),
        reset_if (\<lambda>c. sc_snapshot_cache_hard_delete_hours c = 0)
          (\<lambda>c. c\<lparr> sc_snapshot_cache_hard_delete_hours := default_snapshot_cache_hard_delete_hours \<rparr>),
        reset_if (\<lambda>c. sc_snapshot_cache_hard_delete_hours c < sc_snapshot_cache_grace_period_hours c)
          (\<lambda>c. c\<lparr> sc_snapshot_cache_hard_delete_hours := default_snapshot_cache_hard_delete_hours \<rparr>),
        validate_repos_dir h] c"

section \<open>Loading\<close>

text \<open>\<open>str::parse\<close> into \<open>i64\<close>: an optional sign and digits within the range.\<close>

definition parse_i64 :: "string \<Rightarrow> int option" where
  "parse_i64 s =
     (case strip_prefix ''-'' s of
        Some ds \<Rightarrow> (if ds = [] \<or> \<not> list_all is_digit ds \<or> digits_value ds > 2 ^ 63 then None
                    else Some (- int (digits_value ds)))
      | None \<Rightarrow> map_option int (parse_unsigned (2 ^ 63 - 1) s))"

definition parse_u64 :: "string \<Rightarrow> nat option" where
  "parse_u64 s = parse_unsigned (2 ^ 64 - 1) s"

definition parse_u32 :: "string \<Rightarrow> nat option" where
  "parse_u32 s = parse_unsigned (2 ^ 32 - 1) s"

text \<open>\<open>if let Ok(v) = var(name)\<close>, and the same with \<open>&& let Ok(n) = v.parse()\<close>.\<close>

definition with_var ::
    "config_host \<Rightarrow> string \<Rightarrow> (string \<Rightarrow> server_config \<Rightarrow> server_config) \<Rightarrow> server_config \<Rightarrow> server_config" where
  "with_var h name f c = (case ho_env h name of None \<Rightarrow> c | Some v \<Rightarrow> f v c)"

definition with_parsed ::
    "config_host \<Rightarrow> string \<Rightarrow> (string \<Rightarrow> 'a option) \<Rightarrow> ('a \<Rightarrow> server_config \<Rightarrow> server_config)
     \<Rightarrow> server_config \<Rightarrow> server_config" where
  "with_parsed h name parse f c =
     (case Option.bind (ho_env h name) parse of None \<Rightarrow> c | Some n \<Rightarrow> f n c)"

definition is_true :: "string \<Rightarrow> bool" where
  "is_true v \<longleftrightarrow> v = ''1'' \<or> eq_ignore_ascii_case v ''true''"

definition parse_ok :: "string + 'a \<Rightarrow> 'a option" where
  "parse_ok r = (case r of Inl _ \<Rightarrow> None | Inr x \<Rightarrow> Some x)"

text \<open>\<open>Path::with_file_name\<close> on a path of components separated by slashes.\<close>

definition with_file_name :: "string \<Rightarrow> string \<Rightarrow> string" where
  "with_file_name path name =
     (case rsplit_once CHR ''/'' path of None \<Rightarrow> name | Some (dir, _) \<Rightarrow> dir @ ''/'' @ name)"

definition env_overrides_1 :: "config_host \<Rightarrow> server_config \<Rightarrow> server_config" where
  "env_overrides_1 h c =
     fold id
       [with_var h ''REMERGE_BINPKG_DIR'' (\<lambda>v c. c\<lparr> sc_binpkg_dir := v \<rparr>),
        with_var h ''REMERGE_BINHOST_URL'' (\<lambda>v c. c\<lparr> sc_binhost_url := v \<rparr>),
        with_var h ''REMERGE_DOCKER_SOCKET'' (\<lambda>v c. c\<lparr> sc_docker_socket := v \<rparr>),
        with_var h ''REMERGE_WORKER_IMAGE_PREFIX'' (\<lambda>v c. c\<lparr> sc_worker_image_prefix := v \<rparr>),
        with_parsed h ''REMERGE_MAX_WORKERS'' parse_u64 (\<lambda>n c. c\<lparr> sc_max_workers := n \<rparr>),
        with_parsed h ''REMERGE_MAX_ACTIVE_WORKORDERS'' parse_u64
          (\<lambda>n c. c\<lparr> sc_max_active_workorders := n \<rparr>),
        with_parsed h ''REMERGE_REQUEST_BODY_SIZE_BYTES'' parse_u64
          (\<lambda>n c. c\<lparr> sc_request_body_size_bytes := n \<rparr>),
        with_parsed h ''REMERGE_BUILD_TIMEOUT_SECS'' parse_u64
          (\<lambda>n c. c\<lparr> sc_build_timeout_secs := n \<rparr>),
        with_parsed h ''REMERGE_WORKER_IDLE_TIMEOUT'' parse_u64
          (\<lambda>n c. c\<lparr> sc_worker_idle_timeout := n \<rparr>),
        with_parsed h ''REMERGE_WORKER_MEMORY_BYTES'' parse_i64
          (\<lambda>n c. c\<lparr> sc_worker_memory_bytes := n \<rparr>),
        with_parsed h ''REMERGE_WORKER_CPU_SHARES'' parse_i64
          (\<lambda>n c. c\<lparr> sc_worker_cpu_shares := n \<rparr>),
        with_var h ''REMERGE_WORKER_NETWORK_MODE'' (\<lambda>v c. c\<lparr> sc_worker_network_mode := v \<rparr>),
        with_var h ''REMERGE_WORKER_BINPKG_MOUNT'' (\<lambda>v c. c\<lparr> sc_worker_binpkg_mount := v \<rparr>),
        with_parsed h ''REMERGE_AUTH_MODE'' (\<lambda>v. parse_ok (auth_mode_from_str v))
          (\<lambda>m c. c\<lparr> sc_auth := (sc_auth c)\<lparr> ac_mode := m \<rparr> \<rparr>),
        with_var h ''REMERGE_AUTH_CERT_HEADER''
          (\<lambda>v c. c\<lparr> sc_auth := (sc_auth c)\<lparr> ac_cert_header := v \<rparr> \<rparr>),
        with_var h ''REMERGE_GPG_KEY''
          (\<lambda>v c. c\<lparr> sc_signing := (sc_signing c)\<lparr> sg_gpg_key := Some v \<rparr> \<rparr>),
        with_var h ''REMERGE_GPG_HOME''
          (\<lambda>v c. c\<lparr> sc_signing := (sc_signing c)\<lparr> sg_gpg_home := Some v \<rparr> \<rparr>),
        with_parsed h ''REMERGE_PARALLEL_JOBS'' parse_u32 (\<lambda>n c. c\<lparr> sc_parallel_jobs := Some n \<rparr>),
        with_parsed h ''REMERGE_LOAD_AVERAGE'' (ho_parse_f32 h)
          (\<lambda>n c. c\<lparr> sc_load_average := Some n \<rparr>),
        with_var h ''REMERGE_STATE_DIR'' (\<lambda>v c. c\<lparr> sc_state_dir := v \<rparr>),
        with_parsed h ''REMERGE_RETENTION_HOURS'' parse_u64 (\<lambda>n c. c\<lparr> sc_retention_hours := n \<rparr>),
        with_var h ''REMERGE_WORKER_BINARY'' (\<lambda>v c. c\<lparr> sc_worker_binary := Some v \<rparr>)] c"

definition discover_worker_binary :: "config_host \<Rightarrow> server_config \<Rightarrow> server_config" where
  "discover_worker_binary h c =
     (if sc_worker_binary c = None
      then case ho_current_exe h of
             None \<Rightarrow> c
           | Some exe \<Rightarrow>
               (let sibling = with_file_name exe ''remerge-worker'' in
                if ho_is_file h sibling then c\<lparr> sc_worker_binary := Some sibling \<rparr> else c)
      else c)"

definition env_overrides_2 :: "config_host \<Rightarrow> server_config \<Rightarrow> server_config" where
  "env_overrides_2 h c =
     fold id
       [with_parsed h ''REMERGE_MAX_RETAINED_WORKORDERS'' parse_u64
          (\<lambda>n c. c\<lparr> sc_max_retained_workorders := n \<rparr>),
        with_var h ''REMERGE_LOG_JSON'' (\<lambda>v c. c\<lparr> sc_log_json := is_true v \<rparr>),
        with_var h ''REMERGE_REPOS_DIR'' (\<lambda>v c. c\<lparr> sc_repos_dir := Some v \<rparr>),
        with_parsed h ''REMERGE_BINPKG_DISK_WARN_BYTES'' parse_u64
          (\<lambda>n c. c\<lparr> sc_binpkg_disk_warn_bytes := n \<rparr>),
        with_var h ''REMERGE_WORKER_BASE_IMAGE'' (\<lambda>v c. c\<lparr> sc_worker_base_image := Some v \<rparr>),
        with_var h ''REMERGE_SKIP_WORKER_SYNC'' (\<lambda>v c. c\<lparr> sc_skip_worker_sync := is_true v \<rparr>),
        with_parsed h ''REMERGE_SNAPSHOT_CACHE_GRACE_PERIOD_HOURS'' parse_u64
          (\<lambda>n c. c\<lparr> sc_snapshot_cache_grace_period_hours := n \<rparr>),
        with_parsed h ''REMERGE_SNAPSHOT_CACHE_HARD_DELETE_HOURS'' parse_u64
          (\<lambda>n c. c\<lparr> sc_snapshot_cache_hard_delete_hours := n \<rparr>),
        with_parsed h ''REMERGE_SNAPSHOT_MIN_RETAINED_BYTES'' parse_u64
          (\<lambda>n c. c\<lparr> sc_snapshot_min_retained_bytes := n \<rparr>)] c"

definition config_load :: "config_host \<Rightarrow> string \<Rightarrow> string + server_config" where
  "config_load h path =
     rbind (case ho_read_to_string h path of
              Some content \<Rightarrow> ho_parse_toml h content
            | None \<Rightarrow> Inr server_config_default)
       (\<lambda>c. Inr (config_validate h
              (env_overrides_2 h (discover_worker_binary h (env_overrides_1 h c)))))"

section \<open>What validation establishes\<close>

text \<open>The values the validator is there to rule out.\<close>

definition config_usable :: "config_host \<Rightarrow> server_config \<Rightarrow> bool" where
  "config_usable h c \<longleftrightarrow> 0 < sc_request_body_size_bytes c \<and> 0 < sc_worker_memory_bytes c
     \<and> 0 < sc_worker_cpu_shares c \<and> trim (sc_worker_network_mode c) \<noteq> []
     \<and> 0 < sc_snapshot_cache_grace_period_hours c \<and> 0 < sc_snapshot_cache_hard_delete_hours c
     \<and> (case sc_repos_dir c of None \<Rightarrow> True | Some p \<Rightarrow> ho_exists h p \<and> ho_is_dir h p)"

lemmas config_defaults = default_request_body_size_bytes_def default_worker_memory_bytes_def
  default_worker_cpu_shares_def default_worker_network_mode_def
  default_snapshot_cache_grace_period_hours_def default_snapshot_cache_hard_delete_hours_def

lemma trim_bridge: "trim ''bridge'' = ''bridge''"
  by code_simp

text \<open>The fields of a reset, one lemma per field validation reads or writes.\<close>

lemma reset_if_fields:
  "sc_request_body_size_bytes (reset_if P f c)
     = (if P c then sc_request_body_size_bytes (f c) else sc_request_body_size_bytes c)"
  "sc_worker_memory_bytes (reset_if P f c)
     = (if P c then sc_worker_memory_bytes (f c) else sc_worker_memory_bytes c)"
  "sc_worker_cpu_shares (reset_if P f c)
     = (if P c then sc_worker_cpu_shares (f c) else sc_worker_cpu_shares c)"
  "sc_worker_network_mode (reset_if P f c)
     = (if P c then sc_worker_network_mode (f c) else sc_worker_network_mode c)"
  "sc_snapshot_cache_grace_period_hours (reset_if P f c)
     = (if P c then sc_snapshot_cache_grace_period_hours (f c) else sc_snapshot_cache_grace_period_hours c)"
  "sc_snapshot_cache_hard_delete_hours (reset_if P f c)
     = (if P c then sc_snapshot_cache_hard_delete_hours (f c) else sc_snapshot_cache_hard_delete_hours c)"
  "sc_repos_dir (reset_if P f c) = (if P c then sc_repos_dir (f c) else sc_repos_dir c)"
  by (simp_all add: reset_if_def)

lemma config_validate_fields:
  "sc_request_body_size_bytes (config_validate h c)
     = (if sc_request_body_size_bytes c = 0 then default_request_body_size_bytes
        else sc_request_body_size_bytes c)"
  "sc_worker_memory_bytes (config_validate h c)
     = (if sc_worker_memory_bytes c \<le> 0 then default_worker_memory_bytes else sc_worker_memory_bytes c)"
  "sc_worker_cpu_shares (config_validate h c)
     = (if sc_worker_cpu_shares c \<le> 0 then default_worker_cpu_shares else sc_worker_cpu_shares c)"
  "sc_worker_network_mode (config_validate h c)
     = (if trim (sc_worker_network_mode c) = [] then default_worker_network_mode
        else sc_worker_network_mode c)"
  "sc_snapshot_cache_grace_period_hours (config_validate h c)
     = (if sc_snapshot_cache_grace_period_hours c = 0 then default_snapshot_cache_grace_period_hours
        else sc_snapshot_cache_grace_period_hours c)"
  by (simp_all add: config_validate_def validate_repos_dir_def reset_if_fields)

lemma config_validate_hard_delete: "0 < sc_snapshot_cache_hard_delete_hours (config_validate h c)"
  by (simp add: config_validate_def validate_repos_dir_def reset_if_fields config_defaults)

lemma config_validate_repos_dir:
  "case sc_repos_dir (config_validate h c) of None \<Rightarrow> True | Some p \<Rightarrow> ho_exists h p \<and> ho_is_dir h p"
  by (simp add: config_validate_def validate_repos_dir_def reset_if_fields split: option.split)

lemma config_validate_usable: "config_usable h (config_validate h c)"
  unfolding config_usable_def
  using config_validate_hard_delete config_validate_repos_dir
  by (simp add: config_validate_fields config_defaults trim_bridge)

lemma reset_if_not: "\<not> P c \<Longrightarrow> reset_if P f c = c"
  by (simp add: reset_if_def)

lemma config_validate_id:
  assumes "config_usable h c" "sc_snapshot_cache_grace_period_hours c \<le> sc_snapshot_cache_hard_delete_hours c"
  shows "config_validate h c = c"
proof -
  have "validate_repos_dir h c = c"
    using assms(1) unfolding validate_repos_dir_def config_usable_def
    by (intro reset_if_not) (auto split: option.splits)
  then show ?thesis
    using assms by (simp add: config_validate_def config_usable_def reset_if_not)
qed

section \<open>Properties\<close>



text \<open>C37: the validator does not put the retention windows in order, though its warning says
  so: with a grace period beyond the default hard-delete window of 720 hours, the window it
  resets to is still shorter than the grace period.\<close>

theorem config_validate_retention_order_fails:
  "\<exists>c. sc_snapshot_cache_grace_period_hours c = 2000 \<and> sc_snapshot_cache_hard_delete_hours c = 1000
    \<and> sc_snapshot_cache_hard_delete_hours (config_validate h c)
        < sc_snapshot_cache_grace_period_hours (config_validate h c)"
proof -
  let ?c = "server_config_default\<lparr> sc_snapshot_cache_grace_period_hours := 2000,
    sc_snapshot_cache_hard_delete_hours := 1000 \<rparr>"
  have "sc_snapshot_cache_hard_delete_hours (config_validate h ?c) = 720"
      "sc_snapshot_cache_grace_period_hours (config_validate h ?c) = 2000"
    by (simp_all add: config_validate_def validate_repos_dir_def reset_if_fields config_defaults)
  then show ?thesis by (intro exI [of _ ?c]) simp
qed

end
