(* ===== verification/Binpkg_Repo.thy ===== *)
theory Binpkg_Repo
  imports Remerge_Types
begin

text \<open>
  The binary package repository (\<open>crates/server/src/repo.rs\<close>): scanning the
  directory, the \<open>Packages\<close> index and the removal of old versions.  The directory
  is its regular files and, per subdirectory, the regular files below it, in the
  order \<open>read_dir\<close> yields them; deeper levels are never read.  SHA-256 is a
  parameter.
\<close>

section \<open>Packages\<close>

record package_meta =
  pmt_cpv :: string
  pmt_filename :: string
  pmt_relative_path :: string
  pmt_size :: nat
  pmt_sha256 :: string
  pmt_is_gpkg :: bool

record binpkg_dir =
  bd_files :: "(string \<times> bytes) list"
  bd_dirs :: "(string \<times> (string \<times> bytes) list) list"

text \<open>The loop from the last byte down: the position of the last hyphen that a digit
  follows.\<close>

fun version_hyphen :: "string \<Rightarrow> nat \<Rightarrow> nat option" where
  "version_hyphen cpv 0 = None"
| "version_hyphen cpv (Suc i) =
     (if cpv ! i = CHR ''-'' \<and> i + 1 < length cpv \<and> is_digit (cpv ! (i + 1)) then Some i
      else version_hyphen cpv i)"

definition extract_package_base :: "string \<Rightarrow> string" where
  "extract_package_base cpv =
     (case version_hyphen cpv (length cpv) of Some i \<Rightarrow> take i cpv | None \<Rightarrow> cpv)"

text \<open>\<open>Path::extension\<close> of a file name.\<close>

definition path_extension :: "string \<Rightarrow> string option" where
  "path_extension name =
     (case rsplit_once CHR ''.'' name of
        Some (stem, ext) \<Rightarrow> (if stem = [] then None else Some ext)
      | None \<Rightarrow> None)"

definition is_package_file :: "string \<Rightarrow> bool" where
  "is_package_file name \<longleftrightarrow> ends_with ''.gpkg.tar'' name \<or> path_extension name = Some ''tbz2''"

definition read_package_meta ::
    "(bytes \<Rightarrow> string) \<Rightarrow> string option \<Rightarrow> string \<times> bytes \<Rightarrow> package_meta" where
  "read_package_meta sha256_hex category file =
     (let filename = fst file; data = snd file;
          name_without_ext = unwrap_or filename
            (or_else (strip_suffix ''.gpkg.tar'' filename) (strip_suffix ''.tbz2'' filename))
      in \<lparr> pmt_cpv = (case category of Some cat \<Rightarrow> cat @ ''/'' @ name_without_ext
                      | None \<Rightarrow> name_without_ext),
           pmt_filename = filename,
           pmt_relative_path = (case category of Some cat \<Rightarrow> cat @ ''/'' @ filename
                      | None \<Rightarrow> filename),
           pmt_size = length data,
           pmt_sha256 = sha256_hex data,
           pmt_is_gpkg = ends_with ''.gpkg.tar'' filename \<rparr>)"

definition scan_directory ::
    "(bytes \<Rightarrow> string) \<Rightarrow> string option \<Rightarrow> (string \<times> bytes) list \<Rightarrow> package_meta list" where
  "scan_directory sha256_hex category files =
     map (read_package_meta sha256_hex category) (filter (\<lambda>f. is_package_file (fst f)) files)"

definition is_category_dir :: "string \<Rightarrow> bool" where
  "is_category_dir name \<longleftrightarrow>
     CHR ''-'' \<in> set name \<and> \<not> starts_with ''.'' name \<and> name \<noteq> ''Packages''"

definition scan_packages :: "(bytes \<Rightarrow> string) \<Rightarrow> binpkg_dir \<Rightarrow> package_meta list" where
  "scan_packages sha256_hex d =
     scan_directory sha256_hex None (bd_files d)
     @ concat (map (\<lambda>(name, files). scan_directory sha256_hex (Some name) files)
         (filter (\<lambda>p. is_category_dir (fst p)) (bd_dirs d)))"

section \<open>The index\<close>

definition index_entry :: "package_meta \<Rightarrow> string" where
  "index_entry e =
     ''CPV: '' @ pmt_cpv e @ [newline] @
     ''SIZE: '' @ show_nat (pmt_size e) @ [newline] @
     ''SHA256: '' @ pmt_sha256 e @ [newline] @
     ''PATH: '' @ pmt_relative_path e @ [newline] @
     (if pmt_is_gpkg e then ''BINPKG_FORMAT: gpkg'' @ [newline] else []) @ [newline]"

definition index_content :: "package_meta list \<Rightarrow> string" where
  "index_content entries =
     ''PACKAGES: '' @ show_nat (length entries) @ [newline, newline]
       @ concat (map index_entry entries)"

definition string_bytes :: "string \<Rightarrow> bytes" where
  "string_bytes s = map of_char s"

definition regenerate_index :: "(bytes \<Rightarrow> string) \<Rightarrow> binpkg_dir \<Rightarrow> binpkg_dir" where
  "regenerate_index sha256_hex d =
     d\<lparr> bd_files := hm_insert ''Packages''
          (string_bytes (index_content (scan_packages sha256_hex d))) (bd_files d) \<rparr>"

section \<open>Removal of old versions\<close>

definition group_by_base :: "package_meta list \<Rightarrow> (string, package_meta list) hash_map" where
  "group_by_base entries =
     fold (\<lambda>e g. hm_insert (extract_package_base (pmt_cpv e))
         (unwrap_or [] (map_of g (extract_package_base (pmt_cpv e))) @ [e]) g) entries []"

definition old_versions :: "nat \<Rightarrow> package_meta list \<Rightarrow> package_meta list" where
  "old_versions keep versions =
     (if length versions \<le> keep then []
      else take (length versions - keep) (sort_key pmt_filename versions))"

definition path_exists :: "string \<Rightarrow> binpkg_dir \<Rightarrow> bool" where
  "path_exists path d =
     (case split_once CHR ''/'' path of
        None \<Rightarrow> map_of (bd_files d) path \<noteq> None
      | Some (cat, name) \<Rightarrow>
          (case map_of (bd_dirs d) cat of None \<Rightarrow> False | Some fs \<Rightarrow> map_of fs name \<noteq> None))"

definition remove_file :: "string \<Rightarrow> binpkg_dir \<Rightarrow> binpkg_dir" where
  "remove_file path d =
     (case split_once CHR ''/'' path of
        None \<Rightarrow> d\<lparr> bd_files := hm_remove path (bd_files d) \<rparr>
      | Some (cat, name) \<Rightarrow> d\<lparr> bd_dirs := hm_modify cat (hm_remove name) (bd_dirs d) \<rparr>)"

definition remove_counted :: "string \<Rightarrow> nat \<times> binpkg_dir \<Rightarrow> nat \<times> binpkg_dir" where
  "remove_counted path nd =
     (if path_exists path (snd nd) then (fst nd + 1, remove_file path (snd nd)) else nd)"

definition cleanup_old_versions ::
    "(bytes \<Rightarrow> string) \<Rightarrow> nat \<Rightarrow> binpkg_dir \<Rightarrow> nat \<times> binpkg_dir" where
  "cleanup_old_versions sha256_hex keep d =
     (let groups = group_by_base (scan_packages sha256_hex d);
          doomed = concat (map (\<lambda>(base, versions). old_versions keep versions) groups);
          (removed, d') = fold remove_counted (map pmt_relative_path doomed) (0, d)
      in (removed, if removed > 0 then regenerate_index sha256_hex d' else d'))"

section \<open>The base of a package\<close>

lemma version_hyphen_Some:
  "version_hyphen cpv n = Some i \<Longrightarrow> n \<le> length cpv \<Longrightarrow>
     i < n \<and> cpv ! i = CHR ''-'' \<and> i + 1 < length cpv \<and> is_digit (cpv ! (i + 1))
     \<and> (\<forall>j. i < j \<and> j < n \<longrightarrow> \<not> (cpv ! j = CHR ''-'' \<and> j + 1 < length cpv \<and> is_digit (cpv ! (j + 1))))"
  by (induction cpv n rule: version_hyphen.induct) (auto split: if_splits simp: less_Suc_eq)

lemma version_hyphen_None:
  "version_hyphen cpv n = None \<Longrightarrow> j < n \<Longrightarrow>
     \<not> (cpv ! j = CHR ''-'' \<and> j + 1 < length cpv \<and> is_digit (cpv ! (j + 1)))"
  by (induction cpv n rule: version_hyphen.induct) (auto split: if_splits simp: less_Suc_eq)

text \<open>A version part: it starts with a digit and no hyphen in it is followed by a digit.\<close>

definition version_part :: "string \<Rightarrow> bool" where
  "version_part v \<longleftrightarrow> v \<noteq> [] \<and> is_digit (hd v)
     \<and> (\<forall>j. j + 1 < length v \<and> v ! j = CHR ''-'' \<longrightarrow> \<not> is_digit (v ! (j + 1)))"

lemma version_hyphen_versioned:
  assumes v: "version_part v"
  shows "version_hyphen (n @ CHR ''-'' # v) (length (n @ CHR ''-'' # v)) = Some (length n)"
proof -
  let ?cpv = "n @ CHR ''-'' # v"
  have hit: "?cpv ! length n = CHR ''-''" "length n + 1 < length ?cpv" "is_digit (?cpv ! (length n + 1))"
    using v by (auto simp: version_part_def nth_append hd_conv_nth)
  have miss: "\<not> (?cpv ! j = CHR ''-'' \<and> j + 1 < length ?cpv \<and> is_digit (?cpv ! (j + 1)))"
    if "length n < j" for j
  proof -
    have "j = length n + 1 + (j - length n - 1)" using that by simp
    then obtain k where "j = length n + 1 + k" by blast
    then show ?thesis using v by (auto simp: version_part_def nth_append)
  qed
  show ?thesis
  proof (cases "version_hyphen ?cpv (length ?cpv)")
    case None
    then show ?thesis using version_hyphen_None [OF None, of "length n"] hit by simp
  next
    case (Some i)
    from version_hyphen_Some [OF Some] have i: "i < length ?cpv" "?cpv ! i = CHR ''-''" "i + 1 < length ?cpv"
      "is_digit (?cpv ! (i + 1))" "length n \<le> i"
      using hit by (fastforce simp: not_less [symmetric])+
    then show ?thesis using miss [of i] Some by (cases "i = length n") auto
  qed
qed

section \<open>Properties\<close>

text \<open>The base of a versioned package is the package without its version: for every name
  and every version (a part that starts with a digit and has no further hyphen before a
  digit, such as \<open>3.1.4-r1\<close>), the base of \<open>name-version\<close> is \<open>name\<close>.\<close>

theorem extract_package_base_versioned:
  assumes "version_part v"
  shows "extract_package_base (n @ ''-'' @ v) = n"
  using version_hyphen_versioned [OF assms, of n] by (simp add: extract_package_base_def)

theorem extract_package_base_versioned_witness:
  "version_part ''3.1.4-r1'' \<and> extract_package_base (''dev-libs/openssl'' @ ''-'' @ ''3.1.4-r1'') = ''dev-libs/openssl''"
proof -
  have v: "version_part ''3.1.4-r1''"
    by (auto simp: version_part_def is_digit_def nth_Cons' less_Suc_eq split: if_splits)
  show ?thesis by (rule conjI [OF v extract_package_base_versioned [OF v]])
qed



end
