(* ===== verification/File_System.thy ===== *)
theory File_System
  imports Remerge_Prelude
begin

text \<open>
  What the sources use of \<open>tokio::fs\<close> and \<open>anyhow\<close>.  A fallible operation on a state is an
  action: it gives an error or a value, and the state it leaves behind in either case.  The
  file system is a tree of names over inodes, so that a hard link and its original share
  their contents: a write through one name shows under the other.  Paths are relative to the
  state directory of the server.
\<close>

section \<open>Actions\<close>

type_synonym ('s, 'e, 'a) action = "'s \<Rightarrow> ('e + 'a) \<times> 's"

definition act_return :: "'a \<Rightarrow> ('s, 'e, 'a) action" where
  "act_return x s = (Inr x, s)"

definition act_fail :: "'e \<Rightarrow> ('s, 'e, 'a) action" where
  "act_fail e s = (Inl e, s)"

text \<open>The operator \<open>?\<close>: an error ends the function, the state stays as it is at that point.\<close>

definition act_bind :: "('s, 'e, 'a) action \<Rightarrow> ('a \<Rightarrow> ('s, 'e, 'b) action) \<Rightarrow> ('s, 'e, 'b) action" where
  "act_bind m f s = (case m s of (Inl e, s') \<Rightarrow> (Inl e, s') | (Inr x, s') \<Rightarrow> f x s')"

text \<open>A \<open>match\<close> on the result.\<close>

definition act_match :: "('s, 'e, 'a) action \<Rightarrow> ('e + 'a \<Rightarrow> ('s, 'f, 'b) action) \<Rightarrow> ('s, 'f, 'b) action" where
  "act_match m f s = (case m s of (r, s') \<Rightarrow> f r s')"

definition act_get :: "('s \<Rightarrow> 'a) \<Rightarrow> ('s, 'e, 'a) action" where
  "act_get f s = (Inr (f s), s)"

definition act_lift :: "'e + 'a \<Rightarrow> ('s, 'e, 'a) action" where
  "act_lift r s = (r, s)"

fun act_each :: "('x \<Rightarrow> ('s, 'e, unit) action) \<Rightarrow> 'x list \<Rightarrow> ('s, 'e, unit) action" where
  "act_each f [] = act_return ()"
| "act_each f (x # xs) = act_bind (f x) (\<lambda>_. act_each f xs)"

text \<open>A loop that builds up a value.\<close>

fun act_fold :: "('x \<Rightarrow> 'a \<Rightarrow> ('s, 'e, 'a) action) \<Rightarrow> 'x list \<Rightarrow> 'a \<Rightarrow> ('s, 'e, 'a) action" where
  "act_fold f [] a = act_return a"
| "act_fold f (x # xs) a = act_bind (f x a) (act_fold f xs)"

text \<open>What a successful action says about its parts.\<close>

lemma act_Inr:
  "act_bind m f s = (Inr y, t) \<longleftrightarrow> (\<exists>x s'. m s = (Inr x, s') \<and> f x s' = (Inr y, t))"
  "act_return x s = (Inr y, t) \<longleftrightarrow> y = x \<and> t = s"
  "act_fail e s = (Inr y, t) \<longleftrightarrow> False"
  "act_get g s = (Inr z, t) \<longleftrightarrow> z = g s \<and> t = s"
  "act_lift r s = (Inr y, t) \<longleftrightarrow> r = Inr y \<and> t = s"
  by (auto simp: act_bind_def act_return_def act_fail_def act_get_def act_lift_def split: prod.splits sum.splits)

subsection \<open>Triples\<close>

text \<open>From a state with \<open>P\<close> the action ends with a value and a state in \<open>Q\<close>, or with an error
  and a state in \<open>E\<close>.\<close>

definition triple ::
    "('s \<Rightarrow> bool) \<Rightarrow> ('s, 'e, 'a) action \<Rightarrow> ('a \<Rightarrow> 's \<Rightarrow> bool) \<Rightarrow> ('e \<Rightarrow> 's \<Rightarrow> bool) \<Rightarrow> bool" where
  "triple P m Q E \<longleftrightarrow> (\<forall>s. P s \<longrightarrow> (case m s of (Inl e, s') \<Rightarrow> E e s' | (Inr x, s') \<Rightarrow> Q x s'))"

abbreviation keeps :: "('s \<Rightarrow> bool) \<Rightarrow> ('s, 'e, 'a) action \<Rightarrow> bool" where
  "keeps P m \<equiv> triple P m (\<lambda>_. P) (\<lambda>_. P)"

named_theorems triple_rules
  \<open>the rules that take a triple apart along the action\<close>

lemma triple_Inr: "triple P m Q E \<Longrightarrow> P s \<Longrightarrow> m s = (Inr x, s') \<Longrightarrow> Q x s'"
  by (auto simp: triple_def)

lemma triple_Inl: "triple P m Q E \<Longrightarrow> P s \<Longrightarrow> m s = (Inl e, s') \<Longrightarrow> E e s'"
  by (auto simp: triple_def)

lemma keepsD: "keeps P m \<Longrightarrow> P s \<Longrightarrow> P (snd (m s))"
  by (cases "m s"; cases "fst (m s)") (auto dest: triple_Inr triple_Inl)

lemma keepsI: "(\<And>s. P s \<Longrightarrow> P (snd (m s))) \<Longrightarrow> keeps P m"
  by (auto simp: triple_def split: prod.splits sum.splits) (metis snd_conv)+

lemma keeps_iff: "keeps P m \<longleftrightarrow> (\<forall>s. P s \<longrightarrow> P (snd (m s)))"
  using keepsD keepsI by metis

lemma keeps_return [triple_rules]: "keeps P (act_return x)"
  by (simp add: triple_def act_return_def)

lemma keeps_fail [triple_rules]: "keeps P (act_fail e)"
  by (simp add: triple_def act_fail_def)

lemma keeps_get [triple_rules]: "keeps P (act_get f)"
  by (simp add: triple_def act_get_def)

lemma keeps_lift [triple_rules]: "keeps P (act_lift r)"
  by (cases r) (simp_all add: triple_def act_lift_def)

lemma triple_bind:
  assumes "triple P m R E" and "\<And>x. triple (R x) (f x) Q E"
  shows "triple P (act_bind m f) Q E"
  unfolding triple_def
proof (intro allI impI)
  fix s
  assume s: "P s"
  show "case act_bind m f s of (Inl e, s') \<Rightarrow> E e s' | (Inr x, s') \<Rightarrow> Q x s'"
  proof (cases "m s")
    case (Pair r t)
    show ?thesis
    proof (cases r)
      case (Inl e)
      then show ?thesis
        using triple_Inl [OF assms(1) s] Pair by (simp add: act_bind_def)
    next
      case (Inr x)
      have "R x t" by (rule triple_Inr [OF assms(1) s]) (simp add: Pair Inr)
      then show ?thesis
        using assms(2) [of x] Pair Inr by (simp add: act_bind_def triple_def)
    qed
  qed
qed

lemma triple_weaken:
  assumes "triple P m Q E" and "\<And>x s. Q x s \<Longrightarrow> Q' x s" and "\<And>e s. E e s \<Longrightarrow> E' e s"
  shows "triple P m Q' E'"
  unfolding triple_def
proof (intro allI impI)
  fix s
  assume "P s"
  with assms(1) have "case m s of (Inl e, s') \<Rightarrow> E e s' | (Inr x, s') \<Rightarrow> Q x s'" by (simp add: triple_def)
  then show "case m s of (Inl e, s') \<Rightarrow> E' e s' | (Inr x, s') \<Rightarrow> Q' x s'"
    using assms(2,3) by (auto split: prod.splits sum.splits)
qed

lemma keeps_triple: "keeps P m \<Longrightarrow> (\<And>s. P s \<Longrightarrow> E s) \<Longrightarrow> triple P m (\<lambda>_. P) (\<lambda>_. E)"
  by (rule triple_weaken)

lemma keeps_bind [triple_rules]: "keeps P m \<Longrightarrow> (\<And>x. keeps P (f x)) \<Longrightarrow> keeps P (act_bind m f)"
  by (rule triple_bind)

lemma keeps_match [triple_rules]: "keeps P m \<Longrightarrow> (\<And>r. keeps P (f r)) \<Longrightarrow> keeps P (act_match m f)"
  unfolding keeps_iff by (auto simp: act_match_def split: prod.splits)

lemma keeps_each [triple_rules]: "(\<And>x. x \<in> set xs \<Longrightarrow> keeps P (f x)) \<Longrightarrow> keeps P (act_each f xs)"
  by (induction xs) (auto intro!: triple_rules)

lemma keeps_fold [triple_rules]:
  "(\<And>x a. x \<in> set xs \<Longrightarrow> keeps P (f x a)) \<Longrightarrow> keeps P (act_fold f xs a)"
  by (induction xs arbitrary: a) (auto intro!: triple_rules)

lemma keeps_if [triple_rules]: "(b \<Longrightarrow> keeps P m) \<Longrightarrow> (\<not> b \<Longrightarrow> keeps P n) \<Longrightarrow> keeps P (if b then m else n)"
  by simp

lemma keeps_case_option [triple_rules]:
  "(x = None \<Longrightarrow> keeps P m) \<Longrightarrow> (\<And>y. x = Some y \<Longrightarrow> keeps P (f y)) \<Longrightarrow>
     keeps P (case x of None \<Rightarrow> m | Some y \<Rightarrow> f y)"
  by (cases x) simp_all

lemma keeps_case_sum [triple_rules]:
  "(\<And>e. r = Inl e \<Longrightarrow> keeps P (f e)) \<Longrightarrow> (\<And>y. r = Inr y \<Longrightarrow> keeps P (g y)) \<Longrightarrow>
     keeps P (case r of Inl e \<Rightarrow> f e | Inr y \<Rightarrow> g y)"
  by (cases r) simp_all

lemma keeps_case_prod [triple_rules]:
  "(\<And>a b. p = (a, b) \<Longrightarrow> keeps P (f a b)) \<Longrightarrow> keeps P (case p of (a, b) \<Rightarrow> f a b)"
  by (cases p) simp

section \<open>Errors\<close>

datatype errno =
    ENOENT | EEXIST | EISDIR | ENOTDIR | EXDEV | EMLINK | EPERM | EOPNOTSUPP | EINVAL | ENOTTY | ENOSYS | EIO

fun errno_display :: "errno \<Rightarrow> string" where
  "errno_display ENOENT = ''No such file or directory (os error 2)''"
| "errno_display EEXIST = ''File exists (os error 17)''"
| "errno_display EISDIR = ''Is a directory (os error 21)''"
| "errno_display ENOTDIR = ''Not a directory (os error 20)''"
| "errno_display EXDEV = ''Invalid cross-device link (os error 18)''"
| "errno_display EMLINK = ''Too many links (os error 31)''"
| "errno_display EPERM = ''Operation not permitted (os error 1)''"
| "errno_display EOPNOTSUPP = ''Operation not supported (os error 95)''"
| "errno_display EINVAL = ''Invalid argument (os error 22)''"
| "errno_display ENOTTY = ''Inappropriate ioctl for device (os error 25)''"
| "errno_display ENOSYS = ''Function not implemented (os error 38)''"
| "errno_display EIO = ''Input/output error (os error 5)''"

text \<open>An \<open>anyhow::Error\<close>: its messages, the outermost context first, and the operating system
  error at its root, if it has one.\<close>

record anyhow =
  ah_chain :: "string list"
  ah_errno :: "errno option"

definition bail :: "string \<Rightarrow> anyhow" where
  "bail msg = \<lparr> ah_chain = [msg], ah_errno = None \<rparr>"

definition os_error :: "errno \<Rightarrow> anyhow" where
  "os_error e = \<lparr> ah_chain = [errno_display e], ah_errno = Some e \<rparr>"

definition with_context :: "string \<Rightarrow> anyhow \<Rightarrow> anyhow" where
  "with_context c e = e\<lparr> ah_chain := c # ah_chain e \<rparr>"

text \<open>The formats \<open>{}\<close> and \<open>{:#}\<close>.\<close>

definition anyhow_display :: "anyhow \<Rightarrow> string" where
  "anyhow_display e = (case ah_chain e of [] \<Rightarrow> [] | m # _ \<Rightarrow> m)"

definition anyhow_chain :: "anyhow \<Rightarrow> string" where
  "anyhow_chain e = join_with '': '' (ah_chain e)"

section \<open>The file system\<close>

type_synonym path = "string list"

datatype node = File nat | Dir

record fs =
  fs_tree :: "(path, node) hash_map"
  fs_inodes :: "(nat, bytes) hash_map"
  fs_next :: nat

text \<open>The state directory itself is the empty path.\<close>

definition empty_fs :: fs where
  "empty_fs = \<lparr> fs_tree = [], fs_inodes = [], fs_next = 0 \<rparr>"

definition fs_node :: "path \<Rightarrow> fs \<Rightarrow> node option" where
  "fs_node p fs = (if p = [] then Some Dir else map_of (fs_tree fs) p)"

definition fs_content :: "path \<Rightarrow> fs \<Rightarrow> bytes option" where
  "fs_content p fs = (case fs_node p fs of Some (File i) \<Rightarrow> map_of (fs_inodes fs) i | _ \<Rightarrow> None)"

text \<open>Every proper prefix that is not the root.\<close>

definition path_prefixes :: "path \<Rightarrow> path list" where
  "path_prefixes p = map (\<lambda>n. take n p) [1..<length p]"

definition is_file :: "path \<Rightarrow> fs \<Rightarrow> bool" where
  "is_file p fs = (case fs_node p fs of Some (File _) \<Rightarrow> True | _ \<Rightarrow> False)"

definition missing_errno :: "path \<Rightarrow> fs \<Rightarrow> errno" where
  "missing_errno p fs = (if list_ex (\<lambda>q. is_file q fs) (path_prefixes p) then ENOTDIR else ENOENT)"

text \<open>A new file, with an inode of its own.\<close>

definition fs_add :: "path \<Rightarrow> bytes \<Rightarrow> fs \<Rightarrow> fs" where
  "fs_add p bs fs =
     \<lparr> fs_tree = hm_insert p (File (fs_next fs)) (fs_tree fs),
       fs_inodes = hm_insert (fs_next fs) bs (fs_inodes fs),
       fs_next = Suc (fs_next fs) \<rparr>"

type_synonym 'a fs_action = "(fs, anyhow, 'a) action"

text \<open>\<open>metadata\<close>: the node and, for a file, its length.\<close>

definition fs_metadata :: "path \<Rightarrow> nat fs_action" where
  "fs_metadata p fs =
     (case fs_node p fs of
        None \<Rightarrow> (Inl (os_error (missing_errno p fs)), fs)
      | Some Dir \<Rightarrow> (Inr 0, fs)
      | Some (File i) \<Rightarrow> (Inr (length (unwrap_or [] (map_of (fs_inodes fs) i))), fs))"

definition fs_read :: "path \<Rightarrow> bytes fs_action" where
  "fs_read p fs =
     (case fs_node p fs of
        None \<Rightarrow> (Inl (os_error (missing_errno p fs)), fs)
      | Some Dir \<Rightarrow> (Inl (os_error EISDIR), fs)
      | Some (File i) \<Rightarrow> (Inr (unwrap_or [] (map_of (fs_inodes fs) i)), fs))"

text \<open>Opening a file that must not exist yet.\<close>

definition fs_create_new :: "path \<Rightarrow> unit fs_action" where
  "fs_create_new p fs =
     (if fs_node p fs \<noteq> None then (Inl (os_error EEXIST), fs)
      else if fs_node (butlast p) fs \<noteq> Some Dir then (Inl (os_error (missing_errno p fs)), fs)
      else (Inr (), fs_add p [] fs))"

text \<open>\<open>write\<close>: an existing file keeps its inode.\<close>

definition fs_write :: "path \<Rightarrow> bytes \<Rightarrow> unit fs_action" where
  "fs_write p bs fs =
     (case fs_node p fs of
        Some Dir \<Rightarrow> (Inl (os_error EISDIR), fs)
      | Some (File i) \<Rightarrow> (Inr (), fs\<lparr> fs_inodes := hm_insert i bs (fs_inodes fs) \<rparr>)
      | None \<Rightarrow>
          if fs_node (butlast p) fs \<noteq> Some Dir then (Inl (os_error (missing_errno p fs)), fs)
          else (Inr (), fs_add p bs fs))"

fun make_dirs :: "path list \<Rightarrow> unit fs_action" where
  "make_dirs [] fs = (Inr (), fs)"
| "make_dirs (p # ps) fs =
     (case fs_node p fs of
        Some Dir \<Rightarrow> make_dirs ps fs
      | Some (File _) \<Rightarrow> (Inl (os_error (if ps = [] then EEXIST else ENOTDIR)), fs)
      | None \<Rightarrow> make_dirs ps (fs\<lparr> fs_tree := hm_insert p Dir (fs_tree fs) \<rparr>))"

definition fs_create_dir_all :: "path \<Rightarrow> unit fs_action" where
  "fs_create_dir_all p = make_dirs (path_prefixes p @ (if p = [] then [] else [p]))"

text \<open>\<open>hard_link\<close>; the argument says what the file system answers when it cannot link.\<close>

definition fs_hard_link :: "errno option \<Rightarrow> path \<Rightarrow> path \<Rightarrow> unit fs_action" where
  "fs_hard_link unsupported src dst fs =
     (case fs_node src fs of
        None \<Rightarrow> (Inl (os_error (missing_errno src fs)), fs)
      | Some Dir \<Rightarrow> (Inl (os_error EPERM), fs)
      | Some (File i) \<Rightarrow>
          if fs_node dst fs \<noteq> None then (Inl (os_error EEXIST), fs)
          else if fs_node (butlast dst) fs \<noteq> Some Dir then (Inl (os_error (missing_errno dst fs)), fs)
          else case unsupported of
              Some e \<Rightarrow> (Inl (os_error e), fs)
            | None \<Rightarrow> (Inr (), fs\<lparr> fs_tree := hm_insert dst (File i) (fs_tree fs) \<rparr>))"

definition fs_rename :: "path \<Rightarrow> path \<Rightarrow> unit fs_action" where
  "fs_rename src dst fs =
     (case fs_node src fs of
        None \<Rightarrow> (Inl (os_error (missing_errno src fs)), fs)
      | Some n \<Rightarrow>
          if fs_node dst fs = Some Dir then (Inl (os_error EISDIR), fs)
          else if fs_node (butlast dst) fs \<noteq> Some Dir then (Inl (os_error (missing_errno dst fs)), fs)
          else (Inr (), fs\<lparr> fs_tree := hm_insert dst n (hm_remove src (fs_tree fs)) \<rparr>))"

definition fs_remove_file :: "path \<Rightarrow> unit fs_action" where
  "fs_remove_file p fs =
     (case fs_node p fs of
        None \<Rightarrow> (Inl (os_error (missing_errno p fs)), fs)
      | Some Dir \<Rightarrow> (Inl (os_error EISDIR), fs)
      | Some (File _) \<Rightarrow> (Inr (), fs\<lparr> fs_tree := hm_remove p (fs_tree fs) \<rparr>))"

definition under :: "path \<Rightarrow> path \<Rightarrow> bool" where
  "under p q \<longleftrightarrow> take (length p) q = p"

definition fs_remove_dir_all :: "path \<Rightarrow> unit fs_action" where
  "fs_remove_dir_all p fs =
     (case fs_node p fs of
        None \<Rightarrow> (Inl (os_error (missing_errno p fs)), fs)
      | Some (File _) \<Rightarrow> (Inl (os_error ENOTDIR), fs)
      | Some Dir \<Rightarrow> (Inr (), fs\<lparr> fs_tree := filter (\<lambda>e. \<not> under p (fst e)) (fs_tree fs) \<rparr>))"

definition fs_copy :: "path \<Rightarrow> path \<Rightarrow> unit fs_action" where
  "fs_copy src dst = act_bind (fs_read src) (fs_write dst)"

text \<open>\<open>read_dir\<close>: the names and nodes of the entries.\<close>

definition fs_read_dir :: "path \<Rightarrow> ((string \<times> node) list) fs_action" where
  "fs_read_dir p fs =
     (case fs_node p fs of
        None \<Rightarrow> (Inl (os_error (missing_errno p fs)), fs)
      | Some (File _) \<Rightarrow> (Inl (os_error ENOTDIR), fs)
      | Some Dir \<Rightarrow>
          (Inr (map (\<lambda>(q, n). (last q, n)) (filter (\<lambda>(q, n). q \<noteq> [] \<and> butlast q = p) (fs_tree fs))), fs))"

definition in_context :: "string \<Rightarrow> 'a fs_action \<Rightarrow> 'a fs_action" where
  "in_context c m = act_match m (\<lambda>r. case r of Inl e \<Rightarrow> act_fail (with_context c e) | Inr x \<Rightarrow> act_return x)"

definition is_not_found_error :: "anyhow \<Rightarrow> bool" where
  "is_not_found_error e \<longleftrightarrow> ah_errno e = Some ENOENT"

section \<open>Laws of the file system\<close>

text \<open>Names are distinct, the root is not one of them, every file has an inode in use with
  contents, and the entries of a file system stand in directories.\<close>

definition fs_wf :: "fs \<Rightarrow> bool" where
  "fs_wf fs \<longleftrightarrow> hm_wf (fs_tree fs) \<and> map_of (fs_tree fs) [] = None
     \<and> (\<forall>p i. map_of (fs_tree fs) p = Some (File i) \<longrightarrow> i < fs_next fs \<and> map_of (fs_inodes fs) i \<noteq> None)
     \<and> (\<forall>p n. map_of (fs_tree fs) p = Some n \<longrightarrow> fs_node (butlast p) fs = Some Dir)"

lemma fs_wfD:
  assumes "fs_wf fs"
  shows "hm_wf (fs_tree fs)" "map_of (fs_tree fs) [] = None"
    "map_of (fs_tree fs) p = Some (File i) \<Longrightarrow> i < fs_next fs"
    "map_of (fs_tree fs) p = Some (File i) \<Longrightarrow> \<exists>bs. map_of (fs_inodes fs) i = Some bs"
    "map_of (fs_tree fs) p = Some n \<Longrightarrow> fs_node (butlast p) fs = Some Dir"
  using assms by (auto simp: fs_wf_def)

lemma fs_wfI:
  assumes "hm_wf (fs_tree fs)" "map_of (fs_tree fs) [] = None"
    and "\<And>p i. map_of (fs_tree fs) p = Some (File i) \<Longrightarrow> i < fs_next fs \<and> map_of (fs_inodes fs) i \<noteq> None"
    and "\<And>p n. map_of (fs_tree fs) p = Some n \<Longrightarrow> fs_node (butlast p) fs = Some Dir"
  shows "fs_wf fs"
  using assms unfolding fs_wf_def by blast

lemma hm_insert_new: "map_of m k = None \<Longrightarrow> hm_insert k v m = m @ [(k, v)]"
  by (induction m) (auto split: if_splits)

lemma hm_remove_absent: "map_of m k = None \<Longrightarrow> hm_remove k m = m"
  by (induction m) (auto simp: hm_remove_def split: if_splits)

lemma hm_remove_append: "hm_remove k (m @ m') = hm_remove k m @ hm_remove k m'"
  by (simp add: hm_remove_def)

lemma hm_remove_insert_new: "map_of m k = None \<Longrightarrow> hm_remove k (hm_insert k v m) = m"
  by (simp add: hm_insert_new hm_remove_append hm_remove_absent) (simp add: hm_remove_def)

lemma is_not_found_with_context [simp]: "is_not_found_error (with_context c e) = is_not_found_error e"
  by (simp add: is_not_found_error_def with_context_def)

lemma ah_errno_os_error [simp]: "ah_errno (os_error e) = Some e"
  by (simp add: os_error_def)

lemma in_context_eq:
  "in_context c m s = (case m s of (Inl e, s') \<Rightarrow> (Inl (with_context c e), s') | (Inr x, s') \<Rightarrow> (Inr x, s'))"
  by (auto simp: in_context_def act_match_def act_fail_def act_return_def split: prod.splits sum.splits)

lemma keeps_in_context [triple_rules]: "keeps P m \<Longrightarrow> keeps P (in_context c m)"
  unfolding in_context_def by (auto intro!: triple_rules)

lemma keeps_metadata [triple_rules]: "keeps P (fs_metadata p)"
  by (simp add: keeps_iff fs_metadata_def split: option.splits node.splits)

lemma keeps_read [triple_rules]: "keeps P (fs_read p)"
  by (simp add: keeps_iff fs_read_def split: option.splits node.splits)

lemma keeps_read_dir [triple_rules]: "keeps P (fs_read_dir p)"
  by (simp add: keeps_iff fs_read_dir_def split: option.splits node.splits)

section \<open>What an operation may change\<close>

text \<open>Nothing but inodes without a name.\<close>

definition quiet :: "fs \<Rightarrow> fs \<Rightarrow> bool" where
  "quiet fs fs' \<longleftrightarrow> map_of (fs_tree fs') = map_of (fs_tree fs)
     \<and> (\<forall>j<fs_next fs. map_of (fs_inodes fs') j = map_of (fs_inodes fs) j)
     \<and> fs_next fs \<le> fs_next fs' \<and> (hm_wf (fs_tree fs) \<longrightarrow> hm_wf (fs_tree fs'))"

text \<open>One name gets a new inode; no inode that has a name is written.\<close>

definition adds :: "path \<Rightarrow> bytes \<Rightarrow> fs \<Rightarrow> fs \<Rightarrow> bool" where
  "adds p bs fs fs' \<longleftrightarrow> p \<noteq> [] \<and> fs_node (butlast p) fs = Some Dir \<and> fs_node p fs \<noteq> Some Dir
     \<and> (\<exists>i. fs_next fs \<le> i \<and> i < fs_next fs' \<and> map_of (fs_tree fs') = (map_of (fs_tree fs))(p \<mapsto> File i)
          \<and> map_of (fs_inodes fs') i = Some bs)
     \<and> (\<forall>j<fs_next fs. map_of (fs_inodes fs') j = map_of (fs_inodes fs) j)
     \<and> fs_next fs \<le> fs_next fs' \<and> (hm_wf (fs_tree fs) \<longrightarrow> hm_wf (fs_tree fs'))"

lemma quiet_refl [simp]: "quiet fs fs"
  by (simp add: quiet_def)

lemma quiet_node: "quiet fs fs' \<Longrightarrow> fs_node p fs' = fs_node p fs"
  by (simp add: quiet_def fs_node_def)

lemma quiet_content: "quiet fs fs' \<Longrightarrow> fs_wf fs \<Longrightarrow> fs_content p fs' = fs_content p fs"
  using fs_wfD(3) [of fs p] by (auto simp: quiet_def fs_content_def fs_node_def split: option.splits node.splits)

lemma quiet_wf:
  assumes "quiet fs fs'" "fs_wf fs"
  shows "fs_wf fs'"
proof -
  have t: "map_of (fs_tree fs') = map_of (fs_tree fs)" and h: "hm_wf (fs_tree fs')"
    and o: "\<And>j. j < fs_next fs \<Longrightarrow> map_of (fs_inodes fs') j = map_of (fs_inodes fs) j"
    and l: "fs_next fs \<le> fs_next fs'"
    using assms(1) fs_wfD(1) [OF assms(2)] by (simp_all add: quiet_def)
  show ?thesis
  proof (rule fs_wfI)
    show "i < fs_next fs' \<and> map_of (fs_inodes fs') i \<noteq> None" if "map_of (fs_tree fs') p = Some (File i)" for p i
      using fs_wfD(3,4) [OF assms(2), of p i] that l o by (simp add: t)
    show "fs_node (butlast p) fs' = Some Dir" if "map_of (fs_tree fs') p = Some n" for p n
      using fs_wfD(5) [OF assms(2), of p n] that by (simp add: t quiet_node [OF assms(1)])
  qed (simp_all add: h t fs_wfD(2) [OF assms(2)])
qed

lemma adds_node: "adds p bs fs fs' \<Longrightarrow> q \<noteq> p \<Longrightarrow> fs_node q fs' = fs_node q fs"
  unfolding adds_def fs_node_def by (elim conjE exE) simp

lemma adds_content:
  assumes "adds p bs fs fs'" "fs_wf fs"
  shows "fs_content q fs' = (if q = p then Some bs else fs_content q fs)"
proof (cases "q = p")
  case True
  then show ?thesis using assms(1) by (auto simp: adds_def fs_content_def fs_node_def)
next
  case False
  have o: "\<And>j. j < fs_next fs \<Longrightarrow> map_of (fs_inodes fs') j = map_of (fs_inodes fs) j"
    using assms(1) by (simp add: adds_def)
  show ?thesis
    using adds_node [OF assms(1) False] False fs_wfD(3) [OF assms(2), of q] o
    by (auto simp: fs_content_def fs_node_def split: option.splits node.splits)
qed

lemma adds_dir:
  assumes "adds p bs fs fs'" "fs_node q fs = Some Dir"
  shows "fs_node q fs' = Some Dir"
proof -
  have "q \<noteq> p" using assms by (auto simp: adds_def)
  then show ?thesis using adds_node [OF assms(1)] assms(2) by simp
qed

lemma adds_wf:
  assumes a: "adds p bs fs fs'" and w: "fs_wf fs"
  shows "fs_wf fs'"
proof -
  from a obtain i where i: "fs_next fs \<le> i" "i < fs_next fs'"
    "map_of (fs_tree fs') = (map_of (fs_tree fs))(p \<mapsto> File i)" "map_of (fs_inodes fs') i = Some bs"
    and o: "\<And>j. j < fs_next fs \<Longrightarrow> map_of (fs_inodes fs') j = map_of (fs_inodes fs) j"
    and p: "p \<noteq> []" "fs_node (butlast p) fs = Some Dir" "hm_wf (fs_tree fs')" "fs_next fs \<le> fs_next fs'"
    using w by (auto simp: adds_def fs_wf_def)
  show ?thesis
  proof (rule fs_wfI)
    show "j < fs_next fs' \<and> map_of (fs_inodes fs') j \<noteq> None" if "map_of (fs_tree fs') q = Some (File j)" for q j
    proof -
      have "q = p \<and> j = i \<or> map_of (fs_tree fs) q = Some (File j)"
        using that by (auto simp: i(3) split: if_splits)
      then show ?thesis using i(2,4) p(4) o fs_wfD(3,4) [OF w, of q j] by auto
    qed
    show "fs_node (butlast q) fs' = Some Dir" if "map_of (fs_tree fs') q = Some n" for q n
    proof -
      have "fs_node (butlast q) fs = Some Dir"
        using that p(2) fs_wfD(5) [OF w, of q] by (auto simp: i(3) split: if_splits)
      then show ?thesis by (rule adds_dir [OF a])
    qed
  qed (use p(1,3) fs_wfD(2) [OF w] in \<open>simp_all add: i(3)\<close>)
qed

text \<open>A removal of names that are no directories, or of whole directories.\<close>

definition removes :: "path set \<Rightarrow> fs \<Rightarrow> fs \<Rightarrow> bool" where
  "removes gone fs fs' \<longleftrightarrow> map_of (fs_tree fs') = map_of (fs_tree fs) |` (- gone)
     \<and> fs_inodes fs' = fs_inodes fs \<and> fs_next fs' = fs_next fs \<and> (hm_wf (fs_tree fs) \<longrightarrow> hm_wf (fs_tree fs'))
     \<and> (\<forall>p n. map_of (fs_tree fs) p = Some n \<longrightarrow> butlast p \<in> gone \<longrightarrow> p \<in> gone)"

lemma removesD:
  assumes "removes gone fs fs'"
  shows "map_of (fs_tree fs') = map_of (fs_tree fs) |` (- gone)" "fs_inodes fs' = fs_inodes fs"
    "map_of (fs_tree fs') q = Some n \<Longrightarrow> map_of (fs_tree fs) q = Some n"
    "fs_content q fs' = Some bs \<Longrightarrow> fs_content q fs = Some bs"
proof -
  show t: "map_of (fs_tree fs') = map_of (fs_tree fs) |` (- gone)"
    using assms unfolding removes_def by (elim conjE)
  show i: "fs_inodes fs' = fs_inodes fs"
    using assms unfolding removes_def by (elim conjE)
  show "map_of (fs_tree fs') q = Some n \<Longrightarrow> map_of (fs_tree fs) q = Some n"
    by (auto simp: t restrict_map_def split: if_splits)
  show "fs_content q fs' = Some bs \<Longrightarrow> fs_content q fs = Some bs"
    by (auto simp: fs_content_def fs_node_def t i restrict_map_def split: if_splits option.splits node.splits)
qed

lemma removes_node: "removes gone fs fs' \<Longrightarrow> q \<notin> gone \<Longrightarrow> fs_node q fs' = fs_node q fs"
  by (simp add: removes_def fs_node_def)

lemma removes_content: "removes gone fs fs' \<Longrightarrow> q \<notin> gone \<Longrightarrow> fs_content q fs' = fs_content q fs"
  using removes_node [of gone fs fs' q] by (simp add: removes_def fs_content_def split: option.split node.split)

lemma removes_wf:
  assumes r: "removes gone fs fs'" and w: "fs_wf fs"
  shows "fs_wf fs'"
proof (rule fs_wfI)
  have t: "map_of (fs_tree fs') p = Some n \<longleftrightarrow> p \<notin> gone \<and> map_of (fs_tree fs) p = Some n" for p n
    using r by (simp add: removes_def restrict_map_def)
  show "hm_wf (fs_tree fs')" using r fs_wfD(1) [OF w] by (simp add: removes_def)
  show "map_of (fs_tree fs') [] = None" using r fs_wfD(2) [OF w] by (simp add: removes_def restrict_map_def)
  show "i < fs_next fs' \<and> map_of (fs_inodes fs') i \<noteq> None" if "map_of (fs_tree fs') p = Some (File i)" for p i
    using that fs_wfD(3,4) [OF w, of p i] r by (auto simp: t removes_def)
  show "fs_node (butlast q) fs' = Some Dir" if "map_of (fs_tree fs') q = Some n" for q n
  proof -
    have q: "map_of (fs_tree fs) q = Some n" "q \<notin> gone" using that by (simp_all add: t)
    have "\<forall>p n. map_of (fs_tree fs) p = Some n \<longrightarrow> butlast p \<in> gone \<longrightarrow> p \<in> gone"
      using r unfolding removes_def by blast
    then have "butlast q \<notin> gone" using q by blast
    then show ?thesis using fs_wfD(5) [OF w q(1)] removes_node [OF r] by simp
  qed
qed

text \<open>Names of directories are added.\<close>

definition grows :: "fs \<Rightarrow> fs \<Rightarrow> bool" where
  "grows fs fs' \<longleftrightarrow> fs_inodes fs' = fs_inodes fs \<and> fs_next fs' = fs_next fs
     \<and> (\<forall>p. fs_node p fs' = fs_node p fs \<or> fs_node p fs = None \<and> fs_node p fs' = Some Dir)"

lemma grows_refl: "grows fs fs"
  by (simp add: grows_def)

lemma grows_nodes:
  "grows fs fs' \<Longrightarrow> fs_node p fs' = fs_node p fs \<or> fs_node p fs = None \<and> fs_node p fs' = Some Dir"
  unfolding grows_def by (elim conjE) (erule spec)

lemma growsD:
  assumes "grows fs fs'"
  obtains "fs_node p fs' = fs_node p fs" | "fs_node p fs = None" "fs_node p fs' = Some Dir"
  using grows_nodes [OF assms, of p] by (elim disjE conjE)

lemma grows_same: "grows fs fs' \<Longrightarrow> fs_inodes fs' = fs_inodes fs" "grows fs fs' \<Longrightarrow> fs_next fs' = fs_next fs"
  unfolding grows_def by (elim conjE, assumption)+

lemma grows_trans:
  assumes "grows a b" "grows b c"
  shows "grows a c"
  unfolding grows_def
proof (intro conjI allI)
  show "fs_inodes c = fs_inodes a" "fs_next c = fs_next a"
    by (simp_all add: grows_same [OF assms(1)] grows_same [OF assms(2)])
  show "fs_node p c = fs_node p a \<or> fs_node p a = None \<and> fs_node p c = Some Dir" for p
    using grows_nodes [OF assms(1), of p] grows_nodes [OF assms(2), of p] by (elim disjE conjE) simp_all
qed

lemma grows_content:
  assumes "grows fs fs'"
  shows "fs_content p fs' = fs_content p fs"
  by (rule growsD [OF assms, of p]) (simp_all add: fs_content_def grows_same [OF assms] split: option.split node.split)

lemma grows_file:
  assumes "grows fs fs'"
  shows "fs_node p fs' = Some (File i) \<longleftrightarrow> fs_node p fs = Some (File i)"
  by (rule growsD [OF assms, of p]) simp_all

section \<open>The operations\<close>

lemma make_dirs_grows: "grows fs (snd (make_dirs ps fs))"
proof (induction ps arbitrary: fs)
  case (Cons p ps)
  have "grows fs (fs\<lparr> fs_tree := hm_insert p Dir (fs_tree fs) \<rparr>)" if "fs_node p fs = None"
    using that by (auto simp: grows_def fs_node_def split: if_splits)
  then show ?case
    using Cons.IH by (auto simp: grows_refl intro: grows_trans split: option.split node.split)
qed (simp add: grows_refl)

lemma make_dirs_new:
  "fs_node q (snd (make_dirs ps fs)) = Some Dir \<Longrightarrow> fs_node q fs = Some Dir \<or> q \<in> set ps"
proof (induction ps arbitrary: fs)
  case (Cons p ps)
  show ?case
  proof (cases "fs_node p fs")
    case None
    then show ?thesis
      using Cons.IH [of "fs\<lparr> fs_tree := hm_insert p Dir (fs_tree fs) \<rparr>"] Cons.prems
      by (auto simp: fs_node_def split: if_splits)
  next
    case (Some n)
    then show ?thesis using Cons.IH [of fs] Cons.prems by (cases n) auto
  qed
qed simp

fun dirs_chain :: "path \<Rightarrow> path list \<Rightarrow> bool" where
  "dirs_chain q [] = True"
| "dirs_chain q (p # ps) = (p \<noteq> [] \<and> butlast p = q \<and> dirs_chain p ps)"

lemma fs_wf_new_dir:
  assumes "fs_wf fs" "p \<noteq> []" "fs_node p fs = None" "fs_node (butlast p) fs = Some Dir"
  shows "fs_wf (fs\<lparr> fs_tree := hm_insert p Dir (fs_tree fs) \<rparr>)"
proof (rule fs_wfI)
  show "fs_node (butlast q) (fs\<lparr> fs_tree := hm_insert p Dir (fs_tree fs) \<rparr>) = Some Dir"
    if "map_of (fs_tree (fs\<lparr> fs_tree := hm_insert p Dir (fs_tree fs) \<rparr>)) q = Some n" for q n
  proof -
    have "fs_node (butlast q) fs = Some Dir"
      using that assms(4) fs_wfD(5) [OF assms(1), of q] by (cases "q = p") auto
    then show ?thesis by (auto simp: fs_node_def split: if_splits)
  qed
qed (use assms(2) fs_wfD [OF assms(1)] in \<open>auto simp: hm_wf_insert split: if_splits\<close>)

lemma make_dirs_wf:
  "fs_wf fs \<Longrightarrow> fs_node q fs = Some Dir \<Longrightarrow> dirs_chain q ps \<Longrightarrow>
     fs_wf (snd (make_dirs ps fs))
     \<and> (fst (make_dirs ps fs) = Inr () \<longrightarrow> fs_node (last (q # ps)) (snd (make_dirs ps fs)) = Some Dir)"
proof (induction ps arbitrary: q fs)
  case (Cons p ps)
  show ?case
  proof (cases "fs_node p fs")
    case None
    have "fs_wf (fs\<lparr> fs_tree := hm_insert p Dir (fs_tree fs) \<rparr>)"
      using Cons.prems None by (intro fs_wf_new_dir) auto
    moreover have "fs_node p (fs\<lparr> fs_tree := hm_insert p Dir (fs_tree fs) \<rparr>) = Some Dir"
      using Cons.prems by (simp add: fs_node_def)
    ultimately show ?thesis using Cons.IH Cons.prems None by simp
  next
    case (Some n)
    then show ?thesis using Cons.IH Cons.prems by (cases n) auto
  qed
qed simp

lemma dirs_chain_prefixes: "dirs_chain [] (path_prefixes p @ (if p = [] then [] else [p]))"
proof -
  have "dirs_chain (take k p) (map (\<lambda>n. take n p) [Suc k..<Suc (length p)])" if "k \<le> length p" for k
    using that
  proof (induction "length p - k" arbitrary: k)
    case (Suc m)
    then have k: "Suc k \<le> length p" by simp
    then have "[Suc k..<Suc (length p)] = Suc k # [Suc (Suc k)..<Suc (length p)]"
      by (simp add: upt_conv_Cons del: upt_Suc)
    moreover have "butlast (take (Suc k) p) = take k p" using k by (simp add: butlast_take)
    moreover have "take (Suc k) p \<noteq> []" using k by auto
    moreover have "dirs_chain (take (Suc k) p) (map (\<lambda>n. take n p) [Suc (Suc k)..<Suc (length p)])"
      by (rule Suc.hyps(1)) (use Suc.hyps(2) k in simp_all)
    ultimately show ?case by (simp del: upt_Suc)
  qed simp
  from this [of 0] show ?thesis
    by (cases "p = []") (simp_all add: path_prefixes_def Suc_le_eq)
qed

lemma create_dir_all_wf: "fs_wf fs \<Longrightarrow> fs_wf (snd (fs_create_dir_all p fs))"
  using make_dirs_wf [OF _ _ dirs_chain_prefixes] by (simp add: fs_create_dir_all_def fs_node_def)

lemma create_dir_all_dir:
  "fs_wf fs \<Longrightarrow> fs_create_dir_all p fs = (Inr (), fs') \<Longrightarrow> fs_node p fs' = Some Dir"
  using make_dirs_wf [OF _ _ dirs_chain_prefixes, of fs p]
  by (cases "p = []") (simp_all add: fs_create_dir_all_def fs_node_def)

lemma create_dir_all_grows: "grows fs (snd (fs_create_dir_all p fs))"
  by (simp add: fs_create_dir_all_def make_dirs_grows)

lemma create_dir_all_new:
  assumes "fs_node q (snd (fs_create_dir_all p fs)) = Some Dir"
  shows "fs_node q fs = Some Dir \<or> (\<exists>n\<ge>1. q = take n p)"
proof -
  consider "fs_node q fs = Some Dir" | n where "1 \<le> n" "q = take n p" | "p \<noteq> []" "q = p"
    using make_dirs_new [OF assms [unfolded fs_create_dir_all_def]]
    by (auto simp: path_prefixes_def split: if_splits)
  then show ?thesis
  proof cases
    case 3
    then have "1 \<le> length p \<and> q = take (length p) p" by (simp add: Suc_le_eq)
    then show ?thesis by blast
  qed auto
qed

lemma remove_file_cases:
  assumes "fs_wf fs"
  shows "snd (fs_remove_file p fs) = fs \<or> removes {p} fs (snd (fs_remove_file p fs))"
proof (cases "fs_node p fs")
  case (Some n)
  show ?thesis
  proof (cases n)
    case (File i)
    then have "\<forall>q n. map_of (fs_tree fs) q = Some n \<longrightarrow> butlast q \<noteq> p"
      using fs_wfD(5) [OF assms] Some by fastforce
    then have "removes {p} fs (fs\<lparr> fs_tree := hm_remove p (fs_tree fs) \<rparr>)"
      by (auto simp: removes_def hm_wf_remove restrict_map_def fun_eq_iff)
    then show ?thesis using Some File by (simp add: fs_remove_file_def)
  qed (simp add: fs_remove_file_def Some)
qed (simp add: fs_remove_file_def)

lemma under_butlast: "under p (butlast q) \<Longrightarrow> under p q"
proof -
  assume u: "under p (butlast q)"
  then have "length p \<le> length (butlast q)"
    unfolding under_def by (metis length_take min.cobounded1)
  then have "take (length p) (butlast q) = take (length p) q"
    by (simp add: butlast_conv_take)
  then show ?thesis using u by (simp add: under_def)
qed

lemma map_of_filter_paths: "map_of (filter (\<lambda>e. \<not> P (fst e)) m) = map_of m |` (- {q. P q})"
  by (induction m) (auto simp: restrict_map_def fun_eq_iff)

lemma remove_dir_all_cases:
  "snd (fs_remove_dir_all p fs) = fs \<or> removes {q. under p q} fs (snd (fs_remove_dir_all p fs))"
proof (cases "fs_node p fs = Some Dir")
  case True
  have "hm_wf (fs_tree fs) \<Longrightarrow> hm_wf (filter (\<lambda>e. \<not> under p (fst e)) (fs_tree fs))"
    by (simp add: hm_wf_def distinct_map_filter)
  then show ?thesis
    using True by (simp add: fs_remove_dir_all_def removes_def map_of_filter_paths under_butlast)
next
  case False
  then show ?thesis
    by (simp add: fs_remove_dir_all_def split: option.split node.split)
qed

end
