(* ===== verification/Server_State.thy ===== *)
theory Server_State
  imports Registry Metrics Server_Config Binpkg_Repo File_System
begin

text \<open>
  The server's shared state (\<open>crates/server/src/state.rs\<close>), its persistence
  (\<open>persistence.rs\<close>) and the eviction of old workorders.

  A channel is present in its map or not; what was sent on the progress channels
  is the history \<open>st_events\<close>, oldest first, and the commands given to Docker are
  the history \<open>st_docker\<close>.  The JSON files of the state directory are a map from names
  to contents; its blobs, trees and staged runtime directories are the file system
  \<open>st_store\<close>, and the binary package directory is a field of its own.  The JSON codec of \<open>serde_json\<close> is the parameter \<open>json_codec\<close>.
\<close>

section \<open>State\<close>

datatype docker_command =
    StopContainer string
  | RemoveContainer string

record exported_signing_key =
  sk_fingerprint :: string
  sk_armored_key :: string

record app_state =
  st_config :: server_config
  st_auth :: cert_registry
  st_clients :: client_registry
  st_workorders :: "(workorder_id, workorder) hash_map"
  st_results :: "(workorder_id, workorder_result) hash_map"
  st_progress_txs :: "(workorder_id, unit) hash_map"
  st_raw_output_txs :: "(workorder_id, unit) hash_map"
  st_stdin_txs :: "(workorder_id, unit) hash_map"
  st_worker_permits :: nat
  st_container_ids :: "(workorder_id, string) hash_map"
  st_image_last_used :: "(string, timestamp) hash_map"
  st_staged_references :: "(workorder_id, snapshot_reference_set) hash_map"
  st_metrics :: metrics
  st_signing_key :: "exported_signing_key option"
  st_files :: "(string, string) hash_map"
  st_binpkgs :: binpkg_dir
  st_store :: fs
  st_events :: "build_progress_event list"
  st_docker :: "docker_command list"

text \<open>The workorders a status test selects.\<close>

definition is_active :: "workorder \<Rightarrow> bool" where
  "is_active w \<longleftrightarrow> \<not> is_terminal (wo_status w)"

definition active_count :: "(workorder_id, workorder) hash_map \<Rightarrow> nat" where
  "active_count ws = length (filter (\<lambda>p. is_active (snd p)) ws)"

section \<open>Persistence\<close>

record json_codec =
  enc_workorders :: "(workorder_id, workorder) hash_map \<Rightarrow> string option"
  dec_workorders :: "string \<Rightarrow> (workorder_id, workorder) hash_map option"
  enc_results :: "(workorder_id, workorder_result) hash_map \<Rightarrow> string option"
  dec_results :: "string \<Rightarrow> (workorder_id, workorder_result) hash_map option"
  enc_clients :: "client_registry \<Rightarrow> string option"
  dec_clients :: "string \<Rightarrow> client_registry option"

type_synonym state_files = "(string, string) hash_map"

text \<open>The file system after each operation of the replacement: the temporary file holds
  some prefix of the text while it is written, then all of it, then it is renamed.\<close>

definition atomic_replace_states ::
    "string \<Rightarrow> string \<Rightarrow> string \<Rightarrow> state_files \<Rightarrow> state_files list" where
  "atomic_replace_states unique name json files =
     (let temp = ''.'' @ name @ ''.tmp-'' @ unique in
      files # map (\<lambda>n. hm_insert temp (take n json) files) [0..<Suc (length json)]
        @ [hm_insert name json (hm_remove temp (hm_insert temp json files))])"

definition write_json_with_atomic_replace ::
    "string \<Rightarrow> string \<Rightarrow> string \<Rightarrow> state_files \<Rightarrow> state_files" where
  "write_json_with_atomic_replace unique name json files =
     (let temp = ''.'' @ name @ ''.tmp-'' @ unique in
      hm_insert name json (hm_remove temp (hm_insert temp json files)))"

definition save_json ::
    "string \<Rightarrow> string \<Rightarrow> string option \<Rightarrow> state_files \<Rightarrow> state_files" where
  "save_json unique name text files =
     (case text of None \<Rightarrow> files
      | Some json \<Rightarrow> write_json_with_atomic_replace unique name json files)"

definition save_workorders ::
    "json_codec \<Rightarrow> string \<Rightarrow> (workorder_id, workorder) hash_map \<Rightarrow> state_files \<Rightarrow> state_files" where
  "save_workorders j unique ws = save_json unique ''workorders.json'' (enc_workorders j ws)"

definition save_results ::
    "json_codec \<Rightarrow> string \<Rightarrow> (workorder_id, workorder_result) hash_map \<Rightarrow> state_files \<Rightarrow> state_files" where
  "save_results j unique rs = save_json unique ''results.json'' (enc_results j rs)"

definition save_clients ::
    "json_codec \<Rightarrow> string \<Rightarrow> client_registry \<Rightarrow> state_files \<Rightarrow> state_files" where
  "save_clients j unique cs = save_json unique ''clients.json'' (enc_clients j cs)"

definition reset_in_flight :: "timestamp \<Rightarrow> workorder \<Rightarrow> workorder" where
  "reset_in_flight now w =
     (if wo_status w = Provisioning \<or> wo_status w = Building
      then w\<lparr> wo_status := Pending, wo_updated_at := now \<rparr> else w)"

definition load_workorders ::
    "json_codec \<Rightarrow> timestamp \<Rightarrow> state_files \<Rightarrow> string + (workorder_id, workorder) hash_map" where
  "load_workorders j now files =
     (case map_of files ''workorders.json'' of
        None \<Rightarrow> Inr []
      | Some json \<Rightarrow>
          rbind (ok_or ''Failed to parse workorders.json'' (dec_workorders j json))
            (\<lambda>ws. Inr (map (\<lambda>(k, w). (k, reset_in_flight now w)) ws)))"

definition load_results ::
    "json_codec \<Rightarrow> state_files \<Rightarrow> string + (workorder_id, workorder_result) hash_map" where
  "load_results j files =
     (case map_of files ''results.json'' of
        None \<Rightarrow> Inr []
      | Some json \<Rightarrow> ok_or ''Failed to parse results.json'' (dec_results j json))"

definition load_clients :: "json_codec \<Rightarrow> state_files \<Rightarrow> string + client_registry" where
  "load_clients j files =
     (case map_of files ''clients.json'' of
        None \<Rightarrow> Inr []
      | Some json \<Rightarrow>
          rbind (ok_or ''Failed to parse clients.json'' (dec_clients j json))
            (\<lambda>cs. Inr (map (\<lambda>(k, c). (k, c\<lparr> cs_active_workorder := None \<rparr>)) cs)))"

definition periodic_save :: "json_codec \<Rightarrow> string \<Rightarrow> app_state \<Rightarrow> app_state" where
  "periodic_save j unique s =
     s\<lparr> st_files := save_clients j unique (registry_snapshot (st_clients s))
          (save_workorders j unique (st_workorders s)
            (save_results j unique (st_results s) (st_files s))) \<rparr>"

section \<open>Construction, also after a restart\<close>

definition unwrap_or_default :: "'e + 'a list \<Rightarrow> 'a list" where
  "unwrap_or_default r = (case r of Inl _ \<Rightarrow> [] | Inr x \<Rightarrow> x)"

definition app_state_new ::
    "json_codec \<Rightarrow> (string \<Rightarrow> string option) \<Rightarrow> server_config \<Rightarrow> exported_signing_key option
     \<Rightarrow> timestamp \<Rightarrow> state_files \<Rightarrow> binpkg_dir \<Rightarrow> fs \<Rightarrow> app_state" where
  "app_state_new j parse_header_name config signing_key now files binpkgs store =
     (let ws = unwrap_or_default (load_workorders j now files);
          rs = unwrap_or_default (load_results j files);
          cs = unwrap_or_default (load_clients j files);
          live = map (\<lambda>p. (fst p, ())) (filter (\<lambda>p. is_active (snd p)) ws)
      in \<lparr> st_config = config,
           st_auth = cert_registry_new parse_header_name (sc_auth config),
           st_clients = from_persisted cs,
           st_workorders = ws,
           st_results = rs,
           st_progress_txs = live,
           st_raw_output_txs = live,
           st_stdin_txs = [],
           st_worker_permits = sc_max_workers config,
           st_container_ids = [],
           st_image_last_used = [],
           st_staged_references = [],
           st_metrics = metrics_new,
           st_signing_key = signing_key,
           st_files = files,
           st_binpkgs = binpkgs,
           st_store = store,
           st_events = [],
           st_docker = [] \<rparr>)"

section \<open>Channels and tracked references\<close>

definition create_progress_channel :: "workorder_id \<Rightarrow> app_state \<Rightarrow> app_state" where
  "create_progress_channel w s =
     s\<lparr> st_raw_output_txs := hm_insert w () (st_raw_output_txs s),
        st_progress_txs := hm_insert w () (st_progress_txs s) \<rparr>"

definition subscribe_progress :: "workorder_id \<Rightarrow> app_state \<Rightarrow> bool" where
  "subscribe_progress w s \<longleftrightarrow> map_of (st_progress_txs s) w \<noteq> None"

definition subscribe_raw_output :: "workorder_id \<Rightarrow> app_state \<Rightarrow> bool" where
  "subscribe_raw_output w s \<longleftrightarrow> map_of (st_raw_output_txs s) w \<noteq> None"

definition create_stdin_channel :: "workorder_id \<Rightarrow> app_state \<Rightarrow> app_state" where
  "create_stdin_channel w s = s\<lparr> st_stdin_txs := hm_insert w () (st_stdin_txs s) \<rparr>"

definition remove_workorder_channels :: "workorder_id \<Rightarrow> app_state \<Rightarrow> app_state" where
  "remove_workorder_channels w s =
     s\<lparr> st_progress_txs := hm_remove w (st_progress_txs s),
        st_raw_output_txs := hm_remove w (st_raw_output_txs s),
        st_stdin_txs := hm_remove w (st_stdin_txs s) \<rparr>"

definition track_staged_workorder_references ::
    "workorder_id \<Rightarrow> snapshot_reference_set \<Rightarrow> app_state \<Rightarrow> app_state" where
  "track_staged_workorder_references w refs s =
     s\<lparr> st_staged_references := hm_insert w refs (st_staged_references s) \<rparr>"

definition clear_staged_workorder_references :: "workorder_id \<Rightarrow> app_state \<Rightarrow> app_state" where
  "clear_staged_workorder_references w s =
     s\<lparr> st_staged_references := hm_remove w (st_staged_references s) \<rparr>"

section \<open>Eviction\<close>

text \<open>The six removals of one evicted workorder.\<close>

definition evict_workorder :: "workorder_id \<Rightarrow> app_state \<Rightarrow> app_state" where
  "evict_workorder w s =
     s\<lparr> st_workorders := hm_remove w (st_workorders s),
        st_results := hm_remove w (st_results s),
        st_progress_txs := hm_remove w (st_progress_txs s),
        st_raw_output_txs := hm_remove w (st_raw_output_txs s),
        st_stdin_txs := hm_remove w (st_stdin_txs s),
        st_container_ids := hm_remove w (st_container_ids s) \<rparr>"

definition stale_ids :: "timestamp \<Rightarrow> (workorder_id, workorder) hash_map \<Rightarrow> workorder_id list" where
  "stale_ids cutoff ws =
     map fst (filter (\<lambda>p. is_terminal (wo_status (snd p)) \<and> wo_updated_at (snd p) < cutoff) ws)"

definition excess_ids :: "nat \<Rightarrow> (workorder_id, workorder) hash_map \<Rightarrow> workorder_id list" where
  "excess_ids cap ws =
     (if cap > 0 \<and> length ws > cap then
        let excess = length ws - cap;
            terminal = map (\<lambda>p. (fst p, wo_updated_at (snd p)))
              (filter (\<lambda>p. is_terminal (wo_status (snd p))) ws)
        in map fst (take excess (sort_key snd terminal))
      else [])"

definition evict_workorders :: "timestamp \<Rightarrow> app_state \<Rightarrow> nat \<times> app_state" where
  "evict_workorders now s =
     (let cutoff = now - duration_hours (as_i64 (sc_retention_hours (st_config s)));
          stale = stale_ids cutoff (st_workorders s);
          s1 = fold evict_workorder stale s;
          over = excess_ids (sc_max_retained_workorders (st_config s)) (st_workorders s1);
          s2 = fold evict_workorder over s1
      in (length stale + length over, s2))"

section \<open>Laws of eviction\<close>

lemma fold_evict_fields:
  "st_workorders (fold evict_workorder ids s) = filter (\<lambda>p. fst p \<notin> set ids) (st_workorders s)"
  "st_results (fold evict_workorder ids s) = filter (\<lambda>p. fst p \<notin> set ids) (st_results s)"
  "st_progress_txs (fold evict_workorder ids s) = filter (\<lambda>p. fst p \<notin> set ids) (st_progress_txs s)"
  "st_raw_output_txs (fold evict_workorder ids s) = filter (\<lambda>p. fst p \<notin> set ids) (st_raw_output_txs s)"
  "st_stdin_txs (fold evict_workorder ids s) = filter (\<lambda>p. fst p \<notin> set ids) (st_stdin_txs s)"
  "st_container_ids (fold evict_workorder ids s) = filter (\<lambda>p. fst p \<notin> set ids) (st_container_ids s)"
  "st_config (fold evict_workorder ids s) = st_config s"
  "st_clients (fold evict_workorder ids s) = st_clients s"
  "st_metrics (fold evict_workorder ids s) = st_metrics s"
  "st_worker_permits (fold evict_workorder ids s) = st_worker_permits s"
  "st_events (fold evict_workorder ids s) = st_events s"
  "st_auth (fold evict_workorder ids s) = st_auth s"
  "st_staged_references (fold evict_workorder ids s) = st_staged_references s"
  "st_files (fold evict_workorder ids s) = st_files s"
  "st_store (fold evict_workorder ids s) = st_store s"
  by (induction ids arbitrary: s)
    (simp_all add: evict_workorder_def hm_remove_def conj_commute)

lemma map_of_filter_keys:
  "map_of (filter (\<lambda>p. fst p \<notin> A) m) k = (if k \<in> A then None else map_of m k)"
  by (induction m) auto

lemma hm_wf_filter: "hm_wf m \<Longrightarrow> hm_wf (filter P m)"
  by (simp add: hm_wf_def distinct_map_filter)

lemma hm_wf_in_set: "hm_wf m \<Longrightarrow> (k, v) \<in> set m \<longleftrightarrow> map_of m k = Some v"
  by (simp add: hm_wf_def)

lemma length_filter_keys:
  assumes "hm_wf m" "distinct ids" "set ids \<subseteq> fst ` set m"
  shows "length (filter (\<lambda>p. fst p \<notin> set ids) m) = length m - length ids"
proof -
  have "length (filter (\<lambda>p. fst p \<notin> set ids) m) = length (filter (\<lambda>k. k \<notin> set ids) (map fst m))"
    by (simp add: filter_map o_def)
  also have "\<dots> = card (set (map fst m) - set ids)"
    using assms(1) by (subst distinct_card [symmetric]) (auto simp: hm_wf_def intro!: arg_cong [where f = card])
  also have "\<dots> = length m - length ids"
    using assms by (subst card_Diff_subset) (auto simp: hm_wf_def distinct_card [of "map fst m", simplified] distinct_card)
  finally show ?thesis .
qed

lemma stale_idsD:
  assumes "hm_wf ws" "map_of ws w = Some wo" "w \<in> set (stale_ids cutoff ws)"
  shows "is_terminal (wo_status wo) \<and> wo_updated_at wo < cutoff"
  using assms by (auto simp: stale_ids_def hm_wf_in_set)

lemma stale_ids_distinct: "hm_wf ws \<Longrightarrow> distinct (stale_ids cutoff ws)"
  by (simp add: stale_ids_def hm_wf_def distinct_map_filter)

lemma stale_ids_keys: "set (stale_ids cutoff ws) \<subseteq> fst ` set ws"
  by (auto simp: stale_ids_def)

definition terminal_ages :: "(workorder_id, workorder) hash_map \<Rightarrow> (workorder_id \<times> timestamp) list" where
  "terminal_ages ws = map (\<lambda>p. (fst p, wo_updated_at (snd p)))
     (filter (\<lambda>p. is_terminal (wo_status (snd p))) ws)"

lemma excess_ids_eq:
  "excess_ids cap ws = (if cap > 0 \<and> length ws > cap
     then map fst (take (length ws - cap) (sort_key snd (terminal_ages ws))) else [])"
  by (simp add: excess_ids_def terminal_ages_def Let_def)

lemma terminal_ages_keys: "map fst (terminal_ages ws) = map fst (filter (\<lambda>p. is_terminal (wo_status (snd p))) ws)"
  by (simp add: terminal_ages_def)

lemma excess_ids_distinct: "hm_wf ws \<Longrightarrow> distinct (excess_ids cap ws)"
proof -
  assume "hm_wf ws"
  then have "distinct (map fst (terminal_ages ws))"
    by (simp add: terminal_ages_keys hm_wf_def distinct_map_filter)
  then have "distinct (map fst (sort_key snd (terminal_ages ws)))"
    by (metis distinct_map distinct_sort set_sort)
  then have "distinct (take n (map fst (sort_key snd (terminal_ages ws))))" for n
    by (rule distinct_take)
  then show ?thesis
    by (simp add: excess_ids_eq take_map)
qed

lemma excess_ids_keys: "set (excess_ids cap ws) \<subseteq> fst ` set ws"
  by (auto simp: excess_ids_eq terminal_ages_def dest!: in_set_takeD)

lemma excess_idsD:
  assumes "hm_wf ws" "map_of ws w = Some wo" "w \<in> set (excess_ids cap ws)"
  shows "is_terminal (wo_status wo)"
proof -
  obtain t where "(w, t) \<in> set (terminal_ages ws)"
    using assms(3) by (auto simp: excess_ids_eq split: if_splits dest!: in_set_takeD)
  then show ?thesis
    using assms(1,2) by (auto simp: terminal_ages_def hm_wf_in_set)
qed

lemma excess_ids_oldest:
  assumes wf: "hm_wf ws" and r: "map_of ws r = Some a" "r \<in> set (excess_ids cap ws)"
    and k: "map_of ws k = Some b" "is_terminal (wo_status b)" "k \<notin> set (excess_ids cap ws)"
  shows "wo_updated_at a \<le> wo_updated_at b"
proof -
  let ?t = "sort_key snd (terminal_ages ws)" and ?n = "length ws - cap"
  have e: "excess_ids cap ws = map fst (take ?n ?t)"
    using r(2) by (auto simp: excess_ids_eq split: if_splits)
  obtain t where t: "(r, t) \<in> set (take ?n ?t)" using r(2) e by auto
  then have "(r, t) \<in> set (terminal_ages ws)" by (metis in_set_takeD set_sort)
  then have "t = wo_updated_at a"
    using wf r(1) by (auto simp: terminal_ages_def hm_wf_in_set)
  have "(k, wo_updated_at b) \<in> set ?t"
    using k(1,2) by (force simp: terminal_ages_def dest: map_of_SomeD)
  moreover have "(k, wo_updated_at b) \<notin> set (take ?n ?t)"
    using k(3) e by force
  ultimately have "(k, wo_updated_at b) \<in> set (drop ?n ?t)"
    by (metis UnE append_take_drop_id set_append)
  moreover have "sorted (map snd (take ?n ?t) @ map snd (drop ?n ?t))"
    by (simp flip: map_append)
  then have "\<forall>x\<in>snd ` set (take ?n ?t). \<forall>y\<in>snd ` set (drop ?n ?t). x \<le> y"
    by (simp add: sorted_append)
  ultimately have "t \<le> wo_updated_at b"
    using t by (metis imageI snd_conv)
  then show ?thesis by (simp add: \<open>t = _\<close>)
qed

lemma terminal_ages_length: "length (terminal_ages ws) = length ws - active_count ws"
proof -
  have "length (filter (\<lambda>p. is_terminal (wo_status (snd p))) ws) + active_count ws = length ws"
    unfolding active_count_def is_active_def
    by (rule sum_length_filter_compl)
  then show ?thesis by (simp add: terminal_ages_def)
qed

lemma excess_ids_length:
  "cap > 0 \<Longrightarrow> length ws - length (excess_ids cap ws) \<le> max cap (active_count ws)"
  by (auto simp: excess_ids_eq terminal_ages_length min_def)

text \<open>What an eviction pass retains, as a function of the workorders alone.\<close>

definition retained_workorders ::
    "timestamp \<Rightarrow> nat \<Rightarrow> (workorder_id, workorder) hash_map \<Rightarrow> (workorder_id, workorder) hash_map" where
  "retained_workorders cutoff cap ws =
     (let ws1 = filter (\<lambda>p. fst p \<notin> set (stale_ids cutoff ws)) ws
      in filter (\<lambda>p. fst p \<notin> set (excess_ids cap ws1)) ws1)"

definition fresh_workorders ::
    "timestamp \<Rightarrow> (workorder_id, workorder) hash_map \<Rightarrow> (workorder_id, workorder) hash_map" where
  "fresh_workorders cutoff ws = filter (\<lambda>p. fst p \<notin> set (stale_ids cutoff ws)) ws"

lemma retained_eq:
  "retained_workorders cutoff cap ws = filter (\<lambda>p. fst p \<notin> set (excess_ids cap (fresh_workorders cutoff ws)))
     (fresh_workorders cutoff ws)"
  by (simp add: retained_workorders_def fresh_workorders_def Let_def)

lemma fresh_lookup:
  "map_of (fresh_workorders cutoff ws) w = (if w \<in> set (stale_ids cutoff ws) then None else map_of ws w)"
  unfolding fresh_workorders_def by (rule map_of_filter_keys)

lemma retained_lookup:
  "map_of (retained_workorders cutoff cap ws) w =
     (if w \<in> set (excess_ids cap (fresh_workorders cutoff ws)) then None
      else map_of (fresh_workorders cutoff ws) w)"
  unfolding retained_eq by (rule map_of_filter_keys)

lemma hm_wf_fresh: "hm_wf ws \<Longrightarrow> hm_wf (fresh_workorders cutoff ws)"
  unfolding fresh_workorders_def by (rule hm_wf_filter)

lemma fresh_terminal:
  assumes "map_of (fresh_workorders cutoff ws) k = Some b" "is_terminal (wo_status b)"
  shows "cutoff \<le> wo_updated_at b"
proof (rule ccontr)
  assume "\<not> cutoff \<le> wo_updated_at b"
  then have "k \<in> set (stale_ids cutoff ws)"
    using assms by (force simp: fresh_lookup stale_ids_def split: if_splits dest: map_of_SomeD)
  then show False using assms(1) by (simp add: fresh_lookup)
qed

lemma retained_active:
  assumes "hm_wf ws" "map_of ws w = Some wo" "is_active wo"
  shows "map_of (retained_workorders cutoff cap ws) w = Some wo"
proof -
  have "w \<notin> set (stale_ids cutoff ws)"
    using stale_idsD [OF assms(1,2)] assms(3) by (auto simp: is_active_def)
  then have "map_of (fresh_workorders cutoff ws) w = Some wo"
    using assms(2) by (simp add: fresh_lookup)
  then show ?thesis
    using excess_idsD [OF hm_wf_fresh [OF assms(1)]] assms(3)
    by (auto simp: retained_lookup is_active_def)
qed

lemma retained_oldest_first:
  assumes wf: "hm_wf ws" and r: "map_of ws r = Some a" "map_of (retained_workorders cutoff cap ws) r = None"
    and k: "map_of (retained_workorders cutoff cap ws) k = Some b" "is_terminal (wo_status b)"
  shows "wo_updated_at a \<le> wo_updated_at b"
proof (cases "r \<in> set (stale_ids cutoff ws)")
  case True
  then have "wo_updated_at a < cutoff" using stale_idsD [OF wf r(1)] by blast
  moreover have "cutoff \<le> wo_updated_at b"
    using fresh_terminal k by (auto simp: retained_lookup split: if_splits)
  ultimately show ?thesis by simp
next
  case False
  then have "map_of (fresh_workorders cutoff ws) r = Some a" using r(1) by (simp add: fresh_lookup)
  then show ?thesis
    using excess_ids_oldest [OF hm_wf_fresh [OF wf]] r(2) k by (auto simp: retained_lookup split: if_splits)
qed

lemma fresh_length: "hm_wf ws \<Longrightarrow>
    length (fresh_workorders cutoff ws) = length ws - length (stale_ids cutoff ws)"
  unfolding fresh_workorders_def
  by (intro length_filter_keys stale_ids_distinct stale_ids_keys)

lemma retained_length: "hm_wf ws \<Longrightarrow> length (retained_workorders cutoff cap ws)
    = length (fresh_workorders cutoff ws) - length (excess_ids cap (fresh_workorders cutoff ws))"
  unfolding retained_eq
  by (intro length_filter_keys excess_ids_distinct excess_ids_keys hm_wf_fresh)

lemma length_ids_le:
  "distinct ids \<Longrightarrow> set ids \<subseteq> fst ` set m \<Longrightarrow> length ids \<le> length m"
  by (metis card_length card_mono distinct_card finite_set image_set length_map order_trans)

lemma active_count_retained:
  assumes "hm_wf ws"
  shows "active_count (retained_workorders cutoff cap ws) = active_count (fresh_workorders cutoff ws)"
proof -
  have "filter (\<lambda>p. is_active (snd p)) (retained_workorders cutoff cap ws)
      = filter (\<lambda>p. is_active (snd p)) (fresh_workorders cutoff ws)"
    unfolding retained_eq filter_filter
  proof (rule filter_cong)
    fix p assume "p \<in> set (fresh_workorders cutoff ws)"
    then have "map_of (fresh_workorders cutoff ws) (fst p) = Some (snd p)"
      by (simp add: hm_wf_in_set [OF hm_wf_fresh [OF assms], symmetric])
    then show "(fst p \<notin> set (excess_ids cap (fresh_workorders cutoff ws)) \<and> is_active (snd p)) = is_active (snd p)"
      using excess_idsD [OF hm_wf_fresh [OF assms]] by (auto simp: is_active_def)
  qed simp
  then show ?thesis by (simp add: active_count_def)
qed

lemma retained_bound:
  "hm_wf ws \<Longrightarrow> 0 < cap \<Longrightarrow> length (retained_workorders cutoff cap ws)
     \<le> max cap (active_count (retained_workorders cutoff cap ws))"
  by (simp only: retained_length active_count_retained excess_ids_length)

lemma evicted_count:
  assumes "hm_wf ws"
  shows "length (stale_ids cutoff ws) + length (excess_ids cap (fresh_workorders cutoff ws))
    = length ws - length (retained_workorders cutoff cap ws)"
proof -
  have "length (stale_ids cutoff ws) \<le> length ws"
    by (intro length_ids_le stale_ids_distinct stale_ids_keys assms)
  moreover have "length (excess_ids cap (fresh_workorders cutoff ws)) \<le> length (fresh_workorders cutoff ws)"
    by (intro length_ids_le excess_ids_distinct excess_ids_keys hm_wf_fresh assms)
  ultimately show ?thesis by (simp add: retained_length fresh_length assms)
qed

lemma evict_workorders_eq:
  fixes s now
  defines "cutoff \<equiv> now - duration_hours (as_i64 (sc_retention_hours (st_config s)))"
    and "cap \<equiv> sc_max_retained_workorders (st_config s)"
  shows "st_workorders (snd (evict_workorders now s)) = retained_workorders cutoff cap (st_workorders s)"
    "fst (evict_workorders now s) = length (stale_ids cutoff (st_workorders s))
       + length (excess_ids cap (fresh_workorders cutoff (st_workorders s)))"
  unfolding cutoff_def cap_def
  by (simp_all add: evict_workorders_def Let_def fold_evict_fields retained_eq fresh_workorders_def)

section \<open>Properties\<close>


text \<open>The sample state: two finished workorders and one in progress, with a cap of one.\<close>

definition sample_workorder :: "workorder_id \<Rightarrow> client_id \<Rightarrow> workorder_status \<Rightarrow> timestamp \<Rightarrow> workorder" where
  "sample_workorder w c status at =
     \<lparr> wo_id = w, wo_client_id = c, wo_role = Main, wo_atoms = [''app-misc/hello''],
       wo_emerge_args = [], wo_portage_config = sample_portage_config,
       wo_system_id = sample_system_identity, wo_trace_context = None, wo_status = status,
       wo_created_at = at, wo_updated_at = at \<rparr>"

definition sample_codec :: json_codec where
  "sample_codec = \<lparr> enc_workorders = (\<lambda>_. None), dec_workorders = (\<lambda>_. None),
     enc_results = (\<lambda>_. None), dec_results = (\<lambda>_. None),
     enc_clients = (\<lambda>_. None), dec_clients = (\<lambda>_. None) \<rparr>"

definition sample_state :: "nat \<Rightarrow> workorder list \<Rightarrow> app_state" where
  "sample_state cap ws =
     (app_state_new sample_codec Some
       (server_config_default\<lparr> sc_max_retained_workorders := cap \<rparr>) None 0 [] \<lparr> bd_files = [], bd_dirs = [] \<rparr> empty_fs)
     \<lparr> st_workorders := map (\<lambda>w. (wo_id w, w)) ws,
       st_progress_txs := map (\<lambda>w. (wo_id w, ())) ws,
       st_raw_output_txs := map (\<lambda>w. (wo_id w, ())) ws \<rparr>"


end
