(* ===== verification/Snapshot_Store.thy ===== *)
theory Snapshot_Store
  imports File_System
begin

text \<open>
  The content-addressed stores of the server: blobs (\<open>crates/server/src/blob_store.rs\<close>), trees
  (\<open>tree_store.rs\<close>) and the choice of compressed variants (\<open>crates/types/src/compression.rs\<close>).
  The hash, the compressor and the JSON texts of metadata and trees are parameters; so are
  the answers of the file system to a hard link and to a clone of a file.
\<close>

section \<open>Parameters\<close>

datatype blob_encoding = Zstd

record blob_metadata =
  bm_canonical_digest :: string
  bm_raw_size_bytes :: nat
  bm_last_referenced_at :: timestamp
  bm_encoded_variants :: "(blob_encoding \<times> nat) list"

text \<open>The two structs have the same fields.\<close>

type_synonym tree_metadata = blob_metadata

record store_env =
  se_state_dir :: string
  se_uuid :: string
  se_sha256 :: "bytes \<Rightarrow> string"
  se_zstd :: "bytes \<Rightarrow> string + bytes"
  se_enc_blob_meta :: "blob_metadata \<Rightarrow> bytes"
  se_dec_blob_meta :: "bytes \<Rightarrow> string + blob_metadata"
  se_enc_tree_meta :: "tree_metadata \<Rightarrow> bytes"
  se_dec_tree_meta :: "bytes \<Rightarrow> string + tree_metadata"
  se_enc_tree :: "(string, string) btree_map \<Rightarrow> bytes"
  se_hard_link :: "errno option"
  se_reflink :: "errno option"

definition display_path :: "store_env \<Rightarrow> path \<Rightarrow> string" where
  "display_path env p = se_state_dir env @ ''/'' @ join_with ''/'' p"

section \<open>Compressed variants (compression.rs)\<close>

definition MIN_ZSTD_VARIANT_BYTES :: nat where
  "MIN_ZSTD_VARIANT_BYTES = 64 * 1024"

definition MIN_ZSTD_SAVINGS_NUMERATOR :: nat where
  "MIN_ZSTD_SAVINGS_NUMERATOR = 10"

definition MIN_ZSTD_SAVINGS_DENOMINATOR :: nat where
  "MIN_ZSTD_SAVINGS_DENOMINATOR = 100"

text \<open>The products are those of 64 bit numbers.\<close>

definition compression_is_worthwhile :: "nat \<Rightarrow> nat \<Rightarrow> bool" where
  "compression_is_worthwhile raw_size_bytes encoded_size_bytes \<longleftrightarrow>
     encoded_size_bytes < raw_size_bytes
     \<and> (raw_size_bytes - encoded_size_bytes) * MIN_ZSTD_SAVINGS_DENOMINATOR mod 2 ^ 64
         \<ge> raw_size_bytes * MIN_ZSTD_SAVINGS_NUMERATOR mod 2 ^ 64"

definition encode_zstd_if_worthwhile :: "(bytes \<Rightarrow> string + bytes) \<Rightarrow> bytes \<Rightarrow> string + bytes option" where
  "encode_zstd_if_worthwhile zstd raw_bytes =
     (if length raw_bytes < MIN_ZSTD_VARIANT_BYTES then Inr None
      else rbind (zstd raw_bytes) (\<lambda>encoded.
        if compression_is_worthwhile (length raw_bytes) (length encoded) then Inr (Some encoded)
        else Inr None))"

section \<open>Paths of blobs\<close>

definition BLOBS_SUBDIR :: string where
  "BLOBS_SUBDIR = ''blobs''"

fun file_extension :: "blob_encoding \<Rightarrow> string" where
  "file_extension Zstd = ''zst''"

definition digest_ok :: "string \<Rightarrow> bool" where
  "digest_ok digest \<longleftrightarrow> length digest = 64 \<and> list_all is_hexdigit digest"

definition digest_error :: "string \<Rightarrow> anyhow" where
  "digest_error digest = bail (''invalid sha256 digest '' @ [CHR 0x27] @ digest @ [CHR 0x27])"

definition validate_digest :: "string \<Rightarrow> anyhow + unit" where
  "validate_digest digest = (if \<not> digest_ok digest then Inl (digest_error digest) else Inr ())"

definition file_name :: "string \<Rightarrow> anyhow + string" where
  "file_name digest = rbind (validate_digest digest) (\<lambda>_. Inr (drop 2 digest))"

definition blob_path :: "string \<Rightarrow> anyhow + path" where
  "blob_path digest =
     rbind (validate_digest digest) (\<lambda>_.
     rbind (file_name digest) (\<lambda>name. Inr [BLOBS_SUBDIR, take 2 digest, name]))"

text \<open>\<open>Path::with_extension\<close>: what follows the last dot of the name, unless the dot comes first,
  is replaced.\<close>

definition with_extension :: "string \<Rightarrow> path \<Rightarrow> path" where
  "with_extension ext p =
     butlast p @ [(case rsplit_once (CHR ''.'') (last p) of
                     Some (stem, _) \<Rightarrow> (if stem = [] then last p else stem)
                   | None \<Rightarrow> last p) @ ''.'' @ ext]"

definition encoded_blob_path :: "string \<Rightarrow> blob_encoding \<Rightarrow> anyhow + path" where
  "encoded_blob_path digest encoding =
     rbind (blob_path digest) (\<lambda>p. Inr (with_extension (file_extension encoding) p))"

definition metadata_path :: "string \<Rightarrow> anyhow + path" where
  "metadata_path digest = rbind (blob_path digest) (\<lambda>p. Inr (with_extension ''meta.json'' p))"

section \<open>Writing files\<close>

definition copied_instead :: "errno list" where
  "copied_instead = [EXDEV, EMLINK, EPERM, EOPNOTSUPP]"

definition link_or_copy_into_place :: "store_env \<Rightarrow> path \<Rightarrow> path \<Rightarrow> bool fs_action" where
  "link_or_copy_into_place env source target =
     act_match (fs_hard_link (se_hard_link env) source target) (\<lambda>linked.
       case linked of
         Inr _ \<Rightarrow> act_return True
       | Inl e \<Rightarrow>
           if ah_errno e = Some EEXIST then act_return False
           else if ah_errno e \<notin> Some ` set copied_instead
           then act_fail (with_context (''Failed to link '' @ display_path env source
                  @ '' into '' @ display_path env target) e)
           else
             act_match (fs_create_new target) (\<lambda>created.
               case created of
                 Inl e' \<Rightarrow>
                   if ah_errno e' = Some EEXIST then act_return False
                   else act_fail (with_context (''Failed to create '' @ display_path env target) e')
               | Inr _ \<Rightarrow>
                   act_bind (in_context (''Failed to open '' @ display_path env source) (fs_read source))
                     (\<lambda>bytes.
                   act_bind (in_context (''Failed to copy '' @ display_path env source
                       @ '' into '' @ display_path env target) (fs_write target bytes))
                     (\<lambda>_. act_return True))))"

text \<open>The temporary file is removed on every way out.\<close>

definition write_bytes_atomically :: "store_env \<Rightarrow> path \<Rightarrow> path \<Rightarrow> string \<Rightarrow> bytes \<Rightarrow> bool fs_action" where
  "write_bytes_atomically env parent target stem bytes =
     (let temp = parent @ [stem @ ''.tmp-'' @ se_uuid env] in
      act_bind (in_context (''Failed to write '' @ display_path env temp) (fs_write temp bytes)) (\<lambda>_.
      act_match (link_or_copy_into_place env temp target) (\<lambda>uploaded.
      act_match (fs_remove_file temp) (\<lambda>_.
      act_lift uploaded))))"

definition write_bytes_with_atomic_replace ::
    "store_env \<Rightarrow> path \<Rightarrow> path \<Rightarrow> string \<Rightarrow> bytes \<Rightarrow> unit fs_action" where
  "write_bytes_with_atomic_replace env parent target stem bytes =
     (let temp = parent @ [stem @ ''.tmp-'' @ se_uuid env] in
      act_bind (in_context (''Failed to write '' @ display_path env temp) (fs_write temp bytes)) (\<lambda>_.
      act_match (fs_rename temp target) (\<lambda>renamed.
        case renamed of
          Inr _ \<Rightarrow> act_return ()
        | Inl e \<Rightarrow>
            act_match (fs_remove_file temp) (\<lambda>_.
              act_fail (with_context (''Failed to move '' @ display_path env temp
                @ '' into '' @ display_path env target) e)))))"

definition remove_file_if_exists :: "store_env \<Rightarrow> path \<Rightarrow> unit fs_action" where
  "remove_file_if_exists env p =
     act_match (fs_remove_file p) (\<lambda>r.
       case r of
         Inr _ \<Rightarrow> act_return ()
       | Inl e \<Rightarrow>
           if ah_errno e = Some ENOENT then act_return ()
           else act_fail (with_context (''Failed to remove '' @ display_path env p) e))"

definition create_parent :: "store_env \<Rightarrow> path \<Rightarrow> unit fs_action" where
  "create_parent env target =
     in_context (''Failed to create '' @ display_path env (butlast target)) (fs_create_dir_all (butlast target))"

text \<open>\<open>metadata(&path).await.is_ok()\<close>.\<close>

definition exists_at :: "path \<Rightarrow> bool fs_action" where
  "exists_at p = act_get (\<lambda>fs. fs_node p fs \<noteq> None)"

definition read_json :: "store_env \<Rightarrow> (bytes \<Rightarrow> string + 'm) \<Rightarrow> path \<Rightarrow> 'm fs_action" where
  "read_json env dec p =
     act_bind (in_context (''Failed to read '' @ display_path env p) (fs_read p)) (\<lambda>bytes.
       case dec bytes of
         Inl e \<Rightarrow> act_fail (with_context (''Failed to parse '' @ display_path env p) (bail e))
       | Inr m \<Rightarrow> act_return m)"

section \<open>Metadata of blobs\<close>

definition load_blob_metadata :: "store_env \<Rightarrow> string \<Rightarrow> blob_metadata fs_action" where
  "load_blob_metadata env digest =
     act_bind (act_lift (metadata_path digest)) (read_json env (se_dec_blob_meta env))"

definition persist_blob_metadata :: "store_env \<Rightarrow> string \<Rightarrow> blob_metadata \<Rightarrow> unit fs_action" where
  "persist_blob_metadata env digest metadata =
     act_bind (act_lift (metadata_path digest)) (\<lambda>target.
     act_bind (create_parent env target) (\<lambda>_.
     act_bind (act_lift (file_name digest)) (\<lambda>name.
     write_bytes_with_atomic_replace env (butlast target) target (name @ ''.meta.json'')
       (se_enc_blob_meta env metadata))))"

definition ensure_blob_metadata :: "store_env \<Rightarrow> timestamp \<Rightarrow> string \<Rightarrow> nat \<Rightarrow> blob_metadata fs_action" where
  "ensure_blob_metadata env now digest raw_size_bytes =
     act_match (load_blob_metadata env digest) (\<lambda>loaded.
       case loaded of
         Inr metadata \<Rightarrow>
           if bm_canonical_digest metadata \<noteq> digest
           then act_fail (bail (''blob metadata digest mismatch: expected '' @ digest
                  @ '', got '' @ bm_canonical_digest metadata))
           else if bm_raw_size_bytes metadata \<noteq> raw_size_bytes
           then act_fail (bail (''blob metadata size mismatch for '' @ digest @ '': expected ''
                  @ show_nat raw_size_bytes @ '', got '' @ show_nat (bm_raw_size_bytes metadata)))
           else act_return metadata
       | Inl e \<Rightarrow>
           if is_not_found_error e
           then (let metadata = \<lparr> bm_canonical_digest = digest, bm_raw_size_bytes = raw_size_bytes,
                                  bm_last_referenced_at = now, bm_encoded_variants = [] \<rparr>
                 in act_bind (persist_blob_metadata env digest metadata) (\<lambda>_. act_return metadata))
           else act_fail e)"

definition touch_blob :: "store_env \<Rightarrow> timestamp \<Rightarrow> string \<Rightarrow> timestamp \<Rightarrow> blob_metadata fs_action" where
  "touch_blob env now digest last_referenced_at =
     act_bind (act_lift (validate_digest digest)) (\<lambda>_.
     act_bind (act_lift (blob_path digest)) (\<lambda>target.
     act_bind (in_context (''Failed to stat '' @ display_path env target) (fs_metadata target)) (\<lambda>raw_size_bytes.
     act_bind (ensure_blob_metadata env now digest raw_size_bytes) (\<lambda>metadata.
     let metadata' = metadata\<lparr> bm_last_referenced_at := last_referenced_at \<rparr> in
     act_bind (persist_blob_metadata env digest metadata') (\<lambda>_. act_return metadata')))))"

section \<open>Storing and removing blobs\<close>

record stored_blob =
  sb_digest :: string
  sb_path :: path

record verified_blob_store_result =
  vr_blob :: stored_blob
  vr_uploaded :: bool

record stored_encoded_blob_variant =
  sv_digest :: string
  sv_encoding :: blob_encoding
  sv_path :: path
  sv_encoded_size_bytes :: nat

definition put_variant :: "blob_encoding \<Rightarrow> nat \<Rightarrow> blob_metadata \<Rightarrow> blob_metadata" where
  "put_variant encoding n m =
     m\<lparr> bm_encoded_variants := hm_insert encoding n (bm_encoded_variants m) \<rparr>"

definition store_encoded_blob_variant ::
    "store_env \<Rightarrow> timestamp \<Rightarrow> string \<Rightarrow> nat \<Rightarrow> blob_encoding \<Rightarrow> bytes \<Rightarrow> stored_encoded_blob_variant fs_action" where
  "store_encoded_blob_variant env now digest raw_size_bytes encoding bytes =
     act_bind (ensure_blob_metadata env now digest raw_size_bytes) (\<lambda>metadata.
     if bm_raw_size_bytes metadata \<noteq> raw_size_bytes
     then act_fail (bail (''blob raw size mismatch for '' @ digest @ '': expected ''
            @ show_nat (bm_raw_size_bytes metadata) @ '', got '' @ show_nat raw_size_bytes))
     else
       act_bind (act_lift (encoded_blob_path digest encoding)) (\<lambda>target.
       act_bind (create_parent env target) (\<lambda>_.
       act_bind (act_lift (file_name digest)) (\<lambda>name.
       act_bind (write_bytes_atomically env (butlast target) target
           (name @ ''.'' @ file_extension encoding) bytes) (\<lambda>_.
       act_bind (persist_blob_metadata env digest (put_variant encoding (length bytes) metadata)) (\<lambda>_.
       act_return \<lparr> sv_digest = digest, sv_encoding = encoding, sv_path = target,
                    sv_encoded_size_bytes = length bytes \<rparr>))))))"

definition maybe_store_zstd_variant ::
    "store_env \<Rightarrow> timestamp \<Rightarrow> string \<Rightarrow> bytes \<Rightarrow> stored_encoded_blob_variant option fs_action" where
  "maybe_store_zstd_variant env now digest bytes =
     act_bind (ensure_blob_metadata env now digest (length bytes)) (\<lambda>metadata.
     act_bind (act_lift (encoded_blob_path digest Zstd)) (\<lambda>encoded_path.
     act_bind (exists_at encoded_path) (\<lambda>present.
     if map_of (bm_encoded_variants metadata) Zstd \<noteq> None \<and> present then act_return None
     else
       case encode_zstd_if_worthwhile (se_zstd env) bytes of
         Inl e \<Rightarrow> act_fail (bail e)
       | Inr None \<Rightarrow> act_return None
       | Inr (Some compressed) \<Rightarrow>
           act_bind (store_encoded_blob_variant env now digest (length bytes) Zstd compressed)
             (\<lambda>v. act_return (Some v)))))"

definition store_blob_for_digest ::
    "store_env \<Rightarrow> timestamp \<Rightarrow> string \<Rightarrow> bytes \<Rightarrow> verified_blob_store_result fs_action" where
  "store_blob_for_digest env now digest bytes =
     act_bind (act_lift (validate_digest digest)) (\<lambda>_.
     let actual = se_sha256 env bytes in
     if actual \<noteq> digest
     then act_fail (bail (''blob digest mismatch: expected '' @ digest @ '', got '' @ actual))
     else
       act_bind (act_lift (blob_path digest)) (\<lambda>target.
       act_bind (exists_at target) (\<lambda>present.
       act_bind
         (if present then act_return False
          else
            act_bind (create_parent env target) (\<lambda>_.
            act_bind (act_lift (file_name digest)) (\<lambda>name.
            write_bytes_atomically env (butlast target) target name bytes))) (\<lambda>uploaded.
       act_bind (ensure_blob_metadata env now digest (length bytes)) (\<lambda>_.
       act_bind (maybe_store_zstd_variant env now digest bytes) (\<lambda>_.
       act_bind (touch_blob env now digest now) (\<lambda>_.
       act_return \<lparr> vr_blob = \<lparr> sb_digest = digest, sb_path = target \<rparr>, vr_uploaded = uploaded \<rparr>)))))))"

definition store_blob :: "store_env \<Rightarrow> timestamp \<Rightarrow> bytes \<Rightarrow> stored_blob fs_action" where
  "store_blob env now bytes =
     act_bind (store_blob_for_digest env now (se_sha256 env bytes) bytes) (\<lambda>r. act_return (vr_blob r))"

definition has_blob :: "string \<Rightarrow> bool fs_action" where
  "has_blob digest = act_bind (act_lift (blob_path digest)) exists_at"

definition delete_blob :: "store_env \<Rightarrow> string \<Rightarrow> unit fs_action" where
  "delete_blob env digest =
     act_match (load_blob_metadata env digest) (\<lambda>metadata.
     act_bind (act_lift (blob_path digest)) (\<lambda>raw_path.
     act_bind (remove_file_if_exists env raw_path) (\<lambda>_.
     act_bind
       (case metadata of
          Inl _ \<Rightarrow> act_return ()
        | Inr m \<Rightarrow>
            act_each (\<lambda>encoding.
              act_bind (act_lift (encoded_blob_path digest encoding)) (remove_file_if_exists env))
              (map fst (bm_encoded_variants m))) (\<lambda>_.
     act_bind (act_lift (metadata_path digest)) (remove_file_if_exists env)))))"

section \<open>Listing\<close>

definition strip_meta_json :: "string \<Rightarrow> string option" where
  "strip_meta_json name = strip_suffix ''.meta.json'' name"

text \<open>The files of one shard directory.\<close>

fun shard_records ::
    "store_env \<Rightarrow> string \<Rightarrow> (string \<times> node) list \<Rightarrow> (string \<times> blob_metadata) list
     \<Rightarrow> (string \<times> blob_metadata) list fs_action" where
  "shard_records env shard [] records = act_return records"
| "shard_records env shard ((name, n) # entries) records =
     (case (n, strip_meta_json name) of
        (File _, Some stem) \<Rightarrow>
          act_bind (load_blob_metadata env (shard @ stem)) (\<lambda>metadata.
            shard_records env shard entries (records @ [(shard @ stem, metadata)]))
      | _ \<Rightarrow> shard_records env shard entries records)"

fun all_shards ::
    "store_env \<Rightarrow> (string \<times> node) list \<Rightarrow> (string \<times> blob_metadata) list
     \<Rightarrow> (string \<times> blob_metadata) list fs_action" where
  "all_shards env [] records = act_return records"
| "all_shards env ((shard, n) # shards) records =
     (if n \<noteq> Dir then all_shards env shards records
      else
        act_bind (in_context (''Failed to read '' @ display_path env [BLOBS_SUBDIR, shard])
            (fs_read_dir [BLOBS_SUBDIR, shard])) (\<lambda>entries.
        act_bind (shard_records env shard entries records) (all_shards env shards)))"

definition list_blob_metadata :: "store_env \<Rightarrow> (string \<times> blob_metadata) list fs_action" where
  "list_blob_metadata env =
     act_match (fs_read_dir [BLOBS_SUBDIR]) (\<lambda>r.
       case r of
         Inr shards \<Rightarrow> all_shards env shards []
       | Inl e \<Rightarrow>
           if ah_errno e = Some ENOENT then act_return []
           else act_fail (with_context (''Failed to read '' @ display_path env [BLOBS_SUBDIR]) e))"

section \<open>Trees\<close>

definition TREES_SUBDIR :: string where
  "TREES_SUBDIR = ''trees''"

definition tree_path :: "string \<Rightarrow> anyhow + path" where
  "tree_path digest = rbind (validate_digest digest) (\<lambda>_. Inr [TREES_SUBDIR, digest @ ''.json''])"

definition encoded_tree_path :: "string \<Rightarrow> blob_encoding \<Rightarrow> anyhow + path" where
  "encoded_tree_path digest encoding =
     rbind (validate_digest digest) (\<lambda>_. Inr [TREES_SUBDIR, digest @ ''.'' @ file_extension encoding])"

definition tree_metadata_path :: "string \<Rightarrow> anyhow + path" where
  "tree_metadata_path digest =
     rbind (validate_digest digest) (\<lambda>_. Inr [TREES_SUBDIR, digest @ ''.meta.json''])"

definition load_tree_metadata :: "store_env \<Rightarrow> string \<Rightarrow> tree_metadata fs_action" where
  "load_tree_metadata env digest =
     act_bind (act_lift (tree_metadata_path digest)) (read_json env (se_dec_tree_meta env))"

definition persist_tree_metadata :: "store_env \<Rightarrow> string \<Rightarrow> tree_metadata \<Rightarrow> unit fs_action" where
  "persist_tree_metadata env digest metadata =
     act_bind (act_lift (tree_metadata_path digest)) (\<lambda>target.
     act_bind (create_parent env target) (\<lambda>_.
     write_bytes_with_atomic_replace env (butlast target) target (digest @ ''.meta.json'')
       (se_enc_tree_meta env metadata)))"

definition ensure_tree_metadata :: "store_env \<Rightarrow> timestamp \<Rightarrow> string \<Rightarrow> nat \<Rightarrow> tree_metadata fs_action" where
  "ensure_tree_metadata env now digest raw_size_bytes =
     act_match (load_tree_metadata env digest) (\<lambda>loaded.
       case loaded of
         Inr metadata \<Rightarrow> act_return metadata
       | Inl e \<Rightarrow>
           if is_not_found_error e
           then (let metadata = \<lparr> bm_canonical_digest = digest, bm_raw_size_bytes = raw_size_bytes,
                                  bm_last_referenced_at = now, bm_encoded_variants = [] \<rparr>
                 in act_bind (persist_tree_metadata env digest metadata) (\<lambda>_. act_return metadata))
           else act_fail e)"

definition touch_tree :: "store_env \<Rightarrow> timestamp \<Rightarrow> string \<Rightarrow> timestamp \<Rightarrow> tree_metadata fs_action" where
  "touch_tree env now digest last_referenced_at =
     act_bind (act_lift (validate_digest digest)) (\<lambda>_.
     act_bind (act_lift (tree_path digest)) (\<lambda>target.
     act_bind (in_context (''Failed to stat '' @ display_path env target) (fs_metadata target)) (\<lambda>raw_size_bytes.
     act_bind (ensure_tree_metadata env now digest raw_size_bytes) (\<lambda>metadata.
     let metadata' = metadata\<lparr> bm_last_referenced_at := last_referenced_at \<rparr> in
     act_bind (persist_tree_metadata env digest metadata') (\<lambda>_. act_return metadata')))))"

text \<open>The compressed tree is written in place, not through a temporary file.\<close>

definition maybe_store_tree_zstd_variant :: "store_env \<Rightarrow> timestamp \<Rightarrow> string \<Rightarrow> bytes \<Rightarrow> unit fs_action" where
  "maybe_store_tree_zstd_variant env now digest bytes =
     act_bind (ensure_tree_metadata env now digest (length bytes)) (\<lambda>metadata.
     act_bind (act_lift (encoded_tree_path digest Zstd)) (\<lambda>encoded_path.
     act_bind (exists_at encoded_path) (\<lambda>present.
     if map_of (bm_encoded_variants metadata) Zstd \<noteq> None \<and> present then act_return ()
     else
       case encode_zstd_if_worthwhile (se_zstd env) bytes of
         Inl e \<Rightarrow> act_fail (bail e)
       | Inr None \<Rightarrow> act_return ()
       | Inr (Some compressed) \<Rightarrow>
           act_bind (create_parent env encoded_path) (\<lambda>_.
           act_bind (in_context (''Failed to write '' @ display_path env encoded_path)
               (fs_write encoded_path compressed)) (\<lambda>_.
           persist_tree_metadata env digest (put_variant Zstd (length compressed) metadata))))))"

record stored_tree =
  stt_digest :: string
  stt_path :: path

definition store_tree :: "store_env \<Rightarrow> timestamp \<Rightarrow> (string, string) btree_map \<Rightarrow> stored_tree fs_action" where
  "store_tree env now entries =
     (let bytes = se_enc_tree env entries; digest = se_sha256 env bytes in
      act_bind (act_lift (tree_path digest)) (\<lambda>target.
      act_bind (exists_at target) (\<lambda>present.
      act_bind
        (if present then act_return ()
         else
           act_bind (create_parent env target) (\<lambda>_.
           act_bind (write_bytes_atomically env (butlast target) target (digest @ ''.json'') bytes) (\<lambda>_.
           act_return ()))) (\<lambda>_.
      act_bind (ensure_tree_metadata env now digest (length bytes)) (\<lambda>_.
      act_bind (maybe_store_tree_zstd_variant env now digest bytes) (\<lambda>_.
      act_bind (touch_tree env now digest now) (\<lambda>_.
      act_return \<lparr> stt_digest = digest, stt_path = target \<rparr>)))))))"

definition delete_tree :: "store_env \<Rightarrow> string \<Rightarrow> unit fs_action" where
  "delete_tree env digest =
     act_match (load_tree_metadata env digest) (\<lambda>metadata.
     act_bind (act_lift (tree_path digest)) (\<lambda>raw_path.
     act_bind (remove_file_if_exists env raw_path) (\<lambda>_.
     act_bind
       (case metadata of
          Inl _ \<Rightarrow> act_return ()
        | Inr m \<Rightarrow>
            act_each (\<lambda>encoding.
              act_bind (act_lift (encoded_tree_path digest encoding)) (remove_file_if_exists env))
              (map fst (bm_encoded_variants m))) (\<lambda>_.
     act_bind (act_lift (tree_metadata_path digest)) (remove_file_if_exists env)))))"

fun tree_records ::
    "store_env \<Rightarrow> (string \<times> node) list \<Rightarrow> (string \<times> tree_metadata) list
     \<Rightarrow> (string \<times> tree_metadata) list fs_action" where
  "tree_records env [] records = act_return records"
| "tree_records env ((name, n) # entries) records =
     (case (n, strip_meta_json name) of
        (File _, Some digest) \<Rightarrow>
          act_bind (load_tree_metadata env digest) (\<lambda>metadata.
            tree_records env entries (records @ [(digest, metadata)]))
      | _ \<Rightarrow> tree_records env entries records)"

definition list_tree_metadata :: "store_env \<Rightarrow> (string \<times> tree_metadata) list fs_action" where
  "list_tree_metadata env =
     act_match (fs_read_dir [TREES_SUBDIR]) (\<lambda>r.
       case r of
         Inr entries \<Rightarrow> tree_records env entries []
       | Inl e \<Rightarrow>
           if ah_errno e = Some ENOENT then act_return []
           else act_fail (with_context (''Failed to read '' @ display_path env [TREES_SUBDIR]) e))"

section \<open>Names in the stores\<close>

definition blob_file :: "string \<Rightarrow> path" where
  "blob_file d = [BLOBS_SUBDIR, take 2 d, drop 2 d]"

definition blob_meta_file :: "string \<Rightarrow> path" where
  "blob_meta_file d = [BLOBS_SUBDIR, take 2 d, drop 2 d @ ''.meta.json'']"

definition blob_zst_file :: "string \<Rightarrow> path" where
  "blob_zst_file d = [BLOBS_SUBDIR, take 2 d, drop 2 d @ ''.zst'']"

definition tree_file :: "string \<Rightarrow> path" where
  "tree_file d = [TREES_SUBDIR, d @ ''.json'']"

definition tree_meta_file :: "string \<Rightarrow> path" where
  "tree_meta_file d = [TREES_SUBDIR, d @ ''.meta.json'']"

definition tree_zst_file :: "string \<Rightarrow> path" where
  "tree_zst_file d = [TREES_SUBDIR, d @ ''.zst'']"

lemmas store_files = blob_file_def blob_meta_file_def blob_zst_file_def tree_file_def tree_meta_file_def
  tree_zst_file_def BLOBS_SUBDIR_def TREES_SUBDIR_def

lemma digest_ok_no_dot:
  assumes "digest_ok d"
  shows "CHR ''.'' \<notin> set d" "CHR ''-'' \<notin> set d" "length d = 64"
proof -
  have "list_all is_hexdigit d" using assms by (simp add: digest_ok_def)
  moreover have "\<not> is_hexdigit (CHR ''.'')" "\<not> is_hexdigit (CHR ''-'')" by code_simp+
  ultimately show "CHR ''.'' \<notin> set d" "CHR ''-'' \<notin> set d" by (auto simp: list_all_iff)
  show "length d = 64" using assms by (simp add: digest_ok_def)
qed

lemma rsplit_dot_None: "CHR ''.'' \<notin> set s \<Longrightarrow> rsplit_once (CHR ''.'') s = None"
  by (simp add: rsplit_once_def split_once_None_iff)

lemma digest_ok_drop: "digest_ok d \<Longrightarrow> CHR ''.'' \<notin> set (drop 2 d)"
  using digest_ok_no_dot(1) by (meson in_set_dropD)

lemma store_paths:
  assumes "digest_ok d"
  shows "validate_digest d = Inr ()" "file_name d = Inr (drop 2 d)" "blob_path d = Inr (blob_file d)"
    "metadata_path d = Inr (blob_meta_file d)" "encoded_blob_path d enc = Inr (blob_zst_file d)"
    "tree_path d = Inr (tree_file d)" "tree_metadata_path d = Inr (tree_meta_file d)"
    "encoded_tree_path d enc = Inr (tree_zst_file d)"
  using assms digest_ok_drop [OF assms]
  by (cases enc; simp add: validate_digest_def file_name_def blob_path_def metadata_path_def
      encoded_blob_path_def tree_path_def tree_metadata_path_def encoded_tree_path_def with_extension_def
      rsplit_dot_None store_files)+

lemma store_paths_bad:
  assumes "\<not> digest_ok d"
  shows "validate_digest d = Inl (digest_error d)" "file_name d = Inl (digest_error d)"
    "blob_path d = Inl (digest_error d)" "metadata_path d = Inl (digest_error d)"
    "encoded_blob_path d enc = Inl (digest_error d)" "tree_path d = Inl (digest_error d)"
    "tree_metadata_path d = Inl (digest_error d)" "encoded_tree_path d enc = Inl (digest_error d)"
  using assms
  by (simp_all add: validate_digest_def file_name_def blob_path_def metadata_path_def
      encoded_blob_path_def tree_path_def tree_metadata_path_def encoded_tree_path_def)

lemma store_files_ne [simp]:
  "blob_file d \<noteq> []" "blob_meta_file d \<noteq> []" "blob_zst_file d \<noteq> []"
  "tree_file d \<noteq> []" "tree_meta_file d \<noteq> []" "tree_zst_file d \<noteq> []"
  by (simp_all add: store_files)

lemma blob_tree_ne:
  "tree_file d \<noteq> blob_file d'" "tree_meta_file d \<noteq> blob_file d'" "tree_zst_file d \<noteq> blob_file d'"
  "tree_file d \<noteq> blob_meta_file d'" "tree_meta_file d \<noteq> blob_meta_file d'" "tree_zst_file d \<noteq> blob_meta_file d'"
  by (simp_all add: store_files)

lemma store_files_distinct:
  assumes "digest_ok d" "digest_ok d'"
  shows "blob_file d = blob_file d' \<longleftrightarrow> d = d'" "tree_file d = tree_file d' \<longleftrightarrow> d = d'"
    "blob_meta_file d = blob_meta_file d' \<longleftrightarrow> d = d'" "tree_meta_file d = tree_meta_file d' \<longleftrightarrow> d = d'"
    "blob_meta_file d \<noteq> blob_file d'" "blob_zst_file d \<noteq> blob_file d'" "blob_meta_file d \<noteq> blob_zst_file d'"
    "tree_meta_file d \<noteq> tree_file d'" "tree_zst_file d \<noteq> tree_file d'" "tree_meta_file d \<noteq> tree_zst_file d'"
    "blob_file d \<noteq> tree_file d'" "blob_file d \<noteq> tree_meta_file d'" "blob_file d \<noteq> tree_zst_file d'"
    "blob_meta_file d \<noteq> tree_file d'" "blob_zst_file d \<noteq> tree_file d'" "blob_meta_file d \<noteq> tree_meta_file d'"
proof -
  have l: "length d = 64" "length d' = 64" using assms by (simp_all add: digest_ok_def)
  have split: "take 2 d = take 2 d' \<and> drop 2 d = drop 2 d' \<longleftrightarrow> d = d'"
    by (metis append_take_drop_id)
  have no: "drop 2 d @ x \<noteq> drop 2 d'" if "x \<noteq> []" for x
  proof
    assume "drop 2 d @ x = drop 2 d'"
    then have "length (drop 2 d @ x) = length (drop 2 d')" by simp
    then show False using l that by simp
  qed
  have no': "d @ x \<noteq> d' @ y" if "length x \<noteq> length y" for x y
  proof
    assume "d @ x = d' @ y"
    then have "length (d @ x) = length (d' @ y)" by simp
    then show False using l that by simp
  qed
  show "blob_file d = blob_file d' \<longleftrightarrow> d = d'" "blob_meta_file d = blob_meta_file d' \<longleftrightarrow> d = d'"
    using split by (simp_all add: store_files)
  show "blob_meta_file d \<noteq> blob_file d'" "blob_zst_file d \<noteq> blob_file d'"
    using no [of "''.meta.json''"] no [of "''.zst''"] by (simp_all add: store_files)
  show "blob_meta_file d \<noteq> blob_zst_file d'"
    using l by (auto simp: store_files dest!: arg_cong [of _ _ length])
  show "tree_meta_file d \<noteq> tree_file d'" "tree_zst_file d \<noteq> tree_file d'" "tree_meta_file d \<noteq> tree_zst_file d'"
    using no' [of "''.meta.json''" "''.json''"] no' [of "''.zst''" "''.json''"] no' [of "''.meta.json''" "''.zst''"]
    by (simp_all add: store_files)
qed (use assms in \<open>simp_all add: store_files\<close>)

section \<open>The invariant of the stores\<close>

abbreviation in_store :: "path \<Rightarrow> bool" where
  "in_store p \<equiv> p \<noteq> [] \<and> (hd p = BLOBS_SUBDIR \<or> hd p = TREES_SUBDIR)"

definition temp_free :: "store_env \<Rightarrow> fs \<Rightarrow> bool" where
  "temp_free env fs \<longleftrightarrow>
     (\<forall>p i. map_of (fs_tree fs) p = Some (File i) \<longrightarrow> in_store p \<longrightarrow> \<not> ends_with (''.tmp-'' @ se_uuid env) (last p))"

text \<open>The contents of a blob and of a tree hash to its name.\<close>

definition integrity :: "store_env \<Rightarrow> fs \<Rightarrow> bool" where
  "integrity env fs \<longleftrightarrow>
     (\<forall>d bs. digest_ok d \<longrightarrow> fs_content (blob_file d) fs = Some bs \<longrightarrow> se_sha256 env bs = d)
     \<and> (\<forall>d bs. digest_ok d \<longrightarrow> fs_content (tree_file d) fs = Some bs \<longrightarrow> se_sha256 env bs = d)"

text \<open>No two names of the stores share an inode.\<close>

definition unshared :: "fs \<Rightarrow> bool" where
  "unshared fs \<longleftrightarrow>
     (\<forall>p q i. map_of (fs_tree fs) p = Some (File i) \<longrightarrow> map_of (fs_tree fs) q = Some (File i) \<longrightarrow>
        in_store p \<longrightarrow> in_store q \<longrightarrow> p = q)"

lemma unsharedI:
  "(\<And>p q i. map_of (fs_tree fs) p = Some (File i) \<Longrightarrow> map_of (fs_tree fs) q = Some (File i) \<Longrightarrow>
     in_store p \<Longrightarrow> in_store q \<Longrightarrow> p = q) \<Longrightarrow> unshared fs"
  unfolding unshared_def by (intro allI impI) assumption

lemma unsharedD:
  "unshared fs \<Longrightarrow> map_of (fs_tree fs) p = Some (File i) \<Longrightarrow> map_of (fs_tree fs) q = Some (File i) \<Longrightarrow>
     in_store p \<Longrightarrow> in_store q \<Longrightarrow> p = q"
  unfolding unshared_def by (elim allE impE) assumption+

text \<open>The only directories of the stores are the shards and the two roots.\<close>

definition store_dir :: "path \<Rightarrow> bool" where
  "store_dir p \<longleftrightarrow> (in_store p \<longrightarrow> p = [TREES_SUBDIR] \<or> hd p = BLOBS_SUBDIR \<and> length p \<le> 2)"

definition shallow :: "fs \<Rightarrow> bool" where
  "shallow fs \<longleftrightarrow> (\<forall>p. map_of (fs_tree fs) p = Some Dir \<longrightarrow> store_dir p)"

definition store_inv :: "store_env \<Rightarrow> fs \<Rightarrow> bool" where
  "store_inv env fs \<longleftrightarrow> fs_wf fs \<and> temp_free env fs \<and> integrity env fs \<and> unshared fs \<and> shallow fs"

lemma store_invD:
  assumes "store_inv env fs"
  shows "fs_wf fs" "temp_free env fs" "integrity env fs" "unshared fs" "shallow fs"
  using assms by (simp_all add: store_inv_def)

text \<open>What may be written under a name.\<close>

definition admissible :: "store_env \<Rightarrow> path \<Rightarrow> bytes \<Rightarrow> bool" where
  "admissible env p bs \<longleftrightarrow>
     (in_store p \<longrightarrow> \<not> ends_with (''.tmp-'' @ se_uuid env) (last p))
     \<and> (\<forall>d. digest_ok d \<longrightarrow> p = blob_file d \<or> p = tree_file d \<longrightarrow> se_sha256 env bs = d)"

lemma store_inv_quiet:
  assumes i: "store_inv env fs" and q: "quiet fs fs'"
  shows "store_inv env fs'"
proof -
  have t: "map_of (fs_tree fs') = map_of (fs_tree fs)" using q by (simp add: quiet_def)
  note w = store_invD(1) [OF i]
  show ?thesis
    using i by (simp add: store_inv_def temp_free_def integrity_def unshared_def shallow_def t quiet_wf [OF q w]
        quiet_content [OF q w])
qed

lemma store_inv_adds:
  assumes i: "store_inv env fs" and a: "adds p bs fs fs'" and ok: "admissible env p bs"
  shows "store_inv env fs'"
  unfolding store_inv_def
proof (intro conjI)
  note w = store_invD(1) [OF i]
  from a obtain j where j: "fs_next fs \<le> j" "map_of (fs_tree fs') = (map_of (fs_tree fs))(p \<mapsto> File j)"
    by (auto simp: adds_def)
  show "fs_wf fs'" by (rule adds_wf [OF a w])
  show "temp_free env fs'"
    using store_invD(2) [OF i] ok by (auto simp: temp_free_def admissible_def j(2))
  show "integrity env fs'"
    using store_invD(3) [OF i] ok by (auto simp: integrity_def admissible_def adds_content [OF a w])
  show "unshared fs'"
  proof (rule unsharedI)
    fix q r k
    assume k: "map_of (fs_tree fs') q = Some (File k)" "map_of (fs_tree fs') r = Some (File k)"
      and s: "in_store q" "in_store r"
    have new: "k = j" if "map_of (fs_tree fs') p = Some (File k)" using that by (simp add: j(2))
    have old: "k < fs_next fs" if "map_of (fs_tree fs') x = Some (File k)" "x \<noteq> p" for x
      using that fs_wfD(3) [OF w, of x] by (simp add: j(2))
    have "q = p \<longleftrightarrow> r = p"
      using old [OF k(1)] old [OF k(2)] new k j(1) by (cases "q = p"; cases "r = p") auto
    then show "q = r"
      using unsharedD [OF store_invD(4) [OF i] _ _ s, of k] k by (cases "q = p") (simp_all add: j(2))
  qed
  show "shallow fs'" using store_invD(5) [OF i] by (simp add: shallow_def j(2))
qed

lemma store_inv_removes:
  assumes i: "store_inv env fs" and r: "removes gone fs fs'"
  shows "store_inv env fs'"
  unfolding store_inv_def
proof (intro conjI)
  note w = store_invD(1) [OF i]
  show "fs_wf fs'" by (rule removes_wf [OF r w])
  show "temp_free env fs'" using store_invD(2) [OF i] removesD(3) [OF r] unfolding temp_free_def by meson
  show "integrity env fs'" using store_invD(3) [OF i] removesD(4) [OF r] unfolding integrity_def by meson
  show "unshared fs'"
    by (rule unsharedI) (rule unsharedD [OF store_invD(4) [OF i] removesD(3) [OF r] removesD(3) [OF r]])
  show "shallow fs'" using store_invD(5) [OF i] removesD(3) [OF r] unfolding shallow_def by meson
qed

lemma store_inv_grows:
  assumes i: "store_inv env fs" and g: "grows fs fs'" and w: "fs_wf fs'" and d: "shallow fs'"
  shows "store_inv env fs'"
  unfolding store_inv_def
proof (intro conjI)
  have t: "map_of (fs_tree fs') q = Some (File j) \<longleftrightarrow> map_of (fs_tree fs) q = Some (File j)" for q j
    using grows_file [OF g, of q j] fs_wfD(2) [OF w] fs_wfD(2) [OF store_invD(1) [OF i]]
    by (cases "q = []") (simp_all add: fs_node_def)
  show "temp_free env fs'" using store_invD(2) [OF i] by (simp add: temp_free_def t)
  show "integrity env fs'" using store_invD(3) [OF i] by (simp add: integrity_def grows_content [OF g])
  show "unshared fs'" using store_invD(4) [OF i] by (simp add: unshared_def t)
qed (rule w d)+

subsection \<open>Writing\<close>

lemma temp_free_node:
  assumes "store_inv env fs" "in_store parent"
  shows "fs_node (parent @ [stem @ ''.tmp-'' @ se_uuid env]) fs \<noteq> Some (File i)"
proof
  assume "fs_node (parent @ [stem @ ''.tmp-'' @ se_uuid env]) fs = Some (File i)"
  then have "map_of (fs_tree fs) (parent @ [stem @ ''.tmp-'' @ se_uuid env]) = Some (File i)"
    by (simp add: fs_node_def)
  then have "\<not> ends_with (''.tmp-'' @ se_uuid env) (stem @ ''.tmp-'' @ se_uuid env)"
    using store_invD(2) [OF assms(1)] assms(2)
    by (fastforce simp: temp_free_def hd_append)
  then show False by (simp add: ends_with_iff)
qed

lemma fs_node_add: "fs_node q (fs_add p bs fs) = (if q = [] then Some Dir else if q = p then Some (File (fs_next fs)) else fs_node q fs)"
  by (simp add: fs_node_def fs_add_def)

lemma replace_eq:
  assumes "tn = stem @ ''.tmp-'' @ se_uuid env"
  shows "write_bytes_with_atomic_replace env parent target stem bs =
    act_bind (in_context (''Failed to write '' @ display_path env (parent @ [tn])) (fs_write (parent @ [tn]) bs)) (\<lambda>_.
    act_match (fs_rename (parent @ [tn]) target) (\<lambda>r.
      case r of
        Inr _ \<Rightarrow> act_return ()
      | Inl e \<Rightarrow> act_match (fs_remove_file (parent @ [tn])) (\<lambda>_.
          act_fail (with_context (''Failed to move '' @ display_path env (parent @ [tn])
            @ '' into '' @ display_path env target) e))))"
  unfolding write_bytes_with_atomic_replace_def Let_def assms ..

lemma atomically_eq:
  assumes "tn = stem @ ''.tmp-'' @ se_uuid env"
  shows "write_bytes_atomically env parent target stem bs =
    act_bind (in_context (''Failed to write '' @ display_path env (parent @ [tn])) (fs_write (parent @ [tn]) bs)) (\<lambda>_.
    act_match (link_or_copy_into_place env (parent @ [tn]) target) (\<lambda>uploaded.
    act_match (fs_remove_file (parent @ [tn])) (\<lambda>_. act_lift uploaded)))"
  unfolding write_bytes_atomically_def Let_def assms ..

lemma replace_cases:
  assumes n: "\<And>i. fs_node (parent @ [tn]) fs \<noteq> Some (File i)" and d: "tn \<noteq> name"
    and t: "tn = stem @ ''.tmp-'' @ se_uuid env"
  shows "case write_bytes_with_atomic_replace env parent (parent @ [name]) stem bs fs of
      (Inr _, fs') \<Rightarrow> adds (parent @ [name]) bs fs fs'
    | (Inl _, fs') \<Rightarrow> quiet fs fs'"
proof (cases "fs_node (parent @ [tn]) fs = None \<and> fs_node parent fs = Some Dir")
  case False
  then have "\<exists>e. fs_write (parent @ [tn]) bs fs = (Inl e, fs)"
    using n by (cases "fs_node (parent @ [tn]) fs") (auto simp: fs_write_def split: node.split)
  then show ?thesis
    by (auto simp: replace_eq [OF t] act_bind_def in_context_eq)
next
  case True
  define fs1 where "fs1 = fs_add (parent @ [tn]) bs fs"
  have w: "fs_write (parent @ [tn]) bs fs = (Inr (), fs1)" using True by (simp add: fs_write_def fs1_def)
  have absent: "map_of (fs_tree fs) (parent @ [tn]) = None" using True by (simp add: fs_node_def)
  have gone: "hm_remove (parent @ [tn]) (fs_tree fs1) = fs_tree fs"
    by (simp add: fs1_def fs_add_def hm_remove_insert_new [OF absent])
  have node1: "fs_node (parent @ [tn]) fs1 = Some (File (fs_next fs))" "fs_node (parent @ [name]) fs1 = fs_node (parent @ [name]) fs"
    "fs_node parent fs1 = Some Dir"
    using d True by (auto simp: fs1_def fs_node_add)
  have q1: "map_of (fs_inodes fs1) j = map_of (fs_inodes fs) j" if "j < fs_next fs" for j
    using that by (simp add: fs1_def fs_add_def)
  have new1: "map_of (fs_inodes fs1) (fs_next fs) = Some bs" "fs_next fs1 = Suc (fs_next fs)"
    by (simp_all add: fs1_def fs_add_def)
  show ?thesis
  proof (cases "fs_node (parent @ [name]) fs = Some Dir")
    case dir: True
    have "quiet fs (fs1\<lparr> fs_tree := fs_tree fs \<rparr>)" using q1 new1 by (simp add: quiet_def)
    moreover have "fs_remove_file (parent @ [tn]) fs1 = (Inr (), fs1\<lparr> fs_tree := fs_tree fs \<rparr>)"
      using node1 gone by (simp add: fs_remove_file_def)
    ultimately show ?thesis
      using dir node1
      by (simp add: replace_eq [OF t] act_bind_def in_context_eq w
          act_match_def fs_rename_def act_fail_def)
  next
    case False
    have "adds (parent @ [name]) bs fs (fs1\<lparr> fs_tree := hm_insert (parent @ [name]) (File (fs_next fs)) (fs_tree fs) \<rparr>)"
      using False True q1 new1 by (auto simp: adds_def hm_wf_insert)
    then show ?thesis
      using False node1 gone
      by (simp add: replace_eq [OF t] act_bind_def in_context_eq w
          act_match_def fs_rename_def act_return_def)
  qed
qed

lemma link_or_copy_cases:
  assumes s: "fs_node src fs = Some (File i)" "map_of (fs_inodes fs) i = Some bs" "i < fs_next fs"
    and p: "fs_node (butlast dst) fs = Some Dir" and ne: "dst \<noteq> []" "dst \<noteq> src"
  obtains b fs' where "link_or_copy_into_place env src dst fs = (Inr True, fs')" "fs_node dst fs = None"
      "fs_tree fs' = hm_insert dst (File b) (fs_tree fs)" "map_of (fs_inodes fs') b = Some bs"
      "b = i \<or> b = fs_next fs" "b < fs_next fs'" "fs_next fs \<le> fs_next fs'"
      "\<And>j. j < fs_next fs \<Longrightarrow> map_of (fs_inodes fs') j = map_of (fs_inodes fs) j"
  | "link_or_copy_into_place env src dst fs = (Inr False, fs)"
      "fs_node dst fs \<noteq> None \<or> se_hard_link env = Some EEXIST"
  | e where "link_or_copy_into_place env src dst fs = (Inl e, fs)" "se_hard_link env \<noteq> None"
proof (cases "fs_node dst fs")
  case (Some n)
  then have "link_or_copy_into_place env src dst fs = (Inr False, fs)"
    using s by (simp add: link_or_copy_into_place_def act_match_def fs_hard_link_def act_return_def)
  then show thesis using that(2) Some by simp
next
  case None
  show thesis
  proof (cases "se_hard_link env")
    case None': None
    then have "link_or_copy_into_place env src dst fs = (Inr True, fs\<lparr> fs_tree := hm_insert dst (File i) (fs_tree fs) \<rparr>)"
      using s p None by (simp add: link_or_copy_into_place_def act_match_def fs_hard_link_def act_return_def)
    then show thesis using that(1) [of _ i] s None by simp
  next
    case (Some e)
    have h: "fs_hard_link (se_hard_link env) src dst fs = (Inl (os_error e), fs)"
      using s p None Some by (simp add: fs_hard_link_def)
    consider "e = EEXIST" | "e \<noteq> EEXIST" "e \<notin> set copied_instead" | "e \<noteq> EEXIST" "e \<in> set copied_instead" by blast
    then show thesis
    proof cases
      case 1
      then show thesis
        using that(2) h Some by (simp add: link_or_copy_into_place_def act_match_def act_return_def)
    next
      case 2
      then have "Some e \<notin> Some ` set copied_instead" by blast
      then show thesis
        using that(3) h 2 Some by (simp add: link_or_copy_into_place_def act_match_def act_fail_def)
    next
      case 3
      define fs2 where "fs2 = fs_add dst [] fs"
      have c: "fs_create_new dst fs = (Inr (), fs2)" using None p by (simp add: fs_create_new_def fs2_def)
      have r: "fs_read src fs2 = (Inr bs, fs2)"
        using s ne by (auto simp: fs_read_def fs2_def fs_node_add fs_add_def fs_node_def split: if_splits)
      have wr: "fs_write dst bs fs2 = (Inr (), fs2\<lparr> fs_inodes := hm_insert (fs_next fs) bs (fs_inodes fs2) \<rparr>)"
        using ne by (simp add: fs_write_def fs2_def fs_node_add)
      have "link_or_copy_into_place env src dst fs = (Inr True, fs2\<lparr> fs_inodes := hm_insert (fs_next fs) bs (fs_inodes fs2) \<rparr>)"
        using 3 by (simp add: link_or_copy_into_place_def act_match_def h c act_bind_def in_context_eq r wr act_return_def)
      then show thesis
        using that(1) [of _ "fs_next fs"] None by (simp add: fs2_def fs_add_def)
    qed
  qed
qed

lemma atomically_cases:
  assumes n: "\<And>i. fs_node (parent @ [tn]) fs \<noteq> Some (File i)" and d: "tn \<noteq> name"
    and t: "tn = stem @ ''.tmp-'' @ se_uuid env"
  shows "case write_bytes_atomically env parent (parent @ [name]) stem bs fs of
      (Inr True, fs') \<Rightarrow> adds (parent @ [name]) bs fs fs' \<and> fs_node (parent @ [name]) fs = None
    | (Inr False, fs') \<Rightarrow> quiet fs fs' \<and> (fs_node (parent @ [name]) fs \<noteq> None \<or> se_hard_link env = Some EEXIST)
    | (Inl _, fs') \<Rightarrow> quiet fs fs'"
proof (cases "fs_node (parent @ [tn]) fs = None \<and> fs_node parent fs = Some Dir")
  case False
  then have "\<exists>e. fs_write (parent @ [tn]) bs fs = (Inl e, fs)"
    using n by (cases "fs_node (parent @ [tn]) fs") (auto simp: fs_write_def split: node.split)
  then show ?thesis
    by (auto simp: atomically_eq [OF t] act_bind_def in_context_eq)
next
  case True
  define fs1 where "fs1 = fs_add (parent @ [tn]) bs fs"
  have w: "fs_write (parent @ [tn]) bs fs = (Inr (), fs1)" using True by (simp add: fs_write_def fs1_def)
  have absent: "map_of (fs_tree fs) (parent @ [tn]) = None" using True by (simp add: fs_node_def)
  have gone: "hm_remove (parent @ [tn]) (fs_tree fs1) = fs_tree fs"
    by (simp add: fs1_def fs_add_def hm_remove_insert_new [OF absent])
  have node1: "fs_node (parent @ [tn]) fs1 = Some (File (fs_next fs))" "fs_node (parent @ [name]) fs1 = fs_node (parent @ [name]) fs"
    "fs_node parent fs1 = Some Dir"
    using d True by (auto simp: fs1_def fs_node_add)
  have q1: "map_of (fs_inodes fs1) j = map_of (fs_inodes fs) j" if "j < fs_next fs" for j
    using that by (simp add: fs1_def fs_add_def)
  have new1: "map_of (fs_inodes fs1) (fs_next fs) = Some bs" "fs_next fs1 = Suc (fs_next fs)"
    by (simp_all add: fs1_def fs_add_def)
  have rm: "fs_remove_file (parent @ [tn]) fs1 = (Inr (), fs1\<lparr> fs_tree := fs_tree fs \<rparr>)"
    using node1 gone by (simp add: fs_remove_file_def)
  have quiet1: "quiet fs (fs1\<lparr> fs_tree := fs_tree fs \<rparr>)" using q1 new1 by (simp add: quiet_def)
  note unfolded = atomically_eq [OF t] act_bind_def in_context_eq w act_match_def act_lift_def
  have p1: "fs_node (butlast (parent @ [name])) fs1 = Some Dir" using node1 by simp
  show ?thesis
  proof (rule link_or_copy_cases [OF node1(1) new1(1) _ p1, of env])
    fix b fs'
    assume l: "link_or_copy_into_place env (parent @ [tn]) (parent @ [name]) fs1 = (Inr True, fs')"
      "fs_node (parent @ [name]) fs1 = None" "fs_tree fs' = hm_insert (parent @ [name]) (File b) (fs_tree fs1)"
      "map_of (fs_inodes fs') b = Some bs" "b = fs_next fs \<or> b = fs_next fs1" "b < fs_next fs'" "fs_next fs1 \<le> fs_next fs'"
      "\<And>j. j < fs_next fs1 \<Longrightarrow> map_of (fs_inodes fs') j = map_of (fs_inodes fs1) j"
    have "fs_remove_file (parent @ [tn]) fs' = (Inr (), fs'\<lparr> fs_tree := hm_remove (parent @ [tn]) (fs_tree fs') \<rparr>)"
      using node1(1) d by (simp add: fs_remove_file_def fs_node_def l(3))
    moreover have "adds (parent @ [name]) bs fs (fs'\<lparr> fs_tree := hm_remove (parent @ [tn]) (fs_tree fs') \<rparr>)"
      unfolding adds_def
    proof (intro conjI exI [of _ b])
      show "map_of (fs_tree (fs'\<lparr> fs_tree := hm_remove (parent @ [tn]) (fs_tree fs') \<rparr>)) = (map_of (fs_tree fs))(parent @ [name] \<mapsto> File b)"
        using d absent by (auto simp: l(3) fs1_def fs_add_def fun_eq_iff)
      show "hm_wf (fs_tree fs) \<longrightarrow> hm_wf (fs_tree (fs'\<lparr> fs_tree := hm_remove (parent @ [tn]) (fs_tree fs') \<rparr>))"
        by (simp add: l(3) fs1_def fs_add_def hm_wf_insert hm_wf_remove)
    qed (use l(2,4-8) q1 new1 node1(2) True in auto)
    ultimately show ?thesis using l(1,2) node1(2) by (simp add: unfolded)
  next
    assume "link_or_copy_into_place env (parent @ [tn]) (parent @ [name]) fs1 = (Inr False, fs1)"
      "fs_node (parent @ [name]) fs1 \<noteq> None \<or> se_hard_link env = Some EEXIST"
    then show ?thesis using quiet1 node1(2) by (simp add: unfolded rm)
  next
    fix e
    assume "link_or_copy_into_place env (parent @ [tn]) (parent @ [name]) fs1 = (Inl e, fs1)"
    then show ?thesis using quiet1 by (simp add: unfolded rm)
  qed (use new1 d in simp_all)
qed

lemma bind_lift [simp]:
  "act_bind (act_lift (Inr x)) f = f x" "act_bind (act_lift (Inl e)) f = act_fail e"
  by (simp_all add: act_bind_def act_lift_def act_fail_def fun_eq_iff)

text \<open>A write in place is harmless when no other name of the stores shows it.\<close>

lemma store_inv_write:
  assumes i: "store_inv env fs" and ok: "admissible env p bs" and ne: "p \<noteq> []"
    and own: "\<And>q j. map_of (fs_tree fs) p = Some (File j) \<Longrightarrow> map_of (fs_tree fs) q = Some (File j) \<Longrightarrow>
      in_store q \<Longrightarrow> q = p"
  shows "store_inv env (snd (fs_write p bs fs))"
proof (cases "fs_node p fs")
  case None
  show ?thesis
  proof (cases "fs_node (butlast p) fs = Some Dir")
    case True
    then have "adds p bs fs (fs_add p bs fs)"
      using None ne by (auto simp: adds_def fs_add_def hm_wf_insert)
    then show ?thesis using None True store_inv_adds [OF i _ ok] by (simp add: fs_write_def)
  next
    case False
    then show ?thesis using None i by (simp add: fs_write_def)
  qed
next
  case (Some n)
  show ?thesis
  proof (cases n)
    case Dir
    then show ?thesis using Some i by (simp add: fs_write_def)
  next
    case (File j)
    let ?fs = "fs\<lparr> fs_inodes := hm_insert j bs (fs_inodes fs) \<rparr>"
    have p: "map_of (fs_tree fs) p = Some (File j)" using Some File ne by (simp add: fs_node_def)
    have n: "fs_node q ?fs = fs_node q fs" for q by (simp add: fs_node_def)
    have c: "fs_content q ?fs = (if q = p then Some bs else fs_content q fs)" if q: "in_store q" for q
    proof (cases "fs_node q fs = Some (File j)")
      case True
      then have "q = p" using own [OF p _ q] q by (simp add: fs_node_def)
      then show ?thesis using Some File by (simp add: fs_content_def n)
    next
      case False
      then have "q \<noteq> p" using Some File by auto
      then show ?thesis using False by (auto simp: fs_content_def n split: option.split node.split)
    qed
    have st: "in_store (blob_file d)" "in_store (tree_file d)" for d by (simp_all add: store_files)
    have "store_inv env ?fs"
      unfolding store_inv_def
    proof (intro conjI)
      show "fs_wf ?fs"
        by (rule fs_wfI) (use fs_wfD [OF store_invD(1) [OF i]] in \<open>simp_all add: n\<close>)
      show "temp_free env ?fs" using store_invD(2) [OF i] by (simp add: temp_free_def)
      show "integrity env ?fs"
        using store_invD(3) [OF i] ok
        unfolding integrity_def c [OF st(1)] c [OF st(2)] admissible_def by (simp split: if_splits)
      show "unshared ?fs" using store_invD(4) [OF i] by (simp add: unshared_def)
      show "shallow ?fs" using store_invD(5) [OF i] by (simp add: shallow_def)
    qed
    then show ?thesis using Some File by (simp add: fs_write_def)
  qed
qed

lemma no_dash_not_temp: "CHR ''-'' \<notin> set s \<Longrightarrow> \<not> ends_with (''.tmp-'' @ u) s"
  by (auto simp: ends_with_iff)

lemma admissible_files:
  assumes d: "digest_ok d"
  shows "admissible env (blob_meta_file d) bs" "admissible env (blob_zst_file d) bs"
    "admissible env (tree_meta_file d) bs" "admissible env (tree_zst_file d) bs"
    "se_sha256 env bs = d \<Longrightarrow> admissible env (blob_file d) bs"
    "se_sha256 env bs = d \<Longrightarrow> admissible env (tree_file d) bs"
proof -
  have m: "CHR ''-'' \<notin> set d" "CHR ''-'' \<notin> set (drop 2 d)"
    using digest_ok_no_dot(2) [OF d] by (auto dest: in_set_dropD)
  have t: "\<not> ends_with (''.tmp-'' @ se_uuid env) (last p)"
    if "p \<in> {blob_meta_file d, blob_zst_file d, tree_meta_file d, tree_zst_file d, blob_file d, tree_file d}" for p
    using that m by (intro no_dash_not_temp) (auto simp: store_files)
  note dis = store_files_distinct [OF d]
  have ok: "admissible env p bs"
    if "\<not> ends_with (''.tmp-'' @ se_uuid env) (last p)"
      "\<And>d'. digest_ok d' \<Longrightarrow> p = blob_file d' \<Longrightarrow> se_sha256 env bs = d'"
      "\<And>d'. digest_ok d' \<Longrightarrow> p = tree_file d' \<Longrightarrow> se_sha256 env bs = d'" for p
    using that unfolding admissible_def by blast
  show "admissible env (blob_meta_file d) bs" "admissible env (blob_zst_file d) bs"
    by (rule ok [OF t]; use dis in auto)+
  show "admissible env (tree_meta_file d) bs" "admissible env (tree_zst_file d) bs"
    by (rule ok [OF t]; use dis blob_tree_ne in auto)+
  show "admissible env (blob_file d) bs" "admissible env (tree_file d) bs" if "se_sha256 env bs = d"
    by (rule ok [OF t]; use dis blob_tree_ne that in auto)+
qed

lemma store_parents:
  "in_store (butlast (blob_file d))" "in_store (butlast (blob_meta_file d))" "in_store (butlast (blob_zst_file d))"
  "in_store (butlast (tree_file d))" "in_store (butlast (tree_meta_file d))" "in_store (butlast (tree_zst_file d))"
  by (simp_all add: store_files)

lemma keeps_exists_at [triple_rules]: "keeps P (exists_at p)"
  unfolding exists_at_def by (rule triple_rules)

lemma keeps_read_json [triple_rules]: "keeps P (read_json env dec p)"
  unfolding read_json_def by (intro triple_rules)

lemma keeps_load_metadata [triple_rules]:
  "keeps P (load_blob_metadata env d)" "keeps P (load_tree_metadata env d)"
  unfolding load_blob_metadata_def load_tree_metadata_def by (intro triple_rules)+

lemma keeps_shard_records: "keeps P (shard_records env shard entries records)"
  by (induction entries arbitrary: records)
    (auto intro!: triple_rules split: prod.split node.split option.split)

lemma keeps_all_shards: "keeps P (all_shards env shards records)"
  by (induction shards arbitrary: records) (auto intro!: triple_rules keeps_shard_records)

lemma keeps_tree_records: "keeps P (tree_records env entries records)"
  by (induction entries arbitrary: records)
    (auto intro!: triple_rules split: prod.split node.split option.split)

lemma keeps_list_metadata [triple_rules]:
  "keeps P (list_blob_metadata env)" "keeps P (list_tree_metadata env)"
  unfolding list_blob_metadata_def list_tree_metadata_def
  by (intro triple_rules keeps_all_shards keeps_tree_records)+

lemma store_dirs:
  "store_dir (butlast (blob_file d))" "store_dir (butlast (blob_meta_file d))" "store_dir (butlast (blob_zst_file d))"
  "store_dir (butlast (tree_file d))" "store_dir (butlast (tree_meta_file d))" "store_dir (butlast (tree_zst_file d))"
  by (simp_all add: store_files store_dir_def)

lemma store_dir_take:
  assumes "store_dir p" "1 \<le> n"
  shows "store_dir (take n p)"
  unfolding store_dir_def
proof
  assume t: "in_store (take n p)"
  then have p: "p \<noteq> []" "hd (take n p) = hd p" using assms(2) by (auto simp: hd_take)
  then have "p = [TREES_SUBDIR] \<or> hd p = BLOBS_SUBDIR \<and> length p \<le> 2" using t assms(1) by (simp add: store_dir_def)
  then show "take n p = [TREES_SUBDIR] \<or> hd (take n p) = BLOBS_SUBDIR \<and> length (take n p) \<le> 2"
    using p(2) assms(2) by auto
qed

lemma create_dir_all_shallow:
  assumes "fs_wf fs" "shallow fs" "store_dir p"
  shows "shallow (snd (fs_create_dir_all p fs))"
  unfolding shallow_def
proof (intro allI impI)
  fix q
  assume "map_of (fs_tree (snd (fs_create_dir_all p fs))) q = Some Dir"
  moreover from this have q: "q \<noteq> []" using fs_wfD(2) [OF create_dir_all_wf [OF assms(1)]] by auto
  ultimately have "fs_node q fs = Some Dir \<or> (\<exists>n\<ge>1. q = take n p)"
    by (intro create_dir_all_new) (simp add: fs_node_def)
  then show "store_dir q"
    using assms(2) q store_dir_take [OF assms(3)] by (auto simp: shallow_def fs_node_def)
qed

lemma in_store_butlast: "in_store (butlast p) \<Longrightarrow> in_store p"
  by (cases p) (auto split: if_splits)

lemma temp_not_last:
  assumes "in_store (butlast p)" "admissible env p bs"
  shows "stem @ ''.tmp-'' @ se_uuid env \<noteq> last p"
proof -
  have "in_store p" by (rule in_store_butlast [OF assms(1)])
  then have "\<not> ends_with (''.tmp-'' @ se_uuid env) (last p)" using assms(2) by (simp add: admissible_def)
  then show ?thesis unfolding ends_with_iff by metis
qed

section \<open>Every operation of the stores keeps the invariant\<close>

definition meta_file :: "path \<Rightarrow> bool" where
  "meta_file p \<longleftrightarrow> (\<exists>d. digest_ok d \<and> (p = blob_meta_file d \<or> p = tree_meta_file d))"

text \<open>What an operation that removes nothing may do: add directories, give a new inode to a new
  name or to the metadata of an entry, and write the compressed form of a tree in place.  A
  property that survives these survives every such operation.\<close>

locale store_frame =
  fixes env :: store_env and J :: "fs \<Rightarrow> bool"
  assumes J_quiet: "store_inv env fs \<Longrightarrow> J fs \<Longrightarrow> quiet fs fs' \<Longrightarrow> J fs'"
    and J_grows: "store_inv env fs \<Longrightarrow> J fs \<Longrightarrow> grows fs fs' \<Longrightarrow> J fs'"
    and J_adds: "store_inv env fs \<Longrightarrow> J fs \<Longrightarrow> adds p bs fs fs' \<Longrightarrow> in_store p \<Longrightarrow>
      fs_node p fs = None \<or> meta_file p \<Longrightarrow> J fs'"
    and J_write: "store_inv env fs \<Longrightarrow> J fs \<Longrightarrow> digest_ok d \<Longrightarrow> J (snd (fs_write (tree_zst_file d) bs fs))"
begin

abbreviation framed :: "fs \<Rightarrow> bool" where
  "framed fs \<equiv> store_inv env fs \<and> J fs"

lemma framed_quiet: "framed fs \<Longrightarrow> quiet fs fs' \<Longrightarrow> framed fs'"
  using store_inv_quiet J_quiet by blast

lemma framed_adds:
  "framed fs \<Longrightarrow> adds p bs fs fs' \<Longrightarrow> admissible env p bs \<Longrightarrow> in_store p \<Longrightarrow>
     fs_node p fs = None \<or> meta_file p \<Longrightarrow> framed fs'"
  using store_inv_adds J_adds by blast

lemma keeps_create_dir_all:
  assumes "store_dir p"
  shows "keeps framed (fs_create_dir_all p)"
proof (rule keepsI)
  fix fs
  assume i: "framed fs"
  have "store_inv env (snd (fs_create_dir_all p fs))"
    by (rule store_inv_grows [OF conjunct1 [OF i] create_dir_all_grows create_dir_all_wf
          create_dir_all_shallow [OF _ _ assms]]) (use i store_invD in auto)
  then show "framed (snd (fs_create_dir_all p fs))"
    using i J_grows [OF _ _ create_dir_all_grows] by blast
qed

lemma keeps_create_parent: "store_dir (butlast p) \<Longrightarrow> keeps framed (create_parent env' p)"
  unfolding create_parent_def by (intro triple_rules keeps_create_dir_all)

lemma keeps_replace:
  assumes s: "in_store (butlast p)" and ok: "admissible env p bs" and m: "meta_file p"
  shows "keeps framed (write_bytes_with_atomic_replace env (butlast p) p stem bs)"
proof (rule keepsI)
  fix fs
  assume i: "framed fs"
  have p: "butlast p @ [last p] = p" using s by (cases p) auto
  have n: "\<And>i. fs_node (butlast p @ [stem @ ''.tmp-'' @ se_uuid env]) fs \<noteq> Some (File i)"
    using temp_free_node [OF conjunct1 [OF i] s] by blast
  from replace_cases [OF n temp_not_last [OF s ok] refl, of bs]
  show "framed (snd (write_bytes_with_atomic_replace env (butlast p) p stem bs fs))"
    unfolding p using framed_adds [OF i _ ok in_store_butlast [OF s]] framed_quiet [OF i] m
    by (auto split: prod.splits sum.splits)
qed

lemma keeps_atomically:
  assumes s: "in_store (butlast p)" and ok: "admissible env p bs"
  shows "keeps framed (write_bytes_atomically env (butlast p) p stem bs)"
proof (rule keepsI)
  fix fs
  assume i: "framed fs"
  have p: "butlast p @ [last p] = p" using s by (cases p) auto
  have n: "\<And>i. fs_node (butlast p @ [stem @ ''.tmp-'' @ se_uuid env]) fs \<noteq> Some (File i)"
    using temp_free_node [OF conjunct1 [OF i] s] by blast
  from atomically_cases [OF n temp_not_last [OF s ok] refl, of bs]
  show "framed (snd (write_bytes_atomically env (butlast p) p stem bs fs))"
    unfolding p using framed_adds [OF i _ ok in_store_butlast [OF s]] framed_quiet [OF i]
    by (auto split: prod.splits sum.splits bool.splits)
qed

lemma keeps_meta_writes:
  assumes "digest_ok d"
  shows "keeps framed (write_bytes_with_atomic_replace env (butlast (blob_meta_file d)) (blob_meta_file d) stem bs)"
    "keeps framed (write_bytes_with_atomic_replace env (butlast (tree_meta_file d)) (tree_meta_file d) stem bs)"
  using assms by (auto intro!: keeps_replace store_parents admissible_files simp: meta_file_def)

lemmas keeps_store_writes = keeps_meta_writes keeps_create_parent store_dirs
  keeps_atomically [OF store_parents(3) admissible_files(2)]
  keeps_atomically [OF store_parents(1) admissible_files(5)]
  keeps_atomically [OF store_parents(4) admissible_files(6)]

lemma keeps_persist [triple_rules]:
  "keeps framed (persist_blob_metadata env d m)" "keeps framed (persist_tree_metadata env d m)"
  by (cases "digest_ok d"; simp add: persist_blob_metadata_def persist_tree_metadata_def store_paths store_paths_bad;
      intro triple_rules keeps_store_writes; assumption?)+

lemma keeps_ensure [triple_rules]:
  "keeps framed (ensure_blob_metadata env now d n)" "keeps framed (ensure_tree_metadata env now d n)"
  unfolding ensure_blob_metadata_def ensure_tree_metadata_def Let_def by (intro triple_rules)+

lemma keeps_touch [triple_rules]:
  "keeps framed (touch_blob env now d t)" "keeps framed (touch_tree env now d t)"
  unfolding touch_blob_def touch_tree_def Let_def by (intro triple_rules)+

lemma keeps_variant [triple_rules]: "keeps framed (store_encoded_blob_variant env now d n enc bs)"
  by (cases "digest_ok d"; simp add: store_encoded_blob_variant_def store_paths store_paths_bad cong: if_cong;
      intro triple_rules keeps_store_writes; assumption?)

lemma keeps_maybe_variant [triple_rules]: "keeps framed (maybe_store_zstd_variant env now d bs)"
  unfolding maybe_store_zstd_variant_def by (intro triple_rules)

lemma keeps_store_blob_for_digest [triple_rules]: "keeps framed (store_blob_for_digest env now d bs)"
  by (cases "digest_ok d"; simp add: store_blob_for_digest_def Let_def store_paths store_paths_bad cong: if_cong;
      intro conjI impI triple_rules keeps_store_writes; simp?)

lemma keeps_store_blob [triple_rules]: "keeps framed (store_blob env now bs)"
  unfolding store_blob_def by (intro triple_rules)

lemma keeps_tree_zst_write:
  assumes "digest_ok d"
  shows "keeps framed (fs_write (tree_zst_file d) bs)"
proof (rule keepsI)
  fix fs
  assume i: "framed fs"
  have s: "in_store (tree_zst_file d)" by (simp add: store_files)
  have "store_inv env (snd (fs_write (tree_zst_file d) bs fs))"
    by (rule store_inv_write [OF conjunct1 [OF i] admissible_files(4) [OF assms]])
      (use s unsharedD [OF store_invD(4) [OF conjunct1 [OF i]]] in \<open>simp_all\<close>)
  then show "framed (snd (fs_write (tree_zst_file d) bs fs))" using J_write [OF _ _ assms] i by blast
qed

lemma keeps_maybe_tree_variant [triple_rules]: "keeps framed (maybe_store_tree_zstd_variant env now d bs)"
  by (cases "digest_ok d"; simp add: maybe_store_tree_zstd_variant_def store_paths store_paths_bad cong: if_cong;
      intro triple_rules keeps_tree_zst_write keeps_create_parent store_dirs; assumption?)

lemma keeps_store_tree [triple_rules]: "keeps framed (store_tree env now entries)"
  by (cases "digest_ok (se_sha256 env (se_enc_tree env entries))";
      simp add: store_tree_def Let_def store_paths store_paths_bad cong: if_cong;
      intro conjI impI triple_rules keeps_store_writes; simp?)

end

text \<open>Three frames: the invariant alone, the contents of a blob, the contents of a tree.\<close>

interpretation store_laws: store_frame env "\<lambda>_. True"
  by unfold_locales simp_all

lemma content_frame:
  assumes p: "\<not> meta_file p" "in_store p" "\<And>d. digest_ok d \<Longrightarrow> p \<noteq> tree_zst_file d"
  shows "store_frame env (\<lambda>fs. fs_content p fs = Some bs)"
proof
  fix fs fs'
  assume i: "store_inv env fs" and c: "fs_content p fs = Some bs"
  note w = store_invD(1) [OF i]
  show "fs_content p fs' = Some bs" if "quiet fs fs'" using quiet_content [OF that w] c by simp
  show "fs_content p fs' = Some bs" if "grows fs fs'" using grows_content [OF that] c by simp
  show "fs_content p fs' = Some bs" if a: "adds q bs' fs fs'" and q: "fs_node q fs = None \<or> meta_file q" for q bs'
  proof -
    have "q \<noteq> p" using q p(1) c by (auto simp: fs_content_def)
    then show ?thesis using adds_content [OF a w] c by simp
  qed
  show "fs_content p (snd (fs_write (tree_zst_file d) bs' fs)) = Some bs" if d: "digest_ok d" for d bs'
  proof -
    let ?z = "tree_zst_file d"
    obtain j where j: "fs_node p fs = Some (File j)" "map_of (fs_inodes fs) j = Some bs"
      using c by (auto simp: fs_content_def split: option.splits node.splits)
    have z: "fs_node ?z fs \<noteq> Some (File j)"
    proof
      assume "fs_node ?z fs = Some (File j)"
      then have "p = ?z"
        using j p(2) by (intro unsharedD [OF store_invD(4) [OF i], where i = j])
          (auto simp: fs_node_def store_files split: if_splits)
      then show False using p(3) [OF d] by simp
    qed
    show ?thesis
    proof (cases "fs_node ?z fs")
      case None
      then show ?thesis
        using j p(2) p(3) [OF d] fs_wfD(3) [OF w, of p j] by (auto simp: fs_write_def fs_content_def fs_node_add fs_add_def fs_node_def)
    next
      case (Some n)
      then show ?thesis
        using j z c by (cases n) (auto simp: fs_write_def fs_content_def fs_node_def)
    qed
  qed
qed

lemma blob_frame:
  assumes "digest_ok d"
  shows "store_frame env (\<lambda>fs. fs_content (blob_file d) fs = Some bs)"
proof (rule content_frame)
  show "\<not> meta_file (blob_file d)"
    using store_files_distinct(5) [OF _ assms] store_files_distinct(12) [OF assms] unfolding meta_file_def by metis
  show "in_store (blob_file d)" by (simp add: store_files)
  show "blob_file d \<noteq> tree_zst_file d'" if "digest_ok d'" for d' by (simp add: store_files)
qed

lemma tree_frame:
  assumes "digest_ok d"
  shows "store_frame env (\<lambda>fs. fs_content (tree_file d) fs = Some bs)"
proof (rule content_frame)
  show "\<not> meta_file (tree_file d)"
    using store_files_distinct(8) [OF _ assms] blob_tree_ne(4) unfolding meta_file_def by metis
  show "in_store (tree_file d)" by (simp add: store_files)
  show "tree_file d \<noteq> tree_zst_file d'" if "digest_ok d'" for d' using store_files_distinct(9) [OF that assms] by metis
qed

section \<open>What a successful store leaves behind\<close>

lemma in_store_file_content:
  assumes "store_inv env fs" "fs_node (blob_file d) fs \<noteq> None"
  shows "\<exists>bs. fs_content (blob_file d) fs = Some bs"
proof -
  have n: "map_of (fs_tree fs) (blob_file d) = fs_node (blob_file d) fs" by (simp add: fs_node_def)
  have "fs_node (blob_file d) fs \<noteq> Some Dir"
    using store_invD(5) [OF assms(1)] n by (auto simp: shallow_def store_dir_def store_files)
  then obtain i where "fs_node (blob_file d) fs = Some (File i)"
    using assms(2) by (metis node.exhaust not_None_eq)
  then show ?thesis using fs_wfD(4) [OF store_invD(1) [OF assms(1)], of "blob_file d" i] n by (auto simp: fs_content_def)
qed

lemma in_store_tree_content:
  assumes "store_inv env fs" "fs_node (tree_file d) fs \<noteq> None"
  shows "\<exists>bs. fs_content (tree_file d) fs = Some bs"
proof -
  have n: "map_of (fs_tree fs) (tree_file d) = fs_node (tree_file d) fs" by (simp add: fs_node_def)
  have "fs_node (tree_file d) fs \<noteq> Some Dir"
    using store_invD(5) [OF assms(1)] n by (auto simp: shallow_def store_dir_def store_files)
  then obtain i where "fs_node (tree_file d) fs = Some (File i)"
    using assms(2) by (metis node.exhaust not_None_eq)
  then show ?thesis using fs_wfD(4) [OF store_invD(1) [OF assms(1)], of "tree_file d" i] n by (auto simp: fs_content_def)
qed

abbreviation blob_in :: "store_env \<Rightarrow> string \<Rightarrow> fs \<Rightarrow> bool" where
  "blob_in env d fs \<equiv> store_inv env fs \<and> (\<exists>bs. fs_content (blob_file d) fs = Some bs)"

abbreviation tree_in :: "store_env \<Rightarrow> string \<Rightarrow> fs \<Rightarrow> bool" where
  "tree_in env d fs \<equiv> store_inv env fs \<and> (\<exists>bs. fs_content (tree_file d) fs = Some bs)"

lemma atomically_adds:
  assumes s: "in_store (butlast p)" and ok: "admissible env p bs" and l: "se_hard_link env \<noteq> Some EEXIST"
    and i: "store_inv env fs" and w: "write_bytes_atomically env (butlast p) p stem bs fs = (Inr b, fs')"
  shows "store_inv env fs'" "fs_node p fs' \<noteq> None" "b \<longleftrightarrow> fs_node p fs = None"
proof -
  have p: "butlast p @ [last p] = p" using s by (cases p) auto
  have n: "\<And>i. fs_node (butlast p @ [stem @ ''.tmp-'' @ se_uuid env]) fs \<noteq> Some (File i)"
    using temp_free_node [OF i s] by blast
  show "store_inv env fs'" using keepsD [OF store_laws.keeps_atomically [OF s ok, of stem], of fs] i w by simp
  show "fs_node p fs' \<noteq> None" "b \<longleftrightarrow> fs_node p fs = None"
    using atomically_cases [OF n temp_not_last [OF s ok] refl, of bs, unfolded p w] l quiet_node [of fs fs' p]
    by (cases b; auto simp: adds_def fs_node_def)+
qed

lemma keeps_run: "keeps P m \<Longrightarrow> m s = (r, t) \<Longrightarrow> P s \<Longrightarrow> P t"
  using keepsD by fastforce

lemma create_parent_absent:
  assumes "create_parent env p fs = (r, fs')" "fs_node p fs = None" "p \<noteq> []"
  shows "fs_node p fs' = None"
proof -
  have "fs_node p (snd (fs_create_dir_all (butlast p) fs)) \<noteq> Some Dir"
  proof
    assume "fs_node p (snd (fs_create_dir_all (butlast p) fs)) = Some Dir"
    from create_dir_all_new [OF this] obtain n where "p = take n (butlast p)" using assms(2) by auto
    then have "length p \<le> length (butlast p)" by (metis length_take min.cobounded1)
    then show False using assms(3) by (simp add: Suc_le_eq flip: length_greater_0_conv)
  qed
  moreover have "fs' = snd (fs_create_dir_all (butlast p) fs)"
    using assms(1) by (auto simp: create_parent_def in_context_eq split: prod.splits sum.splits)
  ultimately show ?thesis
    using assms(2) grows_nodes [OF create_dir_all_grows, of p "butlast p" fs] by auto
qed

text \<open>The result of a store says whether the blob was new; afterwards the blob is there.\<close>

lemma store_blob_for_digest_spec:
  assumes l: "se_hard_link env \<noteq> Some EEXIST" and i: "store_inv env fs"
    and run: "store_blob_for_digest env now d bs fs = (Inr r, fs')"
  shows "blob_in env d fs'" "digest_ok d" "se_sha256 env bs = d" "sb_digest (vr_blob r) = d"
    "vr_uploaded r \<longleftrightarrow> fs_node (blob_file d) fs = None"
proof -
  show d: "digest_ok d"
    using run by (cases "digest_ok d") (auto simp: store_blob_for_digest_def store_paths_bad act_Inr)
  show sha: "se_sha256 env bs = d"
    using run d by (auto simp: store_blob_for_digest_def store_paths act_Inr Let_def split: if_splits)
  from run d sha obtain u fs1 m fs2 v fs3 t where
    put: "(if fs_node (blob_file d) fs \<noteq> None then act_return False
           else act_bind (create_parent env (blob_file d)) (\<lambda>_.
             write_bytes_atomically env (butlast (blob_file d)) (blob_file d) (drop 2 d) bs)) fs = (Inr u, fs1)"
    and steps: "ensure_blob_metadata env now d (length bs) fs1 = (Inr m, fs2)"
      "maybe_store_zstd_variant env now d bs fs2 = (Inr v, fs3)" "touch_blob env now d now fs3 = (Inr t, fs')"
    and r: "r = \<lparr> vr_blob = \<lparr> sb_digest = d, sb_path = blob_file d \<rparr>, vr_uploaded = u \<rparr>"
    by (simp add: store_blob_for_digest_def store_paths Let_def act_Inr exists_at_def cong: if_cong) blast
  have 1: "store_inv env fs1 \<and> fs_node (blob_file d) fs1 \<noteq> None \<and> u = (fs_node (blob_file d) fs = None)"
  proof (cases "fs_node (blob_file d) fs")
    case None
    with put obtain x fs0 where c: "create_parent env (blob_file d) fs = (Inr x, fs0)"
      and w: "write_bytes_atomically env (butlast (blob_file d)) (blob_file d) (drop 2 d) bs fs0 = (Inr u, fs1)"
      by (auto simp: act_Inr)
    have "store_inv env fs0"
      using keeps_run [OF store_laws.keeps_create_parent [OF store_dirs(1)] c] i by simp
    from atomically_adds [OF store_parents(1) admissible_files(5) [OF d sha] l this w] show ?thesis
      using create_parent_absent [OF c None] None by simp
  next
    case (Some n)
    then show ?thesis using put i by (simp add: act_Inr)
  qed
  then obtain y where "store_inv env fs1 \<and> fs_content (blob_file d) fs1 = Some y"
    using in_store_file_content by blast
  then have "store_inv env fs2 \<and> fs_content (blob_file d) fs2 = Some y"
    by (rule keeps_run [OF store_frame.keeps_ensure(1) [OF blob_frame [OF d]] steps(1)])
  then have "store_inv env fs3 \<and> fs_content (blob_file d) fs3 = Some y"
    by (rule keeps_run [OF store_frame.keeps_maybe_variant [OF blob_frame [OF d]] steps(2)])
  then have "store_inv env fs' \<and> fs_content (blob_file d) fs' = Some y"
    by (rule keeps_run [OF store_frame.keeps_touch(1) [OF blob_frame [OF d]] steps(3)])
  then show "blob_in env d fs'" by blast
  show "sb_digest (vr_blob r) = d" "vr_uploaded r \<longleftrightarrow> fs_node (blob_file d) fs = None" using r 1 by simp_all
qed

text \<open>Wrong contents are refused before anything is written.\<close>

lemma store_blob_for_digest_refused:
  "\<not> digest_ok d \<Longrightarrow> store_blob_for_digest env now d bs fs = (Inl (digest_error d), fs)"
  "digest_ok d \<Longrightarrow> se_sha256 env bs \<noteq> d \<Longrightarrow>
     store_blob_for_digest env now d bs fs
       = (Inl (bail (''blob digest mismatch: expected '' @ d @ '', got '' @ se_sha256 env bs)), fs)"
  by (simp_all add: store_blob_for_digest_def store_paths store_paths_bad act_fail_def Let_def)

lemma store_tree_spec:
  assumes l: "se_hard_link env \<noteq> Some EEXIST" and i: "store_inv env fs"
    and run: "store_tree env now entries fs = (Inr r, fs')"
  shows "tree_in env (stt_digest r) fs'" "digest_ok (stt_digest r)"
    "stt_digest r = se_sha256 env (se_enc_tree env entries)"
proof -
  define bs where "bs = se_enc_tree env entries"
  define d where "d = se_sha256 env bs"
  have d: "digest_ok d"
    using run by (cases "digest_ok d") (auto simp: store_tree_def store_paths_bad act_Inr d_def bs_def Let_def)
  from run d obtain fs1 m fs2 v fs3 t where
    put: "(if fs_node (tree_file d) fs \<noteq> None then act_return ()
           else act_bind (create_parent env (tree_file d)) (\<lambda>_.
             act_bind (write_bytes_atomically env (butlast (tree_file d)) (tree_file d) (d @ ''.json'') bs) (\<lambda>_.
             act_return ()))) fs = (Inr (), fs1)"
    and steps: "ensure_tree_metadata env now d (length bs) fs1 = (Inr m, fs2)"
      "maybe_store_tree_zstd_variant env now d bs fs2 = (Inr v, fs3)" "touch_tree env now d now fs3 = (Inr t, fs')"
    and r: "r = \<lparr> stt_digest = d, stt_path = tree_file d \<rparr>"
    by (simp add: store_tree_def store_paths Let_def act_Inr exists_at_def flip: bs_def d_def cong: if_cong) blast
  have 1: "store_inv env fs1 \<and> fs_node (tree_file d) fs1 \<noteq> None"
  proof (cases "fs_node (tree_file d) fs")
    case None
    with put obtain x fs0 u where c: "create_parent env (tree_file d) fs = (Inr x, fs0)"
      and w: "write_bytes_atomically env (butlast (tree_file d)) (tree_file d) (d @ ''.json'') bs fs0 = (Inr u, fs1)"
      by (auto simp: act_Inr)
    have "store_inv env fs0"
      using keeps_run [OF store_laws.keeps_create_parent [OF store_dirs(4)] c] i by simp
    from atomically_adds [OF store_parents(4) admissible_files(6) [OF d d_def [symmetric]] l this w] show ?thesis
      by simp
  next
    case (Some n)
    then show ?thesis using put i by (simp add: act_Inr)
  qed
  then obtain y where "store_inv env fs1 \<and> fs_content (tree_file d) fs1 = Some y"
    using in_store_tree_content by blast
  then have "store_inv env fs2 \<and> fs_content (tree_file d) fs2 = Some y"
    by (rule keeps_run [OF store_frame.keeps_ensure(2) [OF tree_frame [OF d]] steps(1)])
  then have "store_inv env fs3 \<and> fs_content (tree_file d) fs3 = Some y"
    by (rule keeps_run [OF store_frame.keeps_maybe_tree_variant [OF tree_frame [OF d]] steps(2)])
  then have "store_inv env fs' \<and> fs_content (tree_file d) fs' = Some y"
    by (rule keeps_run [OF store_frame.keeps_touch(2) [OF tree_frame [OF d]] steps(3)])
  then show "tree_in env (stt_digest r) fs'" using r by simp
  show "digest_ok (stt_digest r)" "stt_digest r = se_sha256 env (se_enc_tree env entries)"
    using r d by (simp_all add: d_def bs_def)
qed

section \<open>Work outside the stores\<close>

text \<open>A change that leaves the files of the stores alone: another program writes elsewhere in the
  state directory.\<close>

definition outside_store :: "fs \<Rightarrow> fs \<Rightarrow> bool" where
  "outside_store fs fs' \<longleftrightarrow> fs_wf fs' \<and> (\<forall>p. in_store p \<longrightarrow> fs_node p fs' = fs_node p fs)
     \<and> (\<forall>p j. in_store p \<longrightarrow> fs_node p fs = Some (File j) \<longrightarrow> map_of (fs_inodes fs') j = map_of (fs_inodes fs) j)"

lemma store_inv_outside:
  assumes i: "store_inv env fs" and w: "fs_wf fs'"
    and n: "\<And>p. in_store p \<Longrightarrow> fs_node p fs' = fs_node p fs"
    and d: "\<And>p j. in_store p \<Longrightarrow> fs_node p fs = Some (File j) \<Longrightarrow> map_of (fs_inodes fs') j = map_of (fs_inodes fs) j"
  shows "store_inv env fs'"
proof -
  have t: "map_of (fs_tree fs') p = map_of (fs_tree fs) p" if "in_store p" for p
    using n [OF that] that by (simp add: fs_node_def)
  have c: "fs_content p fs' = fs_content p fs" if "in_store p" for p
    using n [OF that] d [OF that] by (auto simp: fs_content_def split: option.split node.split)
  have st: "in_store (blob_file x)" "in_store (tree_file x)" for x by (simp_all add: store_files)
  show ?thesis
    unfolding store_inv_def
  proof (intro conjI)
    show "temp_free env fs'"
      unfolding temp_free_def
    proof (intro allI impI)
      fix p j
      assume "map_of (fs_tree fs') p = Some (File j)" and s: "in_store p"
      then show "\<not> ends_with (''.tmp-'' @ se_uuid env) (last p)"
        using store_invD(2) [OF i] t [OF s] unfolding temp_free_def by simp
    qed
    show "integrity env fs'" using store_invD(3) [OF i] by (simp add: integrity_def c [OF st(1)] c [OF st(2)])
    show "unshared fs'"
    proof (rule unsharedI)
      fix p q j
      assume "map_of (fs_tree fs') p = Some (File j)" "map_of (fs_tree fs') q = Some (File j)"
        and s: "in_store p" "in_store q"
      then show "p = q"
        using unsharedD [OF store_invD(4) [OF i] _ _ s] t [OF s(1)] t [OF s(2)] by simp
    qed
    show "shallow fs'"
      unfolding shallow_def
    proof (intro allI impI)
      fix p
      assume "map_of (fs_tree fs') p = Some Dir"
      then show "store_dir p"
        using store_invD(5) [OF i] t [of p] by (cases "in_store p") (auto simp: shallow_def store_dir_def)
    qed
  qed (rule w)
qed

definition no_files :: "path set \<Rightarrow> fs \<Rightarrow> bool" where
  "no_files T fs \<longleftrightarrow> (\<forall>t\<in>T. \<not> is_file t fs)"

lemma is_file_iff: "is_file p fs \<longleftrightarrow> (\<exists>j. fs_node p fs = Some (File j))"
  by (simp add: is_file_def split: option.split node.split)

lemma no_files_frame:
  assumes o: "\<And>t. t \<in> T \<Longrightarrow> \<not> in_store t"
  shows "store_frame env (no_files T)"
proof
  fix fs fs'
  assume c: "no_files T fs"
  show "no_files T fs'" if "quiet fs fs'"
    using c by (simp add: no_files_def is_file_def quiet_node [OF that])
  show "no_files T fs'" if "grows fs fs'"
    using c by (simp add: no_files_def is_file_iff grows_file [OF that])
  show "no_files T fs'" if a: "adds p bs fs fs'" and p: "in_store p" for p bs
    unfolding no_files_def
  proof
    fix t
    assume t: "t \<in> T"
    then have "t \<noteq> p" using o [OF t] p by auto
    then show "\<not> is_file t fs'" using c t by (simp add: no_files_def is_file_def adds_node [OF a])
  qed
  show "no_files T (snd (fs_write (tree_zst_file d) bs fs))" for d bs
    unfolding no_files_def
  proof
    fix t
    assume t: "t \<in> T"
    have "t \<noteq> tree_zst_file d" using o [OF t] by (auto simp: store_files)
    then have "fs_node t (snd (fs_write (tree_zst_file d) bs fs)) = fs_node t fs"
      by (auto simp: fs_write_def fs_add_def fs_node_def split: option.split node.split)
    then show "\<not> is_file t (snd (fs_write (tree_zst_file d) bs fs))"
      using c t by (simp add: no_files_def is_file_def)
  qed
qed

end
