(* ===== verification/Snapshot_Runtime.thy ===== *)
theory Snapshot_Runtime
  imports Snapshot_Store Remerge_Types Server_Config Binpkg_Repo
begin

text \<open>
  The runtime of workorders (\<open>crates/server/src/runtime.rs\<close>): the manifest of the snapshots a
  configuration refers to, the directory staged for a worker, what is read back from it, and
  the clean-up of the snapshot store.  \<open>Path::components\<close> is modelled as on Unix.
\<close>

section \<open>Parameters\<close>

record runtime_env =
  re_store :: store_env
  re_show_uuid :: "workorder_id \<Rightarrow> string"
  re_enc_workorder :: "workorder \<Rightarrow> bytes"
  re_dec_parity :: "bytes \<Rightarrow> string + parity_manifest"
  re_dec_distfiles :: "bytes \<Rightarrow> string + (string, snapshot_entry) btree_map"

section \<open>Safe paths\<close>

datatype component = RootDir | CurDir | ParentDir | Normal string

fun component_of :: "string \<Rightarrow> component" where
  "component_of p = (if p = ''.'' then CurDir else if p = ''..'' then ParentDir else Normal p)"

text \<open>Empty pieces are skipped, and so is a dot unless the path starts with it.\<close>

definition path_components :: "string \<Rightarrow> component list" where
  "path_components s =
     (let pieces = split_on (CHR ''/'') s;
          rest = (\<lambda>ps. map component_of (filter (\<lambda>p. p \<noteq> [] \<and> p \<noteq> ''.'') ps))
      in if s = [] then []
         else if hd pieces = [] then RootDir # rest (tl pieces)
         else component_of (hd pieces) # rest (tl pieces))"

fun normal_names :: "component list \<Rightarrow> string list option" where
  "normal_names [] = Some []"
| "normal_names (Normal n # cs) = map_option ((#) n) (normal_names cs)"
| "normal_names (_ # cs) = None"

definition single_normal :: "string \<Rightarrow> string option" where
  "single_normal name = (case path_components name of [Normal n] \<Rightarrow> Some n | _ \<Rightarrow> None)"

definition is_single_normal_path_component :: "string \<Rightarrow> bool" where
  "is_single_normal_path_component name \<longleftrightarrow> single_normal name \<noteq> None"

definition quoted :: "string \<Rightarrow> string" where
  "quoted s = [CHR 0x27] @ s @ [CHR 0x27]"

text \<open>\<open>Debug\<close> of a path of ASCII characters.\<close>

definition hex_byte :: "nat \<Rightarrow> string" where
  "hex_byte n = map (\<lambda>d. ''0123456789abcdef'' ! d) (if n < 16 then [n] else [n div 16, n mod 16])"

definition escape_debug :: "char \<Rightarrow> string" where
  "escape_debug c =
     (if c = CHR 0x22 \<or> c = CHR 0x5C then [CHR 0x5C, c]
      else if c = CHR 0x09 then [CHR 0x5C, CHR ''t'']
      else if c = CHR 0x0A then [CHR 0x5C, CHR ''n'']
      else if c = CHR 0x0D then [CHR 0x5C, CHR ''r'']
      else if c = CHR 0x00 then [CHR 0x5C, CHR ''0'']
      else if of_char c < (32::nat) \<or> of_char c = (127::nat)
      then [CHR 0x5C, CHR ''u'', CHR 0x7B] @ hex_byte (of_char c) @ [CHR 0x7D]
      else [c])"

definition path_debug :: "string \<Rightarrow> string" where
  "path_debug p = [CHR 0x22] @ concat (map escape_debug p) @ [CHR 0x22]"

text \<open>The directory of a repository below the directory of all of them.\<close>

definition sanitize_file_name :: "string \<Rightarrow> anyhow + path" where
  "sanitize_file_name name =
     (case single_normal name of
        Some n \<Rightarrow> Inr [n]
      | None \<Rightarrow> Inl (bail (''invalid file name '' @ quoted name)))"

text \<open>The file of a distfile.  A name that has more than its one component ends in a slash or a
  dot; the operating system then refuses to create the file.\<close>

definition sanitize_distfile_name :: "string \<Rightarrow> anyhow + path" where
  "sanitize_distfile_name name =
     (case single_normal name of
        Some n \<Rightarrow> (if n = name then Inr [n] else Inl (os_error EISDIR))
      | None \<Rightarrow> Inl (bail (''invalid distfile name '' @ quoted name)))"

definition sanitize_relative_path :: "string \<Rightarrow> anyhow + path" where
  "sanitize_relative_path path =
     (if path = [] \<or> starts_with ''/'' path
      then Inl (bail (''invalid relative path '' @ quoted (path_debug path)))
      else ok_or (bail (''invalid relative path '' @ quoted (path_debug path))) (normal_names (path_components path)))"

section \<open>The manifest of a configuration\<close>

definition bs_of_list :: "'k::linorder list \<Rightarrow> 'k list" where
  "bs_of_list ks = fold bs_insert ks []"

definition snapshot_refs_of :: "(string, snapshot_entry) btree_map \<Rightarrow> (string, string) btree_map" where
  "snapshot_refs_of entries = map (\<lambda>(p, e). (p, se_digest e)) entries"

definition ensure_blob_exists :: "store_env \<Rightarrow> string \<Rightarrow> unit fs_action" where
  "ensure_blob_exists env digest =
     act_bind (act_lift (blob_path digest)) (\<lambda>source.
     act_bind (in_context (''Missing referenced blob '' @ digest @ '' at '' @ display_path env source)
       (fs_metadata source)) (\<lambda>_. act_return ()))"

definition tree_mismatch :: "string \<Rightarrow> anyhow" where
  "tree_mismatch repo_name = bail (''repo snapshot tree digest mismatch for '' @ quoted repo_name)"

definition some_nonempty :: "string option \<Rightarrow> string option" where
  "some_nonempty x = (case x of Some d \<Rightarrow> (if d = [] then None else Some d) | None \<Rightarrow> None)"

text \<open>The tree of the references is stored; it must have the expected digest, if there is one.\<close>

definition store_expected_tree ::
    "store_env \<Rightarrow> timestamp \<Rightarrow> string \<Rightarrow> (string, string) btree_map \<Rightarrow> string option \<Rightarrow> string fs_action" where
  "store_expected_tree env now repo_name refs expected =
     act_bind (store_tree env now refs) (\<lambda>tree.
       case expected of
         Some d \<Rightarrow> (if stt_digest tree \<noteq> d then act_fail (tree_mismatch repo_name)
                    else act_return (stt_digest tree))
       | None \<Rightarrow> act_return (stt_digest tree))"

text \<open>One inline file of a repository.\<close>

definition inline_entry ::
    "store_env \<Rightarrow> timestamp \<Rightarrow> portage_config \<Rightarrow> repo_snapshot_manifest option \<Rightarrow> string
     \<Rightarrow> string \<times> string \<Rightarrow> (string, snapshot_entry) btree_map
     \<Rightarrow> (string, snapshot_entry) btree_map fs_action" where
  "inline_entry env now cfg existing repo_name item entries =
     (case item of (relative_path, content) \<Rightarrow>
      act_bind (store_blob env now (string_bytes content)) (\<lambda>blob.
      let digest = sb_digest blob;
          existing_entry = Option.bind existing (\<lambda>repo. map_of (rsm_entries repo) relative_path);
          expected = Option.bind (map_of (pc_repo_snapshot_refs cfg) repo_name)
                       (\<lambda>refs. map_of refs relative_path)
      in if expected \<noteq> None \<and> expected \<noteq> Some digest
         then act_fail (bail (''repo snapshot refs for '' @ quoted repo_name @ '' do not match inline payloads''))
         else act_return (bm_insert relative_path
                \<lparr> se_digest = digest, se_size = length content,
                  se_mtime_secs = unwrap_or 0 (map_option se_mtime_secs existing_entry) \<rparr> entries)))"

text \<open>One reference without its contents.\<close>

definition referenced_entry ::
    "store_env \<Rightarrow> string \<times> string \<Rightarrow> (string, snapshot_entry) btree_map
     \<Rightarrow> (string, snapshot_entry) btree_map fs_action" where
  "referenced_entry env item entries =
     (case item of (relative_path, digest) \<Rightarrow>
      act_bind (load_blob_metadata env digest) (\<lambda>metadata.
      act_return (bm_insert relative_path
        \<lparr> se_digest = digest, se_size = bm_raw_size_bytes metadata, se_mtime_secs = 0 \<rparr> entries)))"

definition build_repo_snapshot_manifest ::
    "store_env \<Rightarrow> timestamp \<Rightarrow> portage_config \<Rightarrow> snapshot_manifest \<Rightarrow> string \<Rightarrow> repo_snapshot_manifest fs_action" where
  "build_repo_snapshot_manifest env now cfg manifest repo_name =
     (let existing = map_of (sm_repo_snapshots manifest) repo_name;
          configured_tree = some_nonempty (map_of (pc_repo_snapshot_trees cfg) repo_name)
      in case map_of (pc_repo_snapshots cfg) repo_name of
           Some snapshot \<Rightarrow>
             act_bind (act_fold (inline_entry env now cfg existing repo_name) snapshot []) (\<lambda>entries.
             act_bind (store_expected_tree env now repo_name (snapshot_refs_of entries)
                 (or_else (some_nonempty (map_option rsm_tree_digest existing)) configured_tree)) (\<lambda>tree.
             act_return \<lparr> rsm_tree_digest = tree, rsm_entries = entries \<rparr>))
         | None \<Rightarrow>
             (case existing of
                Some existing_manifest \<Rightarrow>
                  act_bind (act_each (\<lambda>(_, entry). ensure_blob_exists env (se_digest entry))
                      (rsm_entries existing_manifest)) (\<lambda>_.
                  act_bind (store_expected_tree env now repo_name
                      (snapshot_refs_of (rsm_entries existing_manifest))
                      (some_nonempty (Some (rsm_tree_digest existing_manifest)))) (\<lambda>tree.
                  act_return \<lparr> rsm_tree_digest = tree, rsm_entries = rsm_entries existing_manifest \<rparr>))
              | None \<Rightarrow>
                  (case map_of (pc_repo_snapshot_refs cfg) repo_name of
                     Some existing_refs \<Rightarrow>
                       act_bind (act_fold (referenced_entry env) existing_refs []) (\<lambda>entries.
                       act_bind (store_expected_tree env now repo_name existing_refs configured_tree) (\<lambda>tree.
                       act_return \<lparr> rsm_tree_digest = tree, rsm_entries = entries \<rparr>))
                   | None \<Rightarrow> act_return \<lparr> rsm_tree_digest = [], rsm_entries = [] \<rparr>)))"

definition build_distfile_snapshot_entry ::
    "store_env \<Rightarrow> timestamp \<Rightarrow> portage_config \<Rightarrow> snapshot_manifest \<Rightarrow> string \<Rightarrow> snapshot_entry option fs_action" where
  "build_distfile_snapshot_entry env now cfg manifest name =
     (case map_of (pc_distfile_snapshots cfg) name of
        Some bytes \<Rightarrow>
          act_bind (store_blob env now bytes) (\<lambda>blob.
          let digest = sb_digest blob; expected = map_of (pc_distfile_snapshot_refs cfg) name in
          if expected \<noteq> None \<and> expected \<noteq> Some digest
          then act_fail (bail (''distfile snapshot digest mismatch for '' @ quoted name))
          else act_return (Some \<lparr> se_digest = digest, se_size = length bytes,
                 se_mtime_secs = unwrap_or 0 (map_option se_mtime_secs (map_of (sm_distfiles manifest) name)) \<rparr>))
      | None \<Rightarrow>
          (case map_of (sm_distfiles manifest) name of
             Some entry \<Rightarrow>
               act_bind (ensure_blob_exists env (se_digest entry)) (\<lambda>_. act_return (Some entry))
           | None \<Rightarrow>
               (case map_of (pc_distfile_snapshot_refs cfg) name of
                  Some digest \<Rightarrow>
                    act_bind (load_blob_metadata env digest) (\<lambda>metadata.
                    act_return (Some \<lparr> se_digest = digest, se_size = bm_raw_size_bytes metadata,
                                       se_mtime_secs = 0 \<rparr>))
                | None \<Rightarrow> act_return None)))"

text \<open>The loops of the manifest: the manifest that is built so far is what the next step reads.\<close>

definition add_repo_manifest ::
    "store_env \<Rightarrow> timestamp \<Rightarrow> portage_config \<Rightarrow> string \<Rightarrow> snapshot_manifest \<Rightarrow> snapshot_manifest fs_action" where
  "add_repo_manifest env now cfg repo_name manifest =
     act_bind (build_repo_snapshot_manifest env now cfg manifest repo_name) (\<lambda>repo.
     act_return (if rsm_entries repo \<noteq> []
       then manifest\<lparr> sm_repo_snapshots := bm_insert repo_name repo (sm_repo_snapshots manifest) \<rparr>
       else manifest))"

definition add_distfile_entry ::
    "store_env \<Rightarrow> timestamp \<Rightarrow> portage_config \<Rightarrow> string \<Rightarrow> snapshot_manifest \<Rightarrow> snapshot_manifest fs_action" where
  "add_distfile_entry env now cfg name manifest =
     act_bind (build_distfile_snapshot_entry env now cfg manifest name) (\<lambda>entry.
     act_return (case entry of
         Some e \<Rightarrow> manifest\<lparr> sm_distfiles := bm_insert name e (sm_distfiles manifest) \<rparr>
       | None \<Rightarrow> manifest))"

definition effective_snapshot_manifest ::
    "store_env \<Rightarrow> timestamp \<Rightarrow> portage_config \<Rightarrow> snapshot_manifest fs_action" where
  "effective_snapshot_manifest env now cfg =
     (let manifest = pc_snapshot_manifest cfg in
      if sm_version manifest \<noteq> SNAPSHOT_MANIFEST_VERSION_V1
      then act_fail (bail (''unsupported snapshot manifest version '' @ show_nat (sm_version manifest)))
      else
        act_bind (act_fold (add_repo_manifest env now cfg)
            (bs_of_list (map fst (pc_repo_snapshots cfg) @ map fst (pc_repo_snapshot_refs cfg)
               @ map fst (sm_repo_snapshots manifest))) manifest) (\<lambda>manifest.
        act_fold (add_distfile_entry env now cfg)
          (bs_of_list (map fst (pc_distfile_snapshots cfg) @ map fst (pc_distfile_snapshot_refs cfg)
             @ map fst (sm_distfiles manifest))) manifest))"

text \<open>A configuration with its snapshots replaced by references.\<close>

definition with_manifest ::
    "snapshot_manifest \<Rightarrow> (string, snapshot_refs) btree_map \<Rightarrow> (string, string) btree_map
     \<Rightarrow> (string, string) btree_map \<Rightarrow> portage_config \<Rightarrow> portage_config" where
  "with_manifest manifest refs trees distfiles cfg =
     cfg\<lparr> pc_repo_snapshots := [], pc_distfile_snapshots := [], pc_snapshot_manifest := manifest,
          pc_repo_snapshot_refs := refs, pc_repo_snapshot_trees := trees,
          pc_distfile_snapshot_refs := distfiles \<rparr>"

definition normalize_portage_config_snapshots ::
    "store_env \<Rightarrow> timestamp \<Rightarrow> portage_config \<Rightarrow> portage_config fs_action" where
  "normalize_portage_config_snapshots env now cfg =
     act_bind (effective_snapshot_manifest env now cfg) (\<lambda>manifest.
     act_return (with_manifest manifest
       (map (\<lambda>(n, r). (n, snapshot_refs_of (rsm_entries r))) (sm_repo_snapshots manifest))
       (map (\<lambda>(n, r). (n, rsm_tree_digest r)) (sm_repo_snapshots manifest))
       (snapshot_refs_of (sm_distfiles manifest)) cfg))"

section \<open>References\<close>

definition stat_all :: "store_env \<Rightarrow> (string \<Rightarrow> anyhow + path) \<Rightarrow> string list \<Rightarrow> nat fs_action" where
  "stat_all env path_of digests =
     act_fold (\<lambda>digest total.
       act_bind (act_lift (path_of digest)) (\<lambda>p.
       act_bind (in_context (''Failed to stat '' @ display_path env p) (fs_metadata p)) (\<lambda>n.
       act_return (total + n)))) digests 0"

definition collect_snapshot_references ::
    "store_env \<Rightarrow> timestamp \<Rightarrow> portage_config \<Rightarrow> snapshot_reference_set fs_action" where
  "collect_snapshot_references env now cfg =
     act_bind (effective_snapshot_manifest env now cfg) (\<lambda>manifest.
     let blob_digests = bs_of_list
           (concat (map (\<lambda>(_, repo). map (\<lambda>(_, e). se_digest e) (rsm_entries repo)) (sm_repo_snapshots manifest))
            @ map (\<lambda>(_, e). se_digest e) (sm_distfiles manifest));
         tree_digests = bs_of_list (filter (\<lambda>d. d \<noteq> [])
           (map (\<lambda>(_, repo). rsm_tree_digest repo) (sm_repo_snapshots manifest)))
     in act_bind (stat_all env blob_path blob_digests) (\<lambda>total_blob_bytes.
        act_bind (stat_all env tree_path tree_digests) (\<lambda>total_tree_bytes.
        act_return \<lparr> srs_blob_digests = blob_digests, srs_tree_digests = tree_digests,
                     srs_total_blob_bytes = total_blob_bytes, srs_total_tree_bytes = total_tree_bytes,
                     srs_last_referenced_at = now \<rparr>)))"

definition touch_snapshot_references ::
    "store_env \<Rightarrow> timestamp \<Rightarrow> snapshot_reference_set \<Rightarrow> unit fs_action" where
  "touch_snapshot_references env now references =
     act_bind (act_each (\<lambda>digest.
         act_bind (touch_blob env now digest (srs_last_referenced_at references)) (\<lambda>_. act_return ()))
       (srs_blob_digests references)) (\<lambda>_.
     act_each (\<lambda>digest.
         act_bind (touch_tree env now digest (srs_last_referenced_at references)) (\<lambda>_. act_return ()))
       (srs_tree_digests references))"

section \<open>Staging\<close>

definition RUNTIME_SUBDIR :: string where
  "RUNTIME_SUBDIR = ''runtime''"

definition runtime_dir :: "runtime_env \<Rightarrow> workorder_id \<Rightarrow> path" where
  "runtime_dir re w = [RUNTIME_SUBDIR, re_show_uuid re w]"

definition reflink_unsupported :: "errno list" where
  "reflink_unsupported = [EOPNOTSUPP, EXDEV, EINVAL, ENOTTY, ENOSYS, EPERM]"

definition try_reflink :: "store_env \<Rightarrow> path \<Rightarrow> path \<Rightarrow> bool fs_action" where
  "try_reflink env source target =
     act_bind (in_context (''Failed to open '' @ display_path env source) (fs_read source)) (\<lambda>bytes.
     act_match (fs_create_new target) (\<lambda>created.
       case created of
         Inl e \<Rightarrow>
           if ah_errno e = Some EEXIST then act_return False
           else act_fail (with_context (''Failed to create '' @ display_path env target) e)
       | Inr _ \<Rightarrow>
           (case se_reflink env of
              None \<Rightarrow> act_bind (fs_write target bytes) (\<lambda>_. act_return True)
            | Some e \<Rightarrow>
                act_match (fs_remove_file target) (\<lambda>_.
                  if e \<in> set reflink_unsupported then act_return False
                  else act_fail (with_context (''Failed to reflink '' @ display_path env source
                         @ '' into '' @ display_path env target) (os_error e))))))"

definition link_blob_into_target :: "store_env \<Rightarrow> path \<Rightarrow> path \<Rightarrow> unit fs_action" where
  "link_blob_into_target env source target =
     act_bind (create_parent env target) (\<lambda>_.
     act_bind (try_reflink env source target) (\<lambda>cloned.
     if cloned then act_return ()
     else
       act_match (fs_hard_link (se_hard_link env) source target) (\<lambda>linked.
         case linked of
           Inr _ \<Rightarrow> act_return ()
         | Inl e \<Rightarrow>
             if ah_errno e = Some EEXIST \<or> ah_errno e = Some EXDEV
             then in_context (''Failed to copy '' @ display_path env source @ '' to ''
                    @ display_path env target) (fs_copy source target)
             else act_fail (with_context (''Failed to link '' @ display_path env source
                    @ '' into '' @ display_path env target) e))))"

definition materialize_blob_for_digest :: "store_env \<Rightarrow> path \<Rightarrow> string \<Rightarrow> string fs_action" where
  "materialize_blob_for_digest env target digest =
     act_bind (act_lift (blob_path digest)) (\<lambda>source.
     act_bind (in_context (''Missing referenced blob '' @ digest @ '' at '' @ display_path env source)
       (fs_metadata source)) (\<lambda>_.
     act_bind (link_blob_into_target env source target) (\<lambda>_.
     act_return digest)))"

record staged_workorder_runtime =
  sw_runtime_dir :: path
  sw_workorder_json_path :: path
  sw_snapshot_references :: snapshot_reference_set

text \<open>One repository: its files, then its tree; a repository without files adds nothing.\<close>

definition stage_repo ::
    "store_env \<Rightarrow> timestamp \<Rightarrow> path \<Rightarrow> string \<times> repo_snapshot_manifest
     \<Rightarrow> (string, snapshot_refs) btree_map \<times> (string, string) btree_map
     \<Rightarrow> ((string, snapshot_refs) btree_map \<times> (string, string) btree_map) fs_action" where
  "stage_repo env now repos_dir item acc =
     (case item of (repo_name, repo) \<Rightarrow>
      act_bind (act_lift (sanitize_file_name repo_name)) (\<lambda>name.
      act_bind (act_each (\<lambda>(relative_path, entry).
          act_bind (act_lift (sanitize_relative_path relative_path)) (\<lambda>safe_relative.
          act_bind (materialize_blob_for_digest env (repos_dir @ name @ safe_relative) (se_digest entry))
            (\<lambda>_. act_return ()))) (rsm_entries repo)) (\<lambda>_.
      let snapshot_refs = snapshot_refs_of (rsm_entries repo) in
      if snapshot_refs = [] then act_return acc
      else
        act_bind (store_expected_tree env now repo_name snapshot_refs
            (some_nonempty (Some (rsm_tree_digest repo)))) (\<lambda>tree.
        act_return (bm_insert repo_name snapshot_refs (fst acc), bm_insert repo_name tree (snd acc))))))"

definition stage_distfile ::
    "store_env \<Rightarrow> path \<Rightarrow> string \<times> snapshot_entry \<Rightarrow> (string, string) btree_map
     \<Rightarrow> (string, string) btree_map fs_action" where
  "stage_distfile env distfiles_dir item refs =
     (case item of (name, entry) \<Rightarrow>
      act_bind (act_lift (sanitize_distfile_name name)) (\<lambda>file.
      act_bind (materialize_blob_for_digest env (distfiles_dir @ file) (se_digest entry)) (\<lambda>digest.
      act_return (bm_insert name digest refs))))"

definition stage_workorder_runtime ::
    "runtime_env \<Rightarrow> timestamp \<Rightarrow> workorder \<Rightarrow> staged_workorder_runtime fs_action" where
  "stage_workorder_runtime re now wo =
     (let env = re_store re; dir = runtime_dir re (wo_id wo);
          repos_dir = dir @ [''snapshots'', ''repos'']; distfiles_dir = dir @ [''snapshots'', ''distfiles'']
      in
      act_bind (exists_at dir) (\<lambda>present.
      act_bind (if present then in_context (''Failed to clear '' @ display_path env dir) (fs_remove_dir_all dir)
                else act_return ()) (\<lambda>_.
      act_bind (fs_create_dir_all repos_dir) (\<lambda>_.
      act_bind (fs_create_dir_all distfiles_dir) (\<lambda>_.
      act_bind (fs_create_dir_all (dir @ [''parity'', ''blobs''])) (\<lambda>_.
      act_bind (effective_snapshot_manifest env now (wo_portage_config wo)) (\<lambda>manifest.
      act_bind (act_fold (stage_repo env now repos_dir) (sm_repo_snapshots manifest) ([], [])) (\<lambda>(refs, trees).
      act_bind (act_fold (stage_distfile env distfiles_dir) (sm_distfiles manifest) []) (\<lambda>distfiles.
      let staged = wo\<lparr> wo_portage_config := with_manifest manifest refs trees distfiles (wo_portage_config wo) \<rparr>;
          json_path = dir @ [''workorder.json'']
      in
      act_bind (in_context (''Failed to write '' @ display_path env json_path)
          (fs_write json_path (re_enc_workorder re staged))) (\<lambda>_.
      act_bind (collect_snapshot_references env now (wo_portage_config staged)) (\<lambda>references.
      act_bind (touch_snapshot_references env now references) (\<lambda>_.
      act_return \<lparr> sw_runtime_dir = dir, sw_workorder_json_path = json_path,
                   sw_snapshot_references = references \<rparr>))))))))))))"

definition cleanup_runtime_dir :: "runtime_env \<Rightarrow> workorder_id \<Rightarrow> unit fs_action" where
  "cleanup_runtime_dir re w =
     act_match (fs_remove_dir_all (runtime_dir re w)) (\<lambda>r.
       case r of
         Inr _ \<Rightarrow> act_return ()
       | Inl e \<Rightarrow>
           if ah_errno e = Some ENOENT then act_return ()
           else act_fail (with_context (''Failed to remove ''
                  @ display_path (re_store re) (runtime_dir re w)) e))"

section \<open>Reading the output of a build\<close>

definition ingest_blobs :: "store_env \<Rightarrow> timestamp \<Rightarrow> path \<Rightarrow> string list \<Rightarrow> unit fs_action" where
  "ingest_blobs env now blobs_dir =
     act_each (\<lambda>digest.
       let p = blobs_dir @ [digest] in
       act_bind (in_context (''Failed to read '' @ display_path env p) (fs_read p)) (\<lambda>bytes.
       act_bind (store_blob_for_digest env now digest bytes) (\<lambda>_. act_return ())))"

text \<open>A manifest that is not there counts as the empty one.\<close>

definition read_output_manifest :: "store_env \<Rightarrow> (bytes \<Rightarrow> string + 'm) \<Rightarrow> 'm \<Rightarrow> path \<Rightarrow> ('m \<times> bool) fs_action" where
  "read_output_manifest env dec dflt p =
     act_match (fs_read p) (\<lambda>r.
       case r of
         Inl e \<Rightarrow>
           if ah_errno e = Some ENOENT then act_return (dflt, False)
           else act_fail (with_context (''Failed to read '' @ display_path env p) e)
       | Inr bytes \<Rightarrow>
           (case dec bytes of
              Inl e \<Rightarrow> act_fail (with_context (''Failed to parse '' @ display_path env p) (bail e))
            | Inr m \<Rightarrow> act_return (m, True)))"

definition parity_runtime_dir :: "path \<Rightarrow> path" where
  "parity_runtime_dir dir = dir @ [''parity'']"

definition distfile_output_manifest_path :: "path \<Rightarrow> path" where
  "distfile_output_manifest_path dir = parity_runtime_dir dir @ [''distfiles.json'']"

definition distfile_output_blobs_dir :: "path \<Rightarrow> path" where
  "distfile_output_blobs_dir dir = parity_runtime_dir dir @ [''blobs'']"

definition ingest_final_state_parity :: "runtime_env \<Rightarrow> timestamp \<Rightarrow> path \<Rightarrow> parity_manifest fs_action" where
  "ingest_final_state_parity re now dir =
     (let env = re_store re; blobs_dir = parity_runtime_dir dir @ [''blobs''] in
      act_bind (read_output_manifest env (re_dec_parity re) parity_manifest_default
          (parity_runtime_dir dir @ [''manifest.json''])) (\<lambda>(manifest, _).
      act_bind (ingest_blobs env now blobs_dir (map (\<lambda>(_, e). pf_digest e) (pm_files manifest))) (\<lambda>_.
      act_bind (ingest_blobs env now blobs_dir (map (\<lambda>(_, e). ps_digest e) (pm_symlinks manifest))) (\<lambda>_.
      act_return manifest))))"

definition ingest_fetched_distfiles ::
    "runtime_env \<Rightarrow> timestamp \<Rightarrow> path \<Rightarrow> (string, snapshot_entry) btree_map fs_action" where
  "ingest_fetched_distfiles re now dir =
     (let env = re_store re in
      act_bind (read_output_manifest env (re_dec_distfiles re) [] (distfile_output_manifest_path dir))
        (\<lambda>(manifest, _).
      act_bind (ingest_blobs env now (distfile_output_blobs_dir dir)
          (map (\<lambda>(_, e). se_digest e) manifest)) (\<lambda>_.
      act_return manifest)))"

section \<open>Clean-up of the snapshot store\<close>

datatype entry_kind = BlobEntry | TreeEntry

record cleanup_entry =
  ce_kind :: entry_kind
  ce_digest :: string
  ce_last_referenced_at :: timestamp
  ce_retained_bytes :: nat

record snapshot_cleanup_summary =
  scs_deleted_blobs :: nat
  scs_deleted_trees :: nat
  scs_reclaimed_bytes :: nat

definition empty_summary :: snapshot_cleanup_summary where
  "empty_summary = \<lparr> scs_deleted_blobs = 0, scs_deleted_trees = 0, scs_reclaimed_bytes = 0 \<rparr>"

definition saturating_add :: "nat \<Rightarrow> nat \<Rightarrow> nat" where
  "saturating_add a b = min u64_max (a + b)"

definition retained_bytes :: "blob_metadata \<Rightarrow> nat" where
  "retained_bytes m = (bm_raw_size_bytes m + sum_list (map snd (bm_encoded_variants m))) mod 2 ^ 64"

text \<open>What the scan has collected: the total size, the entries over the hard limit and those
  over the grace period.\<close>

type_synonym scan = "nat \<times> cleanup_entry list \<times> cleanup_entry list"

fun scan_record ::
    "entry_kind \<Rightarrow> string list \<Rightarrow> timestamp \<Rightarrow> timestamp \<Rightarrow> string \<times> blob_metadata \<Rightarrow> scan \<Rightarrow> scan" where
  "scan_record kind active grace_cutoff hard_cutoff (digest, m) (retained, hard, eligible) =
     (let bytes = retained_bytes m; retained' = saturating_add retained bytes;
          entry = \<lparr> ce_kind = kind, ce_digest = digest,
                    ce_last_referenced_at = bm_last_referenced_at m, ce_retained_bytes = bytes \<rparr>
      in if digest \<in> set active then (retained', hard, eligible)
         else if bm_last_referenced_at m \<le> hard_cutoff then (retained', hard @ [entry], eligible)
         else if bm_last_referenced_at m \<le> grace_cutoff then (retained', hard, eligible @ [entry])
         else (retained', hard, eligible))"

definition delete_cleanup_entry ::
    "store_env \<Rightarrow> cleanup_entry \<Rightarrow> snapshot_cleanup_summary \<Rightarrow> snapshot_cleanup_summary fs_action" where
  "delete_cleanup_entry env entry summary =
     act_bind
       (case ce_kind entry of
          BlobEntry \<Rightarrow> act_bind (delete_blob env (ce_digest entry))
            (\<lambda>_. act_return (summary\<lparr> scs_deleted_blobs := scs_deleted_blobs summary + 1 \<rparr>))
        | TreeEntry \<Rightarrow> act_bind (delete_tree env (ce_digest entry))
            (\<lambda>_. act_return (summary\<lparr> scs_deleted_trees := scs_deleted_trees summary + 1 \<rparr>)))
       (\<lambda>s. act_return (s\<lparr> scs_reclaimed_bytes := saturating_add (scs_reclaimed_bytes s) (ce_retained_bytes entry) \<rparr>))"

text \<open>Entries are deleted until the total is at or below the floor.\<close>

fun delete_down_to ::
    "store_env \<Rightarrow> nat \<Rightarrow> cleanup_entry list \<Rightarrow> nat \<times> snapshot_cleanup_summary
     \<Rightarrow> (nat \<times> snapshot_cleanup_summary) fs_action" where
  "delete_down_to env min_bytes [] acc = act_return acc"
| "delete_down_to env min_bytes (entry # entries) (retained, summary) =
     (if retained \<le> min_bytes then act_return (retained, summary)
      else
        act_bind (delete_cleanup_entry env entry summary) (\<lambda>summary'.
          delete_down_to env min_bytes entries (retained - ce_retained_bytes entry, summary')))"

definition cleanup_snapshot_storage_at ::
    "store_env \<Rightarrow> server_config \<Rightarrow> snapshot_reference_set list \<Rightarrow> timestamp \<Rightarrow> snapshot_cleanup_summary fs_action" where
  "cleanup_snapshot_storage_at env config active_references now =
     (let active_blobs = bs_of_list (concat (map srs_blob_digests active_references));
          active_trees = bs_of_list (concat (map srs_tree_digests active_references));
          grace_cutoff = now - duration_hours (as_i64 (sc_snapshot_cache_grace_period_hours config));
          hard_cutoff = now - duration_hours (as_i64 (sc_snapshot_cache_hard_delete_hours config));
          min_bytes = sc_snapshot_min_retained_bytes config
      in
      act_bind (list_blob_metadata env) (\<lambda>blobs.
      act_bind (list_tree_metadata env) (\<lambda>trees.
      let (retained, hard, eligible) =
            fold (scan_record TreeEntry active_trees grace_cutoff hard_cutoff) trees
              (fold (scan_record BlobEntry active_blobs grace_cutoff hard_cutoff) blobs (0, [], []))
      in if retained \<le> min_bytes then act_return empty_summary
         else
           act_bind (delete_down_to env min_bytes (sort_key ce_last_referenced_at hard) (retained, empty_summary)) (\<lambda>acc.
           act_bind (delete_down_to env min_bytes (sort_key ce_last_referenced_at eligible) acc) (\<lambda>(_, summary).
           act_return summary)))))"

section \<open>Safe paths\<close>

lemma sanitize_file_name_ne: "sanitize_file_name n = Inr p \<Longrightarrow> p \<noteq> []"
  by (auto simp: sanitize_file_name_def split: option.splits)

lemma sanitize_distfile_name_ne: "sanitize_distfile_name n = Inr p \<Longrightarrow> p \<noteq> []"
  by (auto simp: sanitize_distfile_name_def split: option.splits if_splits)

section \<open>Manifests and references keep the stores\<close>

lemma keeps_ensure_blob_exists [triple_rules]: "keeps P (ensure_blob_exists env d)"
  unfolding ensure_blob_exists_def by (intro triple_rules)

lemma keeps_stat_all [triple_rules]: "keeps P (stat_all env path_of ds)"
  unfolding stat_all_def by (intro triple_rules)

lemma keeps_referenced_entry [triple_rules]: "keeps P (referenced_entry env item entries)"
  unfolding referenced_entry_def by (intro triple_rules)

lemma keeps_read_output_manifest [triple_rules]: "keeps P (read_output_manifest env dec dflt p)"
  unfolding read_output_manifest_def by (intro triple_rules)

context store_frame
begin

lemma keeps_store_expected_tree [triple_rules]: "keeps framed (store_expected_tree env now repo refs expected)"
  unfolding store_expected_tree_def by (intro triple_rules)

lemma keeps_inline_entry [triple_rules]: "keeps framed (inline_entry env now cfg existing repo item entries)"
  unfolding inline_entry_def Let_def by (intro triple_rules)

lemma keeps_build_repo [triple_rules]: "keeps framed (build_repo_snapshot_manifest env now cfg manifest repo)"
  unfolding build_repo_snapshot_manifest_def Let_def by (intro triple_rules)

lemma keeps_build_distfile [triple_rules]: "keeps framed (build_distfile_snapshot_entry env now cfg manifest name)"
  unfolding build_distfile_snapshot_entry_def Let_def by (intro triple_rules)

lemma keeps_add_entries [triple_rules]:
  "keeps framed (add_repo_manifest env now cfg repo manifest)"
  "keeps framed (add_distfile_entry env now cfg name manifest)"
  unfolding add_repo_manifest_def add_distfile_entry_def by (intro triple_rules)+

lemma keeps_effective_manifest [triple_rules]: "keeps framed (effective_snapshot_manifest env now cfg)"
  unfolding effective_snapshot_manifest_def Let_def by (intro triple_rules)

lemma keeps_normalize [triple_rules]: "keeps framed (normalize_portage_config_snapshots env now cfg)"
  unfolding normalize_portage_config_snapshots_def by (intro triple_rules)

lemma keeps_collect [triple_rules]: "keeps framed (collect_snapshot_references env now cfg)"
  unfolding collect_snapshot_references_def Let_def by (intro triple_rules)

lemma keeps_touch_references [triple_rules]: "keeps framed (touch_snapshot_references env now refs)"
  unfolding touch_snapshot_references_def by (intro triple_rules)

lemma keeps_ingest_blobs [triple_rules]: "keeps framed (ingest_blobs env now dir digests)"
  unfolding ingest_blobs_def Let_def by (intro triple_rules)

lemma keeps_ingest:
  assumes "re_store re = env"
  shows "keeps framed (ingest_final_state_parity re now dir)" "keeps framed (ingest_fetched_distfiles re now dir)"
  unfolding ingest_final_state_parity_def ingest_fetched_distfiles_def Let_def assms by (intro triple_rules)+

end

section \<open>Staging keeps the stores\<close>

text \<open>Files outside the stores.\<close>

lemma outside_add:
  assumes i: "store_inv env fs" and p: "p \<noteq> []" "\<not> in_store p" "fs_node p fs = None" "fs_node (butlast p) fs = Some Dir"
    and c: "map_of (fs_tree fs') = (map_of (fs_tree fs))(p \<mapsto> File k)"
      "map_of (fs_inodes fs') k \<noteq> None" "k < fs_next fs'"
      "\<And>j. j < fs_next fs \<Longrightarrow> map_of (fs_inodes fs') j = map_of (fs_inodes fs) j"
      "fs_next fs \<le> fs_next fs'" "hm_wf (fs_tree fs')"
  shows "store_inv env fs'" "fs_node q fs' = (if q = p then Some (File k) else fs_node q fs)"
proof -
  note w = store_invD(1) [OF i]
  have n: "fs_node q fs' = (if q = p then Some (File k) else fs_node q fs)" for q
    using p(1) by (simp add: fs_node_def c(1))
  then show "fs_node q fs' = (if q = p then Some (File k) else fs_node q fs)" .
  have w': "fs_wf fs'"
  proof (rule fs_wfI)
    show "map_of (fs_tree fs') [] = None" using fs_wfD(2) [OF w] p(1) by (simp add: c(1))
    show "j < fs_next fs' \<and> map_of (fs_inodes fs') j \<noteq> None" if "map_of (fs_tree fs') q = Some (File j)" for q j
      using that c(2-5) fs_wfD(3,4) [OF w, of q j] by (cases "q = p") (auto simp: c(1))
    show "fs_node (butlast q) fs' = Some Dir" if "map_of (fs_tree fs') q = Some m" for q m
    proof -
      have "fs_node (butlast q) fs = Some Dir"
        using that p(4) fs_wfD(5) [OF w, of q] by (cases "q = p") (auto simp: c(1))
      then show ?thesis using p(3) by (auto simp: n)
    qed
  qed (rule c(6))
  show "store_inv env fs'"
  proof (rule store_inv_outside [OF i w'])
    fix q
    assume q: "in_store q"
    show "fs_node q fs' = fs_node q fs" using q p(2) by (auto simp: n)
    fix j
    assume "fs_node q fs = Some (File j)"
    then have "j < fs_next fs" using fs_wfD(3) [OF w, of q j] q by (simp add: fs_node_def)
    then show "map_of (fs_inodes fs') j = map_of (fs_inodes fs) j" by (rule c(4))
  qed
qed

lemma outside_file:
  assumes "store_inv env fs" "no_files T fs" "p \<noteq> []" "\<not> in_store p" "fs_node p fs = None"
    "fs_node (butlast p) fs = Some Dir" "p \<notin> T"
  shows "store_inv env (fs_add p bs fs) \<and> no_files T (fs_add p bs fs)"
proof -
  have "store_inv env (fs_add p bs fs)" "\<And>q. fs_node q (fs_add p bs fs) = (if q = p then Some (File (fs_next fs)) else fs_node q fs)"
    using outside_add [OF assms(1,3,4,5,6), of "fs_add p bs fs" "fs_next fs"] fs_wfD(1) [OF store_invD(1) [OF assms(1)]]
    by (simp_all add: fs_add_def hm_wf_insert)
  then show ?thesis using assms(2,7) by (auto simp: no_files_def is_file_def)
qed

abbreviation clear_of :: "store_env \<Rightarrow> path set \<Rightarrow> fs \<Rightarrow> bool" where
  "clear_of env T fs \<equiv> store_inv env fs \<and> no_files T fs"

lemma clear_of_insert: "clear_of env (insert t T) fs \<Longrightarrow> clear_of env T fs"
  by (simp add: no_files_def)

lemma clear_of_quiet: "clear_of env T fs \<Longrightarrow> quiet fs fs' \<Longrightarrow> clear_of env T fs'"
  using store_inv_quiet quiet_node by (auto simp: no_files_def is_file_def)

lemma not_in_store_dir: "\<not> in_store p \<Longrightarrow> store_dir (butlast p)"
  using in_store_butlast unfolding store_dir_def by blast

text \<open>A clone of a file at a place where no file is: either the file is there, with an inode of
  its own, or nothing has changed.\<close>

lemma reflink_cases:
  assumes t: "target \<noteq> []" and n: "\<not> is_file target fs"
  obtains bs where "try_reflink env source target fs = (Inr True, fs_add target bs fs)"
      "fs_node target fs = None" "fs_node (butlast target) fs = Some Dir"
  | r fs' where "try_reflink env source target fs = (r, fs')" "r \<noteq> Inr True" "quiet fs fs'"
proof (cases "fs_read source fs")
  case (Pair r fs0)
  then have f: "fs0 = fs" by (auto simp: fs_read_def split: option.splits node.splits)
  show thesis
  proof (cases r)
    case (Inl e)
    then show thesis using that(2) Pair f by (simp add: try_reflink_def act_bind_def in_context_eq)
  next
    case (Inr bs)
    note run = try_reflink_def act_bind_def in_context_eq act_match_def Pair f Inr
    show thesis
    proof (cases "fs_node target fs = None \<and> fs_node (butlast target) fs = Some Dir")
      case False
      then have "\<exists>e. fs_create_new target fs = (Inl e, fs)" by (auto simp: fs_create_new_def)
      then obtain e where "fs_create_new target fs = (Inl e, fs)" ..
      then show thesis
        by (intro that(2) [of "fst (try_reflink env source target fs)" "snd (try_reflink env source target fs)"])
          (simp_all add: run act_return_def act_fail_def)
    next
      case True
      let ?fs1 = "fs_add target [] fs"
      have c: "fs_create_new target fs = (Inr (), ?fs1)" using True by (simp add: fs_create_new_def)
      have node: "fs_node target ?fs1 = Some (File (fs_next fs))" using t by (simp add: fs_node_add)
      show thesis
      proof (cases "se_reflink env")
        case None
        have ow: "hm_insert (fs_next fs) bs (hm_insert (fs_next fs) [] m) = hm_insert (fs_next fs) bs m" for m
          by (induction m) auto
        have "fs_write target bs ?fs1 = (Inr (), fs_add target bs fs)"
          using node by (simp add: fs_write_def) (simp add: fs_add_def ow)
        then show thesis using that(1) None True by (simp add: run c act_return_def)
      next
        case (Some e)
        have absent: "map_of (fs_tree fs) target = None" using True t by (simp add: fs_node_def)
        have rm: "fs_remove_file target ?fs1 = (Inr (), ?fs1\<lparr> fs_tree := fs_tree fs \<rparr>)"
          using node by (simp add: fs_remove_file_def) (simp add: fs_add_def hm_remove_insert_new [OF absent])
        have "quiet fs (?fs1\<lparr> fs_tree := fs_tree fs \<rparr>)" by (simp add: quiet_def fs_add_def)
        then show thesis
          using Some by (intro that(2) [of "fst (try_reflink env source target fs)" "snd (try_reflink env source target fs)"])
            (simp_all add: run c rm act_return_def act_fail_def)
      qed
    qed
  qed
qed

text \<open>A hard link at such a place.\<close>

lemma hard_link_clear:
  assumes k: "clear_of env (insert target T) fs" and t: "target \<noteq> []" "\<not> in_store target" "target \<notin> T"
    and l: "fs_hard_link u source target fs = (Inr x, fs')"
  shows "clear_of env T fs'"
proof -
  from l obtain j where s: "fs_node source fs = Some (File j)" and n: "fs_node target fs = None"
      "fs_node (butlast target) fs = Some Dir" and f: "fs' = fs\<lparr> fs_tree := hm_insert target (File j) (fs_tree fs) \<rparr>"
    by (auto simp: fs_hard_link_def split: option.splits node.splits if_splits)
  note w = store_invD(1) [OF conjunct1 [OF k]]
  have j: "j < fs_next fs" "map_of (fs_inodes fs) j \<noteq> None"
    using s fs_wfD(3,4) [OF w, of source j] by (auto simp: fs_node_def split: if_splits)
  from outside_add [OF conjunct1 [OF k] t(1,2) n, of fs' j] j fs_wfD(1) [OF w] have
    "store_inv env fs'" "\<And>q. fs_node q fs' = (if q = target then Some (File j) else fs_node q fs)"
    by (simp_all add: f hm_wf_insert)
  then show ?thesis using k t(3) by (auto simp: no_files_def is_file_def)
qed

lemma copy_clear:
  assumes k: "clear_of env (insert target T) fs" and t: "target \<noteq> []" "\<not> in_store target" "target \<notin> T"
  shows "clear_of env T (snd (fs_copy source target fs))"
proof -
  have "fs_node target fs = None \<or> fs_node target fs = Some Dir"
    using k by (metis insertI1 is_file_iff no_files_def node.exhaust not_None_eq)
  then have "clear_of env T (snd (fs_write target bs fs))" for bs
    using clear_of_insert [OF k] outside_file [of env fs T target bs] t by (auto simp: fs_write_def)
  then show ?thesis
    using clear_of_insert [OF k]
    by (auto simp: fs_copy_def act_bind_def fs_read_def split: option.split node.split)
qed

lemma link_clear:
  assumes k: "clear_of env (insert target T) fs" and t: "target \<noteq> []" "\<not> in_store target" "target \<notin> T"
    and o: "\<And>x. x \<in> T \<Longrightarrow> \<not> in_store x"
  shows "clear_of env T (snd (link_blob_into_target env source target fs))"
proof -
  have parent: "keeps (clear_of env (insert target T)) (create_parent env target)"
    by (rule store_frame.keeps_create_parent [OF no_files_frame not_in_store_dir [OF t(2)]]) (use t o in auto)
  obtain r fs1 where p: "create_parent env target fs = (r, fs1)" by fastforce
  note k1 = keeps_run [OF parent p k]
  show ?thesis
  proof (cases r)
    case (Inl e)
    then show ?thesis using p clear_of_insert [OF k1] by (simp add: link_blob_into_target_def act_bind_def)
  next
    case (Inr x)
    have free: "\<not> is_file target fs1" using k1 by (simp add: no_files_def)
    show ?thesis
    proof (rule reflink_cases [OF t(1) free, of env source])
      fix bs
      assume "try_reflink env source target fs1 = (Inr True, fs_add target bs fs1)"
        "fs_node target fs1 = None" "fs_node (butlast target) fs1 = Some Dir"
      then show ?thesis
        using outside_file [of env fs1 T target bs] clear_of_insert [OF k1] t p Inr
        by (simp add: link_blob_into_target_def act_bind_def act_return_def)
    next
      fix q fs2
      assume q: "try_reflink env source target fs1 = (q, fs2)" "q \<noteq> Inr True" "quiet fs1 fs2"
      note k2 = clear_of_quiet [OF k1 q(3)]
      obtain h fs3 where h: "fs_hard_link (se_hard_link env) source target fs2 = (h, fs3)" by fastforce
      have "fs3 = fs2" if "h = Inl e" for e
        using h that by (auto simp: fs_hard_link_def split: option.splits node.splits if_splits)
      moreover have "clear_of env T fs3" if "h = Inr y" for y
        using hard_link_clear [OF k2 t h [unfolded that]] .
      moreover have "snd (in_context c (fs_copy source target) fs2) = snd (fs_copy source target fs2)" for c
        by (simp add: in_context_eq split: prod.split sum.split)
      ultimately show ?thesis
        using p Inr q h clear_of_insert [OF k2] copy_clear [OF k2 t, of source]
        by (cases q; cases h)
          (auto simp: link_blob_into_target_def act_bind_def act_match_def act_return_def act_fail_def)
    qed
  qed
qed

lemma materialize_clear:
  assumes "clear_of env (insert target T) fs" "target \<noteq> []" "\<not> in_store target" "target \<notin> T"
    and "\<And>x. x \<in> T \<Longrightarrow> \<not> in_store x"
  shows "clear_of env T (snd (materialize_blob_for_digest env target d fs))"
proof -
  have "snd (materialize_blob_for_digest env target d fs) = fs
      \<or> (\<exists>b. snd (materialize_blob_for_digest env target d fs) = snd (link_blob_into_target env b target fs))"
  proof (cases "blob_path d")
    case (Inr b)
    obtain r where m: "in_context (''Missing referenced blob '' @ d @ '' at '' @ display_path env b) (fs_metadata b) fs = (r, fs)"
      using keepsD [OF keeps_in_context [OF keeps_metadata], of "\<lambda>s. s = fs" fs] by (metis prod.collapse)
    then have "snd (materialize_blob_for_digest env target d fs) = fs
        \<or> snd (materialize_blob_for_digest env target d fs) = snd (link_blob_into_target env b target fs)"
      using Inr by (cases r) (auto simp: materialize_blob_for_digest_def act_bind_def act_return_def
          simp del: append.simps split: prod.split sum.split)
    then show ?thesis by blast
  qed (simp add: materialize_blob_for_digest_def act_fail_def)
  then show ?thesis using link_clear [OF assms] clear_of_insert [OF assms(1)] by metis
qed

subsection \<open>Actions that fill free places\<close>

text \<open>The action writes outside the stores, at most at the given places, and there only when no
  file is in the way.\<close>

definition fills :: "store_env \<Rightarrow> path list \<Rightarrow> 'a fs_action \<Rightarrow> bool" where
  "fills env ts m \<longleftrightarrow>
     (\<forall>T fs. distinct ts \<longrightarrow> set ts \<inter> T = {} \<longrightarrow> (\<forall>x\<in>set ts \<union> T. \<not> in_store x) \<longrightarrow>
        clear_of env (set ts \<union> T) fs \<longrightarrow> clear_of env T (snd (m fs)))"

lemma fillsI:
  "(\<And>T fs. distinct ts \<Longrightarrow> set ts \<inter> T = {} \<Longrightarrow> \<forall>x\<in>set ts \<union> T. \<not> in_store x \<Longrightarrow>
     clear_of env (set ts \<union> T) fs \<Longrightarrow> clear_of env T (snd (m fs))) \<Longrightarrow> fills env ts m"
  unfolding fills_def by (intro allI impI) assumption

lemma fillsD:
  "fills env ts m \<Longrightarrow> distinct ts \<Longrightarrow> set ts \<inter> T = {} \<Longrightarrow> \<forall>x\<in>set ts \<union> T. \<not> in_store x \<Longrightarrow>
     clear_of env (set ts \<union> T) fs \<Longrightarrow> clear_of env T (snd (m fs))"
  unfolding fills_def by (elim allE impE) assumption+

lemma clear_of_mono: "clear_of env T fs \<Longrightarrow> U \<subseteq> T \<Longrightarrow> clear_of env U fs"
  by (auto simp: no_files_def)

named_theorems fills_rules \<open>the rules that take an action apart\<close>

lemma fills_keeps:
  assumes "\<And>T. (\<And>x. x \<in> T \<Longrightarrow> \<not> in_store x) \<Longrightarrow> keeps (clear_of env T) m"
  shows "fills env [] m"
proof (rule fillsI)
  fix T :: "path set" and fs
  assume "\<forall>x\<in>set [] \<union> T. \<not> in_store x" "clear_of env (set [] \<union> T) fs"
  then show "clear_of env T (snd (m fs))" by (intro keepsD [OF assms]) auto
qed

lemma fills_return [fills_rules]: "fills env ts (act_return x)"
  by (rule fillsI, unfold act_return_def snd_conv, erule clear_of_mono) simp

lemma fills_fail [fills_rules]: "fills env ts (act_fail e)"
  by (rule fillsI, unfold act_fail_def snd_conv, erule clear_of_mono) simp

lemma fills_bind:
  assumes "fills env ts m" "\<And>x. fills env us (f x)"
  shows "fills env (ts @ us) (act_bind m f)"
proof (rule fillsI)
  fix T fs
  assume d: "distinct (ts @ us)" "set (ts @ us) \<inter> T = {}" "\<forall>x\<in>set (ts @ us) \<union> T. \<not> in_store x"
    and c: "clear_of env (set (ts @ us) \<union> T) fs"
  obtain r fs1 where m: "m fs = (r, fs1)" by fastforce
  have 1: "clear_of env (set us \<union> T) fs1"
    using fillsD [OF assms(1), of "set us \<union> T" fs] d c m by (auto simp: Un_assoc)
  show "clear_of env T (snd (act_bind m f fs))"
  proof (cases r)
    case (Inl e)
    then show ?thesis using m clear_of_mono [OF 1, of T] by (simp add: act_bind_def)
  next
    case (Inr x)
    then show ?thesis using m fillsD [OF assms(2), of T fs1 x] d 1 by (auto simp: act_bind_def)
  qed
qed

lemma fills_bind_keeps: "fills env ts m \<Longrightarrow> (\<And>x. fills env [] (f x)) \<Longrightarrow> fills env ts (act_bind m f)"
  using fills_bind [of env ts m "[]" f] by simp

lemma fills_keeps_bind: "fills env [] m \<Longrightarrow> (\<And>x. fills env ts (f x)) \<Longrightarrow> fills env ts (act_bind m f)"
  using fills_bind [of env "[]" m ts f] by simp

lemma fills_each: "(\<And>x. x \<in> set xs \<Longrightarrow> fills env (g x) (f x)) \<Longrightarrow> fills env (concat (map g xs)) (act_each f xs)"
  by (induction xs) (auto intro!: fills_rules fills_bind)

lemma fills_fold:
  "(\<And>x a. x \<in> set xs \<Longrightarrow> fills env (g x) (f x a)) \<Longrightarrow> fills env (concat (map g xs)) (act_fold f xs a)"
  by (induction xs arbitrary: a) (auto intro!: fills_rules fills_bind)

lemma fills_materialize: "t \<noteq> [] \<Longrightarrow> fills env [t] (materialize_blob_for_digest env t d)"
  by (rule fillsI) (use materialize_clear in auto)

lemma fills_lift:
  "(\<And>x. r = Inr x \<Longrightarrow> fills env (g x) (f x)) \<Longrightarrow> fills env (case r of Inl _ \<Rightarrow> [] | Inr x \<Rightarrow> g x) (act_bind (act_lift r) f)"
  by (cases r) (auto intro: fills_rules)

subsection \<open>The places of a manifest\<close>

definition repo_targets :: "path \<Rightarrow> string \<times> repo_snapshot_manifest \<Rightarrow> path list" where
  "repo_targets repos_dir item =
     (case sanitize_file_name (fst item) of
        Inl _ \<Rightarrow> []
      | Inr name \<Rightarrow>
          concat (map (\<lambda>(p, _). case sanitize_relative_path p of Inl _ \<Rightarrow> [] | Inr safe \<Rightarrow> [repos_dir @ name @ safe])
            (rsm_entries (snd item))))"

definition distfile_targets :: "path \<Rightarrow> string \<times> snapshot_entry \<Rightarrow> path list" where
  "distfile_targets dir item =
     (case sanitize_distfile_name (fst item) of Inl _ \<Rightarrow> [] | Inr file \<Rightarrow> [dir @ file])"

definition staged_targets :: "path \<Rightarrow> snapshot_manifest \<Rightarrow> path list" where
  "staged_targets dir manifest =
     concat (map (repo_targets (dir @ [''snapshots'', ''repos''])) (sm_repo_snapshots manifest))
     @ concat (map (distfile_targets (dir @ [''snapshots'', ''distfiles''])) (sm_distfiles manifest))"

lemma fills_stage_repo: "fills env (repo_targets repos_dir item) (stage_repo env now repos_dir item acc)"
proof -
  obtain repo_name repo where item: "item = (repo_name, repo)" by (cases item)
  have after: "fills env [] (let snapshot_refs = snapshot_refs_of (rsm_entries repo) in
      if snapshot_refs = [] then act_return acc
      else act_bind (store_expected_tree env now repo_name snapshot_refs
          (some_nonempty (Some (rsm_tree_digest repo)))) (\<lambda>tree.
        act_return (bm_insert repo_name snapshot_refs (fst acc), bm_insert repo_name tree (snd acc))))"
    by (rule fills_keeps) (auto simp: Let_def intro!: triple_rules store_frame.keeps_store_expected_tree no_files_frame)
  show ?thesis
    unfolding stage_repo_def item repo_targets_def prod.case fst_conv snd_conv
    by (intro fills_lift fills_bind_keeps fills_each after)
      (auto intro!: fills_lift fills_bind_keeps fills_materialize fills_rules
        dest: sanitize_file_name_ne split: prod.splits)
qed

lemma fills_stage_distfile: "fills env (distfile_targets dir item) (stage_distfile env dir item refs)"
  unfolding stage_distfile_def distfile_targets_def
  by (cases item) (auto intro!: fills_lift fills_bind_keeps fills_materialize fills_rules dest: sanitize_distfile_name_ne)

subsection \<open>The whole of staging\<close>

lemma under_append:
  assumes "under (p @ q) t"
  shows "under p t"
proof -
  have e: "take (length (p @ q)) t = p @ q" using assms by (simp add: under_def)
  have "take (length p) t = take (length p) (take (length (p @ q)) t)" by simp
  also have "\<dots> = p" unfolding e by simp
  finally show ?thesis by (simp add: under_def)
qed

lemma under_absent:
  assumes w: "fs_wf fs" and p: "p \<noteq> []" "fs_node p fs = None"
  shows "under p q \<Longrightarrow> fs_node q fs = None"
proof (induction q rule: rev_induct)
  case Nil
  then show ?case using p(1) by (simp add: under_def)
next
  case (snoc x q)
  show ?case
  proof (cases "q @ [x] = p")
    case False
    have "length p \<le> length q"
    proof (rule ccontr)
      assume "\<not> length p \<le> length q"
      then have "take (length p) (q @ [x]) = q @ [x]" by simp
      then show False using snoc.prems False by (simp add: under_def)
    qed
    then have "under p q" using snoc.prems by (simp add: under_def)
    then have "fs_node q fs = None" by (rule snoc.IH)
    then show ?thesis
      using fs_wfD(5) [OF w, of "q @ [x]"] by (cases "map_of (fs_tree fs) (q @ [x])") (auto simp: fs_node_def)
  qed (use p in simp)
qed

lemma runtime_not_in_store: "under (runtime_dir re w) q \<Longrightarrow> \<not> in_store q"
  by (cases q) (auto simp: under_def runtime_dir_def RUNTIME_SUBDIR_def BLOBS_SUBDIR_def TREES_SUBDIR_def)

lemma clear_runtime_dir:
  assumes i: "store_inv env fs" and dir: "dir = runtime_dir re w"
    and run: "(if fs_node dir fs \<noteq> None then in_context c (fs_remove_dir_all dir) else act_return ()) fs = (r, fs')"
  shows "store_inv env fs'" "r = Inr () \<Longrightarrow> clear_of env {q. under dir q} fs'"
proof -
  have ne: "dir \<noteq> []" by (simp add: dir runtime_dir_def)
  have eq: "fs' = (if fs_node dir fs \<noteq> None then snd (fs_remove_dir_all dir fs) else fs)"
    using run by (auto simp: in_context_eq act_return_def split: prod.splits sum.splits if_splits)
  show i': "store_inv env fs'"
    using remove_dir_all_cases [of dir fs] store_inv_removes [OF i] i by (auto simp: eq)
  assume ok: "r = Inr ()"
  have "fs_node dir fs' = None"
  proof (cases "fs_node dir fs = None")
    case False
    then have d: "fs_node dir fs = Some Dir" "fs' = snd (fs_remove_dir_all dir fs)"
      using run ok eq by (auto simp: in_context_eq fs_remove_dir_all_def split: option.splits node.splits)
    then show ?thesis
      using ne map_of_filter_paths [of "under dir" "fs_tree fs"]
      by (simp add: fs_remove_dir_all_def fs_node_def) (simp add: under_def)
  qed (simp add: eq)
  then have "fs_node q fs' = None" if "under dir q" for q
    using under_absent [OF store_invD(1) [OF i'] ne _ that] by simp
  then show "clear_of env {q. under dir q} fs'" using i' by (simp add: no_files_def is_file_def)
qed

lemma staged_targets_under:
  "t \<in> set (staged_targets dir m) \<Longrightarrow> under (dir @ [''snapshots'']) t"
  by (auto simp: staged_targets_def repo_targets_def distfile_targets_def under_def split: sum.splits)

text \<open>Staging keeps the stores intact whenever no two entries of the manifest stand for one
  file.\<close>

lemma fills_triple:
  assumes "fills env ts m" "distinct ts" "set ts \<subseteq> T" "\<And>x. x \<in> T \<Longrightarrow> \<not> in_store x"
  shows "triple (clear_of env T) m (\<lambda>_. clear_of env (T - set ts)) (\<lambda>_. store_inv env)"
  unfolding triple_def
proof (intro allI impI)
  fix fs
  assume "clear_of env T fs"
  moreover have "set ts \<union> (T - set ts) = T" using assms(3) by blast
  ultimately have "clear_of env (T - set ts) (snd (m fs))"
    using fillsD [OF assms(1,2), of "T - set ts" fs] assms(4) by auto
  then show "case m fs of (Inl e, s') \<Rightarrow> store_inv env s' | (Inr x, s') \<Rightarrow> clear_of env (T - set ts) s'"
    by (auto split: prod.splits sum.splits)
qed

lemma write_clear:
  assumes "t \<in> T" "t \<noteq> []" "\<not> in_store t"
  shows "triple (clear_of env T) (fs_write t bs) (\<lambda>_. store_inv env) (\<lambda>_. store_inv env)"
  unfolding triple_def
proof (intro allI impI)
  fix fs
  assume c: "clear_of env T fs"
  then have "fs_node t fs = None \<or> fs_node t fs = Some Dir"
    using assms(1) by (metis is_file_iff no_files_def node.exhaust not_None_eq)
  then show "case fs_write t bs fs of (Inl e, s') \<Rightarrow> store_inv env s' | (Inr x, s') \<Rightarrow> store_inv env s'"
    using c outside_file [of env fs "{}" t bs] assms(2,3) by (auto simp: fs_write_def no_files_def)
qed

lemma triple_in_context:
  assumes "triple P m Q (\<lambda>_. E)"
  shows "triple P (in_context c m) Q (\<lambda>_. E)"
  unfolding triple_def
proof (intro allI impI)
  fix s
  assume "P s"
  then show "case in_context c m s of (Inl e, s') \<Rightarrow> E s' | (Inr x, s') \<Rightarrow> Q x s'"
    using triple_Inl [OF assms, of s] triple_Inr [OF assms, of s]
    by (cases "m s"; cases "fst (m s)") (auto simp: in_context_eq)
qed

lemma triple_pure: "(Q \<Longrightarrow> triple P m R E) \<Longrightarrow> triple (\<lambda>s. P s \<and> Q) m R E"
  by (auto simp: triple_def)

lemma triple_exists: "triple P (exists_at p) (\<lambda>b fs. P fs \<and> b = (fs_node p fs \<noteq> None)) E"
  by (simp add: triple_def exists_at_def act_get_def)

lemma stage_keeps_store:
  assumes i: "store_inv (re_store re) fs"
    and one: "\<And>m fs1 fs2. effective_snapshot_manifest (re_store re) now (wo_portage_config wo) fs1 = (Inr m, fs2) \<Longrightarrow>
      distinct (staged_targets (runtime_dir re (wo_id wo)) m)"
  shows "store_inv (re_store re) (snd (stage_workorder_runtime re now wo fs))"
proof -
  define env where "env = re_store re"
  define dir where "dir = runtime_dir re (wo_id wo)"
  define T where "T = {q. under dir q}"
  let ?I = "\<lambda>_. store_inv env"
  have out: "\<And>q. q \<in> T \<Longrightarrow> \<not> in_store q" using runtime_not_in_store by (auto simp: T_def dir_def)
  note frame = no_files_frame [of T env, OF out]
  have mk: "triple (clear_of env T) (fs_create_dir_all (dir @ ps)) (\<lambda>_. clear_of env T) ?I" for ps
    by (rule keeps_triple [OF store_frame.keeps_create_dir_all [OF frame]])
      (auto simp: store_dir_def dir_def runtime_dir_def RUNTIME_SUBDIR_def BLOBS_SUBDIR_def TREES_SUBDIR_def)
  have clear: "triple (\<lambda>fs. store_inv env fs \<and> present = (fs_node dir fs \<noteq> None))
      (if present then in_context c (fs_remove_dir_all dir) else act_return ()) (\<lambda>_. clear_of env T) ?I" for present c
    unfolding triple_def
    using clear_runtime_dir [where env = env and dir = dir and re = re and w = "wo_id wo" and c = c]
    by (auto simp: dir_def T_def split: prod.splits sum.splits if_splits)
  have manifest: "triple (clear_of env T) (effective_snapshot_manifest env now (wo_portage_config wo))
      (\<lambda>m fs. clear_of env T fs \<and> distinct (staged_targets dir m)) ?I"
    using store_frame.keeps_effective_manifest [OF frame, of now "wo_portage_config wo"] one
    by (auto simp: triple_def env_def dir_def split: prod.splits sum.splits)
  let ?repos = "dir @ [''snapshots'', ''repos'']" and ?dists = "dir @ [''snapshots'', ''distfiles'']"
  let ?json = "dir @ [''workorder.json'']"
  have json: "?json \<in> T" "?json \<noteq> []" "\<not> in_store ?json"
    using out [of ?json] by (simp_all add: T_def under_def)
  have rest: "triple (clear_of env T') (act_bind (in_context c (fs_write ?json bs)) (\<lambda>_.
      act_bind (collect_snapshot_references env now cfg) (\<lambda>refs.
      act_bind (touch_snapshot_references env now refs) (\<lambda>_. act_return (g refs))))) ?I ?I"
    if "?json \<in> T'" for T' c bs cfg and g :: "_ \<Rightarrow> staged_workorder_runtime"
  proof (rule triple_bind [OF triple_in_context [OF write_clear [OF that json(2,3)]]])
    show "keeps (store_inv env) (act_bind (collect_snapshot_references env now cfg) (\<lambda>refs.
        act_bind (touch_snapshot_references env now refs) (\<lambda>_. act_return (g refs))))"
      using store_laws.keeps_collect [of env now cfg] store_laws.keeps_touch_references [of env now]
      by (auto intro!: triple_rules)
  qed
  have loops: "triple (\<lambda>fs. clear_of env T fs \<and> distinct (staged_targets dir m))
      (act_bind (act_fold (stage_repo env now ?repos) (sm_repo_snapshots m) ([], [])) (\<lambda>(refs, trees).
       act_bind (act_fold (stage_distfile env ?dists) (sm_distfiles m) []) (\<lambda>distfiles.
       act_bind (in_context c (fs_write ?json (bs refs trees distfiles))) (\<lambda>_.
       act_bind (collect_snapshot_references env now (cfg refs trees distfiles)) (\<lambda>references.
       act_bind (touch_snapshot_references env now references) (\<lambda>_. act_return (g references))))))) ?I ?I"
    for m c bs cfg and g :: "_ \<Rightarrow> staged_workorder_runtime"
  proof (rule triple_pure)
    assume d: "distinct (staged_targets dir m)"
    let ?A = "concat (map (repo_targets ?repos) (sm_repo_snapshots m))"
    let ?B = "concat (map (distfile_targets ?dists) (sm_distfiles m))"
    have u: "t \<in> T \<and> t \<noteq> ?json" if "t \<in> set ?A \<union> set ?B" for t
    proof -
      have t: "under (dir @ [''snapshots'']) t"
        using staged_targets_under [of t dir m] that by (auto simp: staged_targets_def)
      then have "under dir t" by (rule under_append)
      moreover have "t \<noteq> ?json" using t by (auto simp: under_def)
      ultimately show ?thesis by (simp add: T_def)
    qed
    have A: "triple (clear_of env T) (act_fold (stage_repo env now ?repos) (sm_repo_snapshots m) ([], []))
        (\<lambda>_. clear_of env (T - set ?A)) ?I"
      by (rule fills_triple [OF fills_fold [OF fills_stage_repo]])
        (use d u out in \<open>auto simp: staged_targets_def\<close>)
    have B: "triple (clear_of env (T - set ?A)) (act_fold (stage_distfile env ?dists) (sm_distfiles m) [])
        (\<lambda>_. clear_of env (T - set ?A - set ?B)) ?I"
      by (rule fills_triple [OF fills_fold [OF fills_stage_distfile]])
        (use d u out in \<open>auto simp: staged_targets_def\<close>)
    have j: "?json \<in> T - set ?A - set ?B" using json u by blast
    show "triple (clear_of env T)
      (act_bind (act_fold (stage_repo env now ?repos) (sm_repo_snapshots m) ([], [])) (\<lambda>(refs, trees).
       act_bind (act_fold (stage_distfile env ?dists) (sm_distfiles m) []) (\<lambda>distfiles.
       act_bind (in_context c (fs_write ?json (bs refs trees distfiles))) (\<lambda>_.
       act_bind (collect_snapshot_references env now (cfg refs trees distfiles)) (\<lambda>references.
       act_bind (touch_snapshot_references env now references) (\<lambda>_. act_return (g references))))))) ?I ?I"
      by (rule triple_bind [OF A], unfold case_prod_unfold, rule triple_bind [OF B], rule rest [OF j])
  qed
  have "triple (store_inv env) (stage_workorder_runtime re now wo) ?I ?I"
    unfolding stage_workorder_runtime_def Let_def env_def [symmetric] dir_def [symmetric]
    by (rule triple_bind [OF triple_exists], rule triple_bind [OF clear],
        (rule triple_bind [OF mk])+, rule triple_bind [OF manifest], rule loops)
  then show ?thesis using i keepsD by (simp add: env_def)
qed

section \<open>The clean-up of the store\<close>

subsection \<open>What a deletion touches\<close>

definition entry_files :: "cleanup_entry \<Rightarrow> path set" where
  "entry_files e =
     (case ce_kind e of
        BlobEntry \<Rightarrow> {blob_file (ce_digest e), blob_zst_file (ce_digest e), blob_meta_file (ce_digest e)}
      | TreeEntry \<Rightarrow> {tree_file (ce_digest e), tree_zst_file (ce_digest e), tree_meta_file (ce_digest e)})"

definition raw_file :: "cleanup_entry \<Rightarrow> path" where
  "raw_file e = (case ce_kind e of BlobEntry \<Rightarrow> blob_file (ce_digest e) | TreeEntry \<Rightarrow> tree_file (ce_digest e))"

abbreviation holds_at :: "store_env \<Rightarrow> path \<Rightarrow> bytes option \<Rightarrow> fs \<Rightarrow> bool" where
  "holds_at env q c fs \<equiv> store_inv env fs \<and> fs_content q fs = c"

lemma remove_file_gone:
  assumes "fs_remove_file p fs = (Inr x, fs')"
  shows "fs_content p fs' = None"
  using assms by (auto simp: fs_remove_file_def fs_content_def fs_node_def split: option.splits node.splits if_splits)

lemma keeps_remove_if_exists:
  assumes "p \<noteq> q \<or> c = None"
  shows "keeps (holds_at env q c) (remove_file_if_exists env p)"
proof -
  have "keeps (holds_at env q c) (fs_remove_file p)"
  proof (rule keepsI)
    fix fs
    assume i: "holds_at env q c fs"
    show "holds_at env q c (snd (fs_remove_file p fs))"
    proof (cases "snd (fs_remove_file p fs) = fs")
      case False
      then have r: "removes {p} fs (snd (fs_remove_file p fs))"
        using remove_file_cases [OF store_invD(1) [OF conjunct1 [OF i]], of p] by blast
      then have "fs_content q (snd (fs_remove_file p fs)) = c"
        using assms removes_content [OF r, of q] removesD(4) [OF r, of q] i by (cases "p = q"; cases "fs_content q (snd (fs_remove_file p fs))") auto
      then show ?thesis using store_inv_removes [OF conjunct1 [OF i] r] by simp
    qed (use i in simp)
  qed
  then show ?thesis unfolding remove_file_if_exists_def by (intro triple_rules)
qed

lemma keeps_delete_blob:
  assumes "q \<notin> {blob_file d, blob_zst_file d, blob_meta_file d} \<or> c = None"
  shows "keeps (holds_at env q c) (delete_blob env d)"
  by (cases "digest_ok d"; simp add: delete_blob_def store_paths store_paths_bad cong: sum.case_cong;
      intro triple_rules keeps_remove_if_exists) (use assms in auto)

lemma keeps_delete_tree:
  assumes "q \<notin> {tree_file d, tree_zst_file d, tree_meta_file d} \<or> c = None"
  shows "keeps (holds_at env q c) (delete_tree env d)"
  by (cases "digest_ok d"; simp add: delete_tree_def store_paths store_paths_bad cong: sum.case_cong;
      intro triple_rules keeps_remove_if_exists) (use assms in auto)

lemma keeps_delete_entry:
  assumes "q \<notin> entry_files e \<or> c = None"
  shows "keeps (holds_at env q c) (delete_cleanup_entry env e summary)"
  unfolding delete_cleanup_entry_def
  by (cases "ce_kind e"; simp; intro triple_rules keeps_delete_blob keeps_delete_tree)
    (use assms in \<open>auto simp: entry_files_def\<close>)

lemma keeps_delete_down_to:
  assumes "\<And>e. e \<in> set es \<Longrightarrow> q \<notin> entry_files e"
  shows "keeps (holds_at env q c) (delete_down_to env floor_bytes es acc)"
  using assms
proof (induction es arbitrary: acc)
  case (Cons e es)
  obtain n summary where "acc = (n, summary)" by (cases acc)
  then show ?case using Cons by (auto intro!: triple_rules keeps_delete_entry)
qed (auto intro!: triple_rules)

subsection \<open>The listing\<close>

lemma load_metadata_same: "load_blob_metadata env d fs = (r, fs') \<Longrightarrow> fs' = fs"
  "load_tree_metadata env d fs = (r, fs') \<Longrightarrow> fs' = fs"
  using keeps_run [OF keeps_load_metadata(1), of env d fs r fs' "\<lambda>s. s = fs"]
    keeps_run [OF keeps_load_metadata(2), of env d fs r fs' "\<lambda>s. s = fs"] by simp_all

lemma load_metadata_ok: "load_blob_metadata env d fs = (Inr m, fs') \<Longrightarrow> digest_ok d"
  "load_tree_metadata env d fs = (Inr m, fs') \<Longrightarrow> digest_ok d"
  by (cases "digest_ok d"; simp add: load_blob_metadata_def load_tree_metadata_def store_paths_bad act_Inr)+

definition listed_blobs :: "store_env \<Rightarrow> fs \<Rightarrow> (string \<times> blob_metadata) list \<Rightarrow> bool" where
  "listed_blobs env fs records \<longleftrightarrow> (\<forall>(d, m)\<in>set records. load_blob_metadata env d fs = (Inr m, fs))"

definition listed_trees :: "store_env \<Rightarrow> fs \<Rightarrow> (string \<times> tree_metadata) list \<Rightarrow> bool" where
  "listed_trees env fs records \<longleftrightarrow> (\<forall>(d, m)\<in>set records. load_tree_metadata env d fs = (Inr m, fs))"

lemma shard_records_listed:
  "shard_records env shard entries records fs = (Inr out, fs') \<Longrightarrow> listed_blobs env fs records \<Longrightarrow>
     fs' = fs \<and> listed_blobs env fs out"
proof (induction entries arbitrary: records)
  case (Cons p entries)
  obtain name n where p: "p = (name, n)" by (cases p)
  show ?case
  proof (cases "\<exists>i stem. n = File i \<and> strip_meta_json name = Some stem")
    case True
    then obtain i stem where n: "n = File i" "strip_meta_json name = Some stem" by blast
    with Cons.prems(1) obtain m fs1 where l1: "load_blob_metadata env (shard @ stem) fs = (Inr m, fs1)"
      and r: "shard_records env shard entries (records @ [(shard @ stem, m)]) fs1 = (Inr out, fs')"
      by (auto simp: p act_Inr)
    have e: "fs1 = fs" by (rule load_metadata_same(1) [OF l1])
    have "listed_blobs env fs (records @ [(shard @ stem, m)])"
      using Cons.prems(2) l1 unfolding listed_blobs_def e by auto
    then show ?thesis using Cons.IH r unfolding e by blast
  next
    case False
    then show ?thesis using Cons.IH Cons.prems by (auto simp: p split: node.splits option.splits)
  qed
qed (simp add: act_Inr)

lemma all_shards_listed:
  "all_shards env shards records fs = (Inr out, fs') \<Longrightarrow> listed_blobs env fs records \<Longrightarrow>
     fs' = fs \<and> listed_blobs env fs out"
proof (induction shards arbitrary: records)
  case (Cons p shards)
  obtain shard n where p: "p = (shard, n)" by (cases p)
  show ?case
  proof (cases "n = Dir")
    case True
    with Cons.prems(1) obtain es fs1 recs fs2 where
      r: "in_context (''Failed to read '' @ display_path env [BLOBS_SUBDIR, shard]) (fs_read_dir [BLOBS_SUBDIR, shard]) fs = (Inr es, fs1)"
      and s: "shard_records env shard es records fs1 = (Inr recs, fs2)"
      and a: "all_shards env shards recs fs2 = (Inr out, fs')"
      by (auto simp: p act_Inr)
    have "fs1 = fs" using keeps_run [OF keeps_in_context [OF keeps_read_dir] r, of "\<lambda>s. s = fs"] by simp
    then have "fs2 = fs \<and> listed_blobs env fs recs" using shard_records_listed s Cons.prems(2) by blast
    then show ?thesis using Cons.IH a by blast
  next
    case False
    then show ?thesis using Cons.IH Cons.prems by (simp add: p)
  qed
qed (simp add: act_Inr)

lemma list_blob_metadata_listed:
  assumes "list_blob_metadata env fs = (Inr records, fs')"
  shows "fs' = fs" "listed_blobs env fs records"
proof -
  obtain r fs1 where r: "fs_read_dir [BLOBS_SUBDIR] fs = (r, fs1)" by fastforce
  have e: "fs1 = fs" using keeps_run [OF keeps_read_dir r, of "\<lambda>s. s = fs"] by simp
  have "fs' = fs \<and> listed_blobs env fs records"
  proof (cases r)
    case (Inl x)
    then show ?thesis
      using assms r e by (auto simp: list_blob_metadata_def act_match_def act_Inr listed_blobs_def split: if_splits)
  next
    case (Inr shards)
    then show ?thesis
      using assms r e all_shards_listed [of env shards "[]" fs records fs']
      by (simp add: list_blob_metadata_def act_match_def listed_blobs_def)
  qed
  then show "fs' = fs" "listed_blobs env fs records" by simp_all
qed

lemma tree_records_listed:
  "tree_records env entries records fs = (Inr out, fs') \<Longrightarrow> listed_trees env fs records \<Longrightarrow>
     fs' = fs \<and> listed_trees env fs out"
proof (induction entries arbitrary: records)
  case (Cons p entries)
  obtain name n where p: "p = (name, n)" by (cases p)
  show ?case
  proof (cases "\<exists>i d. n = File i \<and> strip_meta_json name = Some d")
    case True
    then obtain i d where n: "n = File i" "strip_meta_json name = Some d" by blast
    with Cons.prems(1) obtain m fs1 where l1: "load_tree_metadata env d fs = (Inr m, fs1)"
      and r: "tree_records env entries (records @ [(d, m)]) fs1 = (Inr out, fs')"
      by (auto simp: p act_Inr)
    have e: "fs1 = fs" by (rule load_metadata_same(2) [OF l1])
    have "listed_trees env fs (records @ [(d, m)])"
      using Cons.prems(2) l1 unfolding listed_trees_def e by auto
    then show ?thesis using Cons.IH r unfolding e by blast
  next
    case False
    then show ?thesis using Cons.IH Cons.prems by (auto simp: p split: node.splits option.splits)
  qed
qed (simp add: act_Inr)

lemma list_tree_metadata_listed:
  assumes "list_tree_metadata env fs = (Inr records, fs')"
  shows "fs' = fs" "listed_trees env fs records"
proof -
  obtain r fs1 where r: "fs_read_dir [TREES_SUBDIR] fs = (r, fs1)" by fastforce
  have e: "fs1 = fs" using keeps_run [OF keeps_read_dir r, of "\<lambda>s. s = fs"] by simp
  have "fs' = fs \<and> listed_trees env fs records"
  proof (cases r)
    case (Inl x)
    then show ?thesis
      using assms r e by (auto simp: list_tree_metadata_def act_match_def act_Inr listed_trees_def split: if_splits)
  next
    case (Inr entries)
    then show ?thesis
      using assms r e tree_records_listed [of env entries "[]" fs records fs']
      by (simp add: list_tree_metadata_def act_match_def listed_trees_def)
  qed
  then show "fs' = fs" "listed_trees env fs records" by simp_all
qed

subsection \<open>The entries that may go\<close>

lemma scan_entries:
  assumes "fold (scan_record kind active grace hard) records (n, hs, es) = (n', hs', es')"
    and "e \<in> set hs' \<union> set es'"
  shows "e \<in> set hs \<union> set es \<or>
    (ce_kind e = kind \<and> ce_digest e \<notin> set active
     \<and> (\<exists>m. (ce_digest e, m) \<in> set records \<and> ce_last_referenced_at e = bm_last_referenced_at m
          \<and> (bm_last_referenced_at m \<le> hard \<or> bm_last_referenced_at m \<le> grace)))"
  using assms
proof (induction records arbitrary: n hs es)
  case (Cons r records)
  obtain d m where r: "r = (d, m)" by (cases r)
  obtain n1 hs1 es1 where s: "scan_record kind active grace hard r (n, hs, es) = (n1, hs1, es1)"
    by (metis prod_cases3)
  from Cons.IH [of n1 hs1 es1] Cons.prems s show ?case
    by (auto simp: r Let_def split: if_splits)
qed simp

section \<open>A sample store\<close>

text \<open>The hash of a sample is its length in hexadecimal, so that the metadata need to keep only
  the size and the day.  Hard links work and copy-on-write clones do not, as on ext4.\<close>

definition sample_sha256 :: "bytes \<Rightarrow> string" where
  "sample_sha256 bs = replicate 62 (CHR ''0'')
     @ map (\<lambda>n. ''0123456789abcdef'' ! n) [length bs div 16 mod 16, length bs mod 16]"

definition a_day :: timestamp where
  "a_day = duration_hours 24"

definition sample_enc_meta :: "blob_metadata \<Rightarrow> bytes" where
  "sample_enc_meta m = [word_of_nat (bm_raw_size_bytes m), word_of_int (bm_last_referenced_at m div a_day)]"

definition sample_dec_meta :: "bytes \<Rightarrow> string + blob_metadata" where
  "sample_dec_meta bs =
     (case bs of
        [n, day] \<Rightarrow> Inr \<lparr> bm_canonical_digest = sample_sha256 (replicate (unat n) 0),
          bm_raw_size_bytes = unat n, bm_last_referenced_at = uint day * a_day, bm_encoded_variants = [] \<rparr>
      | _ \<Rightarrow> Inl ''EOF while parsing'')"

definition sample_store_env :: store_env where
  "sample_store_env =
     \<lparr> se_state_dir = ''/var/lib/remerge'', se_uuid = ''u'', se_sha256 = sample_sha256, se_zstd = Inr,
       se_enc_blob_meta = sample_enc_meta, se_dec_blob_meta = sample_dec_meta,
       se_enc_tree_meta = sample_enc_meta, se_dec_tree_meta = sample_dec_meta,
       se_enc_tree = (\<lambda>refs. concat (map (\<lambda>(p, d). string_bytes p) refs)),
       se_hard_link = None, se_reflink = Some EOPNOTSUPP \<rparr>"

definition sample_runtime_env :: runtime_env where
  "sample_runtime_env =
     \<lparr> re_store = sample_store_env, re_show_uuid = (\<lambda>_. ''id''), re_enc_workorder = (\<lambda>_. []),
       re_dec_parity = (\<lambda>_. Inl []), re_dec_distfiles = (\<lambda>_. Inl []) \<rparr>"

end
