(* ===== verification/Queue.thy ===== *)
theory Queue
  imports Server_State Snapshot_Runtime
begin

text \<open>
  The queue processor (\<open>crates/server/src/queue.rs\<close>).  The loop of \<open>process_queue\<close>
  is cut at the points where it lets other tasks run: picking the oldest pending
  workorder, claiming it, and waiting for a worker permit.  \<open>process_workorder\<close>
  is cut where it waits for Docker or stages files: the start of the task, the
  worker image, the staging of the runtime, the start of the container and the
  end of the build.  What Docker answers is an argument of each part, what the file
  system answers is computed on \<open>st_store\<close>; between two parts any other handler may run.
\<close>

section \<open>Helpers\<close>

record io_env =
  io_codec :: json_codec
  io_unique :: string
  io_sha256 :: "bytes \<Rightarrow> string"
  io_runtime :: runtime_env

text \<open>What Docker answers the clean-up of a workorder.\<close>

record cleanup_answer =
  ca_container_removed :: bool

definition show_int :: "int \<Rightarrow> string" where
  "show_int i = (if i < 0 then ''-'' @ show_nat (nat (- i)) else show_nat (nat i))"

definition failed_packages_for_atoms :: "string list \<Rightarrow> string \<Rightarrow> failed_package list" where
  "failed_packages_for_atoms atoms reason =
     map (\<lambda>atom. \<lparr> fp_atom = atom, fp_reason = reason, fp_build_log = None \<rparr>) atoms"

definition workorder_trace_id :: "workorder \<Rightarrow> string option" where
  "workorder_trace_id w = map_option tc_trace_id (wo_trace_context w)"

definition build_progress ::
    "workorder_id \<Rightarrow> string option \<Rightarrow> build_event \<Rightarrow> timestamp \<Rightarrow> build_progress_event" where
  "build_progress w trace_id event now =
     \<lparr> bp_workorder_id = w, bp_trace_id = trace_id, bp_event = event, bp_timestamp = now \<rparr>"

definition send :: "build_progress_event \<Rightarrow> app_state \<Rightarrow> app_state" where
  "send e s = s\<lparr> st_events := st_events s @ [e] \<rparr>"

definition set_workorder_status ::
    "io_env \<Rightarrow> timestamp \<Rightarrow> workorder_id \<Rightarrow> string option \<Rightarrow> workorder_status
     \<Rightarrow> app_state \<Rightarrow> app_state" where
  "set_workorder_status io now w trace_id new_status s =
     (case map_of (st_workorders s) w of
        None \<Rightarrow> s
      | Some wo \<Rightarrow>
          let s1 = s\<lparr> st_workorders := hm_insert w
                      (wo\<lparr> wo_status := new_status, wo_updated_at := now \<rparr>) (st_workorders s) \<rparr>;
              s2 = send (build_progress w trace_id
                      (StatusChanged (wo_status wo) new_status) now) s1
          in s2\<lparr> st_files := save_workorders (io_codec io) (io_unique io)
                    (st_workorders s2) (st_files s2) \<rparr>)"

definition cleanup_workorder_runtime ::
    "io_env \<Rightarrow> cleanup_answer \<Rightarrow> workorder \<Rightarrow> workorder_id \<Rightarrow> string option \<Rightarrow> app_state \<Rightarrow> app_state" where
  "cleanup_workorder_runtime io ans wo w container s =
     (let s1 = s\<lparr> st_container_ids := hm_remove w (st_container_ids s) \<rparr>;
          s2 = clear_staged_workorder_references w s1;
          s3 = remove_workorder_channels w s2;
          s4 = s3\<lparr> st_clients := clear_active_workorder (wo_client_id wo) (st_clients s3) \<rparr>;
          s5 = (case container of
                  Some c \<Rightarrow> s4\<lparr> st_docker := st_docker s4 @ [RemoveContainer c] \<rparr>
                | None \<Rightarrow> s4);
          cleanup_success = (case container of Some _ \<Rightarrow> ca_container_removed ans | None \<Rightarrow> True);
          s6 = s5\<lparr> st_store := snd (cleanup_runtime_dir (io_runtime io) w (st_store s5)) \<rparr>
      in s6\<lparr> st_metrics := record_cleanup cleanup_success (st_metrics s6) \<rparr>)"

text \<open>The task it spawns: a clean-up of the snapshot storage that spares what is staged.\<close>

definition snapshot_cleanup :: "io_env \<Rightarrow> timestamp \<Rightarrow> app_state \<Rightarrow> app_state" where
  "snapshot_cleanup io now s =
     (let active_references = map snd (st_staged_references s)
      in case cleanup_snapshot_storage_at (re_store (io_runtime io)) (st_config s) active_references now (st_store s) of
           (Inr summary, store) \<Rightarrow>
             if scs_deleted_blobs summary \<noteq> 0 \<or> scs_deleted_trees summary \<noteq> 0
             then s\<lparr> st_store := store, st_metrics :=
                    record_cleanup_reclaimed_bytes (word_of_nat (scs_reclaimed_bytes summary)) (st_metrics s) \<rparr>
             else s\<lparr> st_store := store \<rparr>
         | (Inl _, store) \<Rightarrow> s\<lparr> st_store := store \<rparr>)"

section \<open>The loop of the queue\<close>

text \<open>\<open>Iterator::min_by_key\<close>: the first of the minimal elements.\<close>

fun min_by_created_at :: "workorder list \<Rightarrow> workorder option" where
  "min_by_created_at [] = None"
| "min_by_created_at (w # ws) =
     (case min_by_created_at ws of
        None \<Rightarrow> Some w
      | Some v \<Rightarrow> if wo_created_at w \<le> wo_created_at v then Some w else Some v)"

definition next_pending :: "app_state \<Rightarrow> workorder option" where
  "next_pending s =
     min_by_created_at (filter (\<lambda>w. wo_status w = Pending) (map snd (st_workorders s)))"

definition claim :: "timestamp \<Rightarrow> workorder \<Rightarrow> app_state \<Rightarrow> bool \<times> app_state" where
  "claim now wo s =
     (case map_of (st_workorders s) (wo_id wo) of
        None \<Rightarrow> (False, s)
      | Some w \<Rightarrow>
          if wo_status w \<noteq> Pending then (False, s)
          else
            let s1 = s\<lparr> st_workorders := hm_insert (wo_id wo)
                         (w\<lparr> wo_status := Provisioning, wo_updated_at := now \<rparr>) (st_workorders s) \<rparr>;
                s2 = s1\<lparr> st_metrics := (st_metrics s1)\<lparr> m_queue_depth := m_queue_depth (st_metrics s1) - 1 \<rparr> \<rparr>
            in (True,
                if map_of (st_progress_txs s2) (wo_id wo) \<noteq> None
                then send (build_progress (wo_id wo) (workorder_trace_id wo)
                       (StatusChanged Pending Provisioning) now) s2
                else s2))"

section \<open>One workorder, part by part\<close>

definition binhost_result ::
    "app_state \<Rightarrow> workorder_id \<Rightarrow> built_package list \<Rightarrow> failed_package list
     \<Rightarrow> (string, snapshot_entry) btree_map \<Rightarrow> parity_manifest \<Rightarrow> workorder_result" where
  "binhost_result s w built failed distfiles parity =
     \<lparr> wr_workorder_id = w, wr_built_packages = built, wr_failed_packages = failed,
       wr_binhost_uri = sc_binhost_url (st_config s),
       wr_fetched_distfiles = distfiles, wr_parity_manifest = parity \<rparr>"

definition build_ended :: "u64 \<Rightarrow> app_state \<Rightarrow> app_state" where
  "build_ended secs s =
     s\<lparr> st_metrics := (st_metrics s)
          \<lparr> m_builds_total_duration_secs := m_builds_total_duration_secs (st_metrics s) + secs,
            m_builds_active := m_builds_active (st_metrics s) - 1 \<rparr> \<rparr>"

definition count_failed :: "app_state \<Rightarrow> app_state" where
  "count_failed s =
     s\<lparr> st_metrics := (st_metrics s)\<lparr> m_workorders_failed := m_workorders_failed (st_metrics s) + 1 \<rparr> \<rparr>"

definition count_completed :: "app_state \<Rightarrow> app_state" where
  "count_completed s =
     s\<lparr> st_metrics := (st_metrics s)\<lparr> m_workorders_completed := m_workorders_completed (st_metrics s) + 1 \<rparr> \<rparr>"

definition insert_result :: "workorder_id \<Rightarrow> workorder_result \<Rightarrow> app_state \<Rightarrow> app_state" where
  "insert_result w r s = s\<lparr> st_results := hm_insert w r (st_results s) \<rparr>"

text \<open>A failure before the container runs: image, staging or start.  The event comes
  before the result.\<close>

definition fail_before_start ::
    "io_env \<Rightarrow> cleanup_answer \<Rightarrow> timestamp \<Rightarrow> workorder \<Rightarrow> string \<Rightarrow> u64 \<Rightarrow> app_state \<Rightarrow> app_state" where
  "fail_before_start io ans now wo reason secs s =
     (let w = wo_id wo; trace_id = workorder_trace_id wo;
          s1 = set_workorder_status io now w trace_id (Failed reason) s;
          s2 = send (build_progress w trace_id (Finished [] (wo_atoms wo)) now) s1;
          s3 = insert_result w (binhost_result s2 w []
                 (failed_packages_for_atoms (wo_atoms wo) reason) [] parity_manifest_default) s2;
          s4 = count_failed (build_ended secs s3)
      in cleanup_workorder_runtime io ans wo w None s4)"

text \<open>A failure after the build, while its output is read back: the result comes first.\<close>

definition fail_ingest ::
    "io_env \<Rightarrow> cleanup_answer \<Rightarrow> timestamp \<Rightarrow> workorder \<Rightarrow> string \<Rightarrow> parity_manifest \<Rightarrow> string \<Rightarrow> u64
     \<Rightarrow> app_state \<Rightarrow> app_state" where
  "fail_ingest io ans now wo reason parity container secs s =
     (let w = wo_id wo; trace_id = workorder_trace_id wo;
          s1 = set_workorder_status io now w trace_id (Failed reason) s;
          s2 = insert_result w (binhost_result s1 w []
                 (failed_packages_for_atoms (wo_atoms wo) reason) [] parity) s1;
          s3 = send (build_progress w trace_id (Finished [] (wo_atoms wo)) now) s2;
          s4 = count_failed (build_ended secs s3)
      in cleanup_workorder_runtime io ans wo w (Some container) s4)"

text \<open>The start of the task; the boolean tells whether processing goes on.\<close>

definition process_begin :: "workorder \<Rightarrow> app_state \<Rightarrow> bool \<times> app_state" where
  "process_begin wo s =
     (let s1 = s\<lparr> st_metrics := (st_metrics s)\<lparr> m_builds_active := m_builds_active (st_metrics s) + 1 \<rparr> \<rparr>
      in if map_of (st_progress_txs s1) (wo_id wo) = None
         then (False, s1\<lparr> st_metrics := (st_metrics s1)
                 \<lparr> m_builds_active := m_builds_active (st_metrics s1) - 1 \<rparr> \<rparr>)
         else (True, s1))"

definition process_image ::
    "io_env \<Rightarrow> cleanup_answer \<Rightarrow> timestamp \<Rightarrow> workorder \<Rightarrow> string \<Rightarrow> bool \<Rightarrow> string + unit \<Rightarrow> u64 \<Rightarrow> u64
     \<Rightarrow> app_state \<Rightarrow> bool \<times> app_state" where
  "process_image io ans now wo image_tag needs_rebuild build_result image_secs secs s =
     (let s1 = (if needs_rebuild
                then s\<lparr> st_metrics := record_worker_image_build image_secs (st_metrics s) \<rparr> else s)
      in case (if needs_rebuild then build_result else Inr ()) of
           Inl e \<Rightarrow> (False, fail_before_start io ans now wo (''Failed to build worker image: '' @ e) secs s1)
         | Inr _ \<Rightarrow>
             (True, set_workorder_status io now (wo_id wo) (workorder_trace_id wo) Building
                (s1\<lparr> st_image_last_used := hm_insert image_tag now (st_image_last_used s1) \<rparr>)))"

definition process_stage ::
    "io_env \<Rightarrow> cleanup_answer \<Rightarrow> timestamp \<Rightarrow> workorder \<Rightarrow> u64 \<Rightarrow> app_state \<Rightarrow> bool \<times> app_state" where
  "process_stage io ans now wo secs s =
     (case stage_workorder_runtime (io_runtime io) now wo (st_store s) of
        (Inl e, store) \<Rightarrow>
          (False, fail_before_start io ans now wo (''Failed to stage worker runtime: '' @ anyhow_chain e) secs
             (s\<lparr> st_store := store \<rparr>))
      | (Inr staged, store) \<Rightarrow>
          (let refs = sw_snapshot_references staged; s1 = s\<lparr> st_store := store \<rparr>
           in (True, track_staged_workorder_references (wo_id wo) refs
                (s1\<lparr> st_metrics := record_snapshot_runtime_stage
                     (word_of_nat (srs_total_blob_bytes refs + srs_total_tree_bytes refs))
                     (st_metrics s1) \<rparr>))))"

text \<open>The start of the container.  The task dies at the \<open>expect\<close> when the raw output channel
  is gone; the state then stays as it is at that point.\<close>

datatype start_outcome = StartFailed | StartPanicked | Started string

definition process_start ::
    "io_env \<Rightarrow> cleanup_answer \<Rightarrow> timestamp \<Rightarrow> workorder \<Rightarrow> string + string \<Rightarrow> u64 \<Rightarrow> u64
     \<Rightarrow> app_state \<Rightarrow> start_outcome \<times> app_state" where
  "process_start io ans now wo start_result start_secs secs s =
     (let s1 = s\<lparr> st_metrics := record_worker_container_start start_secs (st_metrics s) \<rparr>
      in case start_result of
           Inl e \<Rightarrow> (StartFailed, fail_before_start io ans now wo (''Failed to start worker: '' @ e) secs s1)
         | Inr container \<Rightarrow>
             let s2 = s1\<lparr> st_container_ids := hm_insert (wo_id wo) container (st_container_ids s1) \<rparr>
             in if map_of (st_raw_output_txs s2) (wo_id wo) = None then (StartPanicked, s2)
                else (Started container, create_stdin_channel (wo_id wo) s2))"

datatype worker_event =
    EvPackageBuilt string u64
  | EvPackageFailed string string

text \<open>What waiting for the container gives: after how many seconds it ends, and its exit code or
  an error of Docker.\<close>

record wait_answer =
  wa_after_secs :: nat
  wa_result :: "string + int"

definition timed_out :: "server_config \<Rightarrow> wait_answer \<Rightarrow> bool" where
  "timed_out c r \<longleftrightarrow> sc_build_timeout_secs c \<noteq> 0 \<and> wa_after_secs r > sc_build_timeout_secs c"

definition wait_outcome :: "server_config \<Rightarrow> wait_answer \<Rightarrow> string + int" where
  "wait_outcome c r =
     (if timed_out c r
      then Inl (''Build exceeded configured timeout of ''
             @ show_nat (sc_build_timeout_secs c) @ '' seconds'')
      else case wa_result r of
             Inr code \<Rightarrow> Inr code
           | Inl e \<Rightarrow> Inl (''Failed to wait for worker container: '' @ e))"

definition stop_on_timeout :: "wait_answer \<Rightarrow> string \<Rightarrow> app_state \<Rightarrow> app_state" where
  "stop_on_timeout r container s =
     (if timed_out (st_config s) r
      then s\<lparr> st_docker := st_docker s @ [StopContainer container] \<rparr> else s)"

text \<open>One drained event: broadcast, metrics, and the lists of built and failed packages.\<close>

definition drain_event ::
    "timestamp \<Rightarrow> workorder \<Rightarrow> worker_event
     \<Rightarrow> string list \<times> failed_package list \<times> app_state \<Rightarrow> string list \<times> failed_package list \<times> app_state" where
  "drain_event now wo e acc =
     (case acc of (built, failed, s) \<Rightarrow>
        case e of
          EvPackageBuilt atom secs \<Rightarrow>
            (built @ [atom], failed,
             let s1 = send (build_progress (wo_id wo) (workorder_trace_id wo)
                        (PackageBuilt atom (unat secs)) now) s
             in s1\<lparr> st_metrics := record_package_build atom secs (st_metrics s1) \<rparr>)
        | EvPackageFailed atom reason \<Rightarrow>
            (built, failed @ [\<lparr> fp_atom = atom, fp_reason = reason, fp_build_log = None \<rparr>],
             send (build_progress (wo_id wo) (workorder_trace_id wo) (PackageFailed atom reason) now) s))"

definition drain_events ::
    "timestamp \<Rightarrow> workorder \<Rightarrow> worker_event list \<Rightarrow> app_state
     \<Rightarrow> string list \<times> failed_package list \<times> app_state" where
  "drain_events now wo es s = fold (drain_event now wo) es ([], [], s)"

definition package_of_event :: "string \<Rightarrow> built_package" where
  "package_of_event atom =
     \<lparr> bpk_atom = atom, bpk_binpkg_path = atom @ ''.gpkg.tar'', bpk_sha256 = [], bpk_size = 0 \<rparr>"

definition package_of_meta :: "package_meta \<Rightarrow> built_package" where
  "package_of_meta m =
     \<lparr> bpk_atom = pmt_cpv m, bpk_binpkg_path = pmt_relative_path m,
       bpk_sha256 = pmt_sha256 m, bpk_size = pmt_size m \<rparr>"

definition matches_request :: "string list \<Rightarrow> string list \<Rightarrow> package_meta \<Rightarrow> bool" where
  "matches_request atoms built m =
     (let scanned_base = extract_package_base (pmt_cpv m) in
      (\<exists>atom\<in>set atoms. extract_package_base
         (dropWhile (\<lambda>c. c \<in> set ''>=<~!'') atom) = scanned_base)
      \<or> (\<exists>a\<in>set built. extract_package_base a = scanned_base))"

definition built_packages_of ::
    "string list \<Rightarrow> string list \<Rightarrow> string + package_meta list \<Rightarrow> built_package list" where
  "built_packages_of atoms built scan =
     (let found = (case scan of
            Inr metas \<Rightarrow> map package_of_meta (filter (matches_request atoms built) metas)
          | Inl _ \<Rightarrow> map package_of_event built)
      in if found = [] then map package_of_event built else found)"

definition finish_success ::
    "io_env \<Rightarrow> timestamp \<Rightarrow> workorder \<Rightarrow> string list \<Rightarrow> failed_package list
     \<Rightarrow> bool \<Rightarrow> bool \<Rightarrow> (string, snapshot_entry) btree_map \<Rightarrow> parity_manifest
     \<Rightarrow> app_state \<Rightarrow> app_state" where
  "finish_success io now wo built failed scan_ok index_ok distfiles parity s =
     (let w = wo_id wo; trace_id = workorder_trace_id wo;
          s1 = set_workorder_status io now w trace_id Completed s;
          scan = (if scan_ok then Inr (scan_packages (io_sha256 io) (st_binpkgs s1))
                  else Inl ''Failed to scan binpkg directory'');
          packages = built_packages_of (wo_atoms wo) built scan;
          s1' = (if index_ok
                 then s1\<lparr> st_binpkgs := regenerate_index (io_sha256 io) (st_binpkgs s1) \<rparr> else s1);
          s2 = insert_result w (binhost_result s1' w packages failed distfiles parity) s1';
          s3 = send (build_progress w trace_id
                 (Finished (map bpk_atom packages) (map fp_atom failed)) now) s2
      in count_completed s3)"

definition finish_failure ::
    "io_env \<Rightarrow> timestamp \<Rightarrow> workorder \<Rightarrow> string list \<Rightarrow> failed_package list \<Rightarrow> string
     \<Rightarrow> (string, snapshot_entry) btree_map \<Rightarrow> parity_manifest \<Rightarrow> app_state \<Rightarrow> app_state" where
  "finish_failure io now wo built failed reason distfiles parity s =
     (let w = wo_id wo; trace_id = workorder_trace_id wo;
          s1 = set_workorder_status io now w trace_id (Failed reason) s;
          packages = map package_of_event built;
          failures = (if failed = [] then failed_packages_for_atoms (wo_atoms wo) reason else failed);
          s2 = insert_result w (binhost_result s1 w packages failures distfiles parity) s1;
          s3 = send (build_progress w trace_id
                 (Finished (map bpk_atom packages) (map fp_atom failures)) now) s2
      in count_failed s3)"

record finish_input =
  fi_wait :: wait_answer
  fi_events :: "worker_event list"
  fi_scan_ok :: bool
  fi_index_ok :: bool
  fi_secs :: u64

definition process_finish ::
    "io_env \<Rightarrow> cleanup_answer \<Rightarrow> timestamp \<Rightarrow> workorder \<Rightarrow> string \<Rightarrow> finish_input
     \<Rightarrow> app_state \<Rightarrow> app_state" where
  "process_finish io ans now wo container inp s =
     (let w = wo_id wo; re = io_runtime io; dir = runtime_dir re w;
          s1 = stop_on_timeout (fi_wait inp) container s;
          s2 = s1\<lparr> st_raw_output_txs := hm_remove w (st_raw_output_txs s1) \<rparr>;
          (built, failed, s3) = drain_events now wo (fi_events inp) s2
      in case ingest_final_state_parity re now dir (st_store s3) of
           (Inl e, store) \<Rightarrow>
             fail_ingest io ans now wo (''Failed to ingest final-state parity: '' @ anyhow_chain e)
               parity_manifest_default container (fi_secs inp) (s3\<lparr> st_store := store \<rparr>)
         | (Inr parity, store) \<Rightarrow>
             (case ingest_fetched_distfiles re now dir store of
                (Inl e, store) \<Rightarrow>
                  fail_ingest io ans now wo (''Failed to ingest fetched distfiles: '' @ anyhow_chain e)
                    parity container (fi_secs inp) (s3\<lparr> st_store := store \<rparr>)
              | (Inr distfiles, store) \<Rightarrow>
                  (let s4 = s3\<lparr> st_store := store \<rparr>;
                       s5 = (case wait_outcome (st_config s4) (fi_wait inp) of
                         Inr code \<Rightarrow>
                           (if code = 0
                            then finish_success io now wo built failed (fi_scan_ok inp) (fi_index_ok inp)
                              distfiles parity s4
                            else finish_failure io now wo built failed
                              (''Worker exited with code '' @ show_int code) distfiles parity s4)
                       | Inl reason \<Rightarrow> finish_failure io now wo built failed reason distfiles parity s4)
                   in cleanup_workorder_runtime io ans wo w (Some container)
                        (build_ended (fi_secs inp) s5))))"

end
