(* ===== verification/Trace_Context.thy ===== *)
theory Trace_Context
  imports Remerge_Types
begin

text \<open>
  Distributed trace contexts (\<open>crates/observability/src/lib.rs\<close>): the parser of
  the W3C \<open>traceparent\<close> header and the construction of a new context.  The random
  identifiers of a new context come from the crate \<open>opentelemetry_sdk\<close> and are
  arguments.
\<close>

section \<open>Operations\<close>

definition TRACEPARENT_HEADER :: string where
  "TRACEPARENT_HEADER = ''traceparent''"

definition new_trace_context :: "string \<Rightarrow> string \<Rightarrow> trace_context" where
  "new_trace_context trace_id span_id =
     \<lparr> tc_trace_id = trace_id, tc_traceparent = ''00-'' @ trace_id @ ''-'' @ span_id @ ''-01'' \<rparr>"

definition parse_trace_context :: "string \<Rightarrow> trace_context option" where
  "parse_trace_context traceparent =
     (let normalized = map to_lower (trim traceparent) in
      case split_on CHR ''-'' normalized of
        version # trace_id # span_id # flags # rest \<Rightarrow>
          (if rest \<noteq> [] \<or> version \<noteq> ''00'' \<or> length trace_id \<noteq> 32 \<or> length span_id \<noteq> 16
              \<or> length flags \<noteq> 2
              \<or> trace_id = ''00000000000000000000000000000000''
              \<or> span_id = ''0000000000000000''
              \<or> \<not> list_all is_hexdigit trace_id
              \<or> \<not> list_all is_hexdigit span_id
              \<or> \<not> list_all is_hexdigit flags
           then None
           else Some \<lparr> tc_trace_id = trace_id,
                       tc_traceparent = ''00-'' @ trace_id @ ''-'' @ span_id @ ''-'' @ flags \<rparr>)
      | _ \<Rightarrow> None)"

section \<open>The canonical form\<close>

definition lower_hex :: "nat \<Rightarrow> string \<Rightarrow> bool" where
  "lower_hex n s \<longleftrightarrow> length s = n \<and> list_all (\<lambda>c. is_hexdigit c \<and> to_lower c = c) s"

definition canonical_traceparent :: "string \<Rightarrow> string \<Rightarrow> string \<Rightarrow> string" where
  "canonical_traceparent trace_id span_id flags =
     ''00-'' @ trace_id @ ''-'' @ span_id @ ''-'' @ flags"

definition valid_trace_parts :: "string \<Rightarrow> string \<Rightarrow> string \<Rightarrow> bool" where
  "valid_trace_parts trace_id span_id flags \<longleftrightarrow> lower_hex 32 trace_id \<and> lower_hex 16 span_id
     \<and> lower_hex 2 flags \<and> trace_id \<noteq> replicate 32 CHR ''0'' \<and> span_id \<noteq> replicate 16 CHR ''0''"

lemma hexdigit_neq: "is_hexdigit c \<Longrightarrow> c \<noteq> CHR ''-'' \<and> \<not> is_whitespace c"
  by (auto simp: char_class_defs)

lemma to_lower_idem: "to_lower (to_lower c) = to_lower c"
proof (cases "is_upper c")
  case True
  have "(of_char (to_lower c) :: nat) = of_char c + 32"
    using True by (simp add: to_lower_def is_upper_def)
  then have "\<not> is_upper (to_lower c)" using True by (simp add: is_upper_def)
  then show ?thesis by (simp add: to_lower_def [of "to_lower c"])
qed (simp add: to_lower_def)

lemma lower_hex_no_hyphen: "lower_hex n s \<Longrightarrow> CHR ''-'' \<notin> set s"
  by (auto simp: lower_hex_def list_all_iff dest: hexdigit_neq)

lemma map_to_lower_id: "\<forall>c\<in>set s. to_lower c = c \<Longrightarrow> map to_lower s = s"
  by (induction s) auto

lemma trim_no_ws: "\<forall>c\<in>set s. \<not> is_whitespace c \<Longrightarrow> trim s = s"
proof -
  have "dropWhile is_whitespace t = t" if "\<forall>c\<in>set t. \<not> is_whitespace c" for t
    using that by (cases t) auto
  from this [of s] this [of "rev s"] show "\<forall>c\<in>set s. \<not> is_whitespace c \<Longrightarrow> trim s = s"
    by (simp add: trim_def trim_start_def trim_end_def)
qed

lemma canonical_chars:
  assumes "valid_trace_parts t s f"
  shows "\<forall>c\<in>set (canonical_traceparent t s f). to_lower c = c \<and> \<not> is_whitespace c"
  using assms
  by (auto simp: canonical_traceparent_def valid_trace_parts_def lower_hex_def list_all_iff
      to_lower_def char_class_defs)

lemma canonical_split:
  assumes "valid_trace_parts t s f"
  shows "split_on CHR ''-'' (canonical_traceparent t s f) = [''00'', t, s, f]"
proof -
  have "CHR ''-'' \<notin> set t" "CHR ''-'' \<notin> set s" "CHR ''-'' \<notin> set f" "CHR ''-'' \<notin> set ''00''"
    using assms by (auto simp: valid_trace_parts_def dest: lower_hex_no_hyphen)
  then show ?thesis
    using split_on_append [of "CHR ''-''" "''00''"]
    by (simp add: canonical_traceparent_def split_on_append split_on_no_sep)
qed

lemma replicate_zeros:
  "replicate 32 CHR ''0'' = ''00000000000000000000000000000000''"
  "replicate 16 CHR ''0'' = ''0000000000000000''"
  by code_simp+

lemma parse_canonical:
  assumes "valid_trace_parts t s f"
  shows "parse_trace_context (canonical_traceparent t s f)
    = Some \<lparr> tc_trace_id = t, tc_traceparent = canonical_traceparent t s f \<rparr>"
proof -
  have "map to_lower (trim (canonical_traceparent t s f)) = canonical_traceparent t s f"
    using canonical_chars [OF assms] by (simp add: trim_no_ws map_to_lower_id)
  then show ?thesis
    using canonical_split [OF assms] assms
    unfolding parse_trace_context_def Let_def
    by (simp add: valid_trace_parts_def lower_hex_def list_all_iff replicate_zeros canonical_traceparent_def)
qed

lemma lower_hexI:
  assumes "length s = n" "list_all is_hexdigit s" "set s \<subseteq> set (map to_lower u)"
  shows "lower_hex n s"
  using assms to_lower_idem by (fastforce simp: lower_hex_def list_all_iff)

lemma parse_valid:
  assumes "parse_trace_context h = Some tc"
  obtains s f where "valid_trace_parts (tc_trace_id tc) s f"
    "tc_traceparent tc = canonical_traceparent (tc_trace_id tc) s f"
proof -
  let ?n = "map to_lower (trim h)"
  obtain v t s f where parts: "split_on CHR ''-'' ?n = [v, t, s, f]"
    and tc: "tc = \<lparr> tc_trace_id = t, tc_traceparent = canonical_traceparent t s f \<rparr>"
    and ok: "length t = 32" "length s = 16" "length f = 2" "list_all is_hexdigit t"
      "list_all is_hexdigit s" "list_all is_hexdigit f"
      "t \<noteq> replicate 32 CHR ''0''" "s \<noteq> replicate 16 CHR ''0''"
    using assms unfolding parse_trace_context_def Let_def replicate_zeros
    by (auto simp: canonical_traceparent_def split: list.splits if_splits)
  have "set t \<subseteq> set ?n" "set s \<subseteq> set ?n" "set f \<subseteq> set ?n"
    using split_on_pieces [of _ "CHR ''-''" ?n] parts by simp_all
  then have "valid_trace_parts t s f"
    using ok by (simp add: valid_trace_parts_def lower_hexI [where u = "trim h"])
  then show ?thesis using that [of s f] tc by simp
qed

section \<open>Properties\<close>

text \<open>A parsed trace context is canonical whatever the header looked like: its trace id is 32
  lower-case hexadecimal digits, not all zero, its \<open>traceparent\<close> carries that trace id, and
  parsing that \<open>traceparent\<close> again gives the same context.\<close>

theorem parse_trace_context_canonical:
  assumes "parse_trace_context h = Some tc"
  shows "lower_hex 32 (tc_trace_id tc) \<and> tc_trace_id tc \<noteq> replicate 32 CHR ''0''
    \<and> (\<exists>rest. tc_traceparent tc = ''00-'' @ tc_trace_id tc @ ''-'' @ rest)
    \<and> parse_trace_context (tc_traceparent tc) = Some tc"
proof -
  obtain s f where v: "valid_trace_parts (tc_trace_id tc) s f"
    and e: "tc_traceparent tc = canonical_traceparent (tc_trace_id tc) s f"
    using parse_valid [OF assms] .
  have "parse_trace_context (tc_traceparent tc) = Some tc"
    using parse_canonical [OF v] e by simp
  then show ?thesis
    using v e by (auto simp: valid_trace_parts_def canonical_traceparent_def)
qed

theorem parse_trace_context_canonical_witness:
  "parse_trace_context (tc_traceparent (new_trace_context ''0AF7651916CD43DD8448EB211C80319C'' ''b7ad6b7169203331''))
     = Some (new_trace_context ''0af7651916cd43dd8448eb211c80319c'' ''b7ad6b7169203331'')
   \<and> parse_trace_context (tc_traceparent (new_trace_context ''0af7651916cd43dd8448eb211c80319c'' ''b7ad6b7169203331''))
     = Some (new_trace_context ''0af7651916cd43dd8448eb211c80319c'' ''b7ad6b7169203331'')"
proof -
  have p: "parse_trace_context (tc_traceparent (new_trace_context ''0AF7651916CD43DD8448EB211C80319C'' ''b7ad6b7169203331''))
     = Some (new_trace_context ''0af7651916cd43dd8448eb211c80319c'' ''b7ad6b7169203331'')"
    by code_simp
  show ?thesis
    by (rule conjI [OF p]) (use parse_trace_context_canonical [OF p] in \<open>elim conjE\<close>)
qed

end
