(* ===== verification/Server_Api.thy ===== *)
theory Server_Api
  imports Queue Trace_Context Atom_Validation
begin

text \<open>
  The HTTP handlers for workorders, clients and server information
  (\<open>crates/server/src/api.rs\<close>).  A handler maps the request and the state to a
  response and a state; an error is its HTTP status with the message the handler
  builds.  What a handler draws or reads outside the state (a new identifier, the
  time, a new trace context, the normalised snapshot manifest) is an argument.
\<close>

section \<open>Requests\<close>

type_synonym http_error = "nat \<times> string"

definition header_str :: "header_map \<Rightarrow> string \<Rightarrow> string option" where
  "header_str headers name = (case map_of headers name of Some (Some v) \<Rightarrow> Some v | _ \<Rightarrow> None)"

definition resolve_request_trace_context :: "trace_context \<Rightarrow> header_map \<Rightarrow> trace_context" where
  "resolve_request_trace_context new_context headers =
     (case header_str headers TRACEPARENT_HEADER of
        Some traceparent \<Rightarrow> unwrap_or new_context (parse_trace_context traceparent)
      | None \<Rightarrow> new_context)"

definition request_accepts_zstd :: "header_map \<Rightarrow> bool" where
  "request_accepts_zstd headers =
     (case header_str headers ''accept-encoding'' of
        None \<Rightarrow> False
      | Some v \<Rightarrow>
          (\<exists>token\<in>set (split_on CHR '','' v).
             eq_ignore_ascii_case (trim (hd (split_on CHR '';'' token))) ''zstd''))"

definition require_snapshot_auth :: "app_state \<Rightarrow> header_map \<Rightarrow> http_error + unit" where
  "require_snapshot_auth s headers =
     (if cr_mode (st_auth s) \<noteq> AuthNone
      then rbind (ok_or (401, ''Authentication required'') (resolve_header_only (st_auth s) headers))
             (\<lambda>_. Inr ())
      else Inr ())"

definition protect_observability_and_binpkgs :: "app_state \<Rightarrow> header_map \<Rightarrow> string \<Rightarrow> nat + unit" where
  "protect_observability_and_binpkgs s headers path =
     (let requires_auth = (case cr_mode (st_auth s) of
            AuthNone \<Rightarrow> False
          | Mtls \<Rightarrow> path = ''/metrics'' \<or> starts_with ''/binpkgs'' path
          | Mixed \<Rightarrow> path = ''/metrics'')
      in if requires_auth \<and> resolve_header_only (st_auth s) headers = None then Inl 401 else Inr ())"

section \<open>Submission\<close>

record submit_env =
  sv_io :: io_env
  sv_hash :: hash_env
  sv_show_uuid :: "uuid \<Rightarrow> string"

definition invalid_atom_message :: "string \<Rightarrow> atom_validation_error \<Rightarrow> string" where
  "invalid_atom_message atom e =
     ''Invalid atom '' @ [CHR 0x27] @ atom @ [CHR 0x27] @ '': '' @ atom_validation_error_display e"

fun validate_atoms :: "string list \<Rightarrow> http_error + unit" where
  "validate_atoms [] = Inr ()"
| "validate_atoms (atom # atoms) =
     (case validate_atom atom of
        Inl e \<Rightarrow> Inl (400, invalid_atom_message atom e)
      | Inr _ \<Rightarrow> validate_atoms atoms)"

definition at_capacity :: "app_state \<Rightarrow> bool" where
  "at_capacity s \<longleftrightarrow> sc_max_active_workorders (st_config s) > 0
     \<and> active_count (st_workorders s) \<ge> sc_max_active_workorders (st_config s)"

definition progress_ws_url :: "submit_env \<Rightarrow> app_state \<Rightarrow> header_map \<Rightarrow> workorder_id \<Rightarrow> string" where
  "progress_ws_url env s headers w =
     (let host = unwrap_or ''localhost:7654'' (header_str headers ''host'');
          scheme = (case header_str headers ''x-forwarded-proto'' of
              Some proto \<Rightarrow> (if eq_ignore_ascii_case proto ''https'' then ''wss'' else ''ws'')
            | None \<Rightarrow> (if sc_tls (st_config s) \<noteq> None then ''wss'' else ''ws''))
      in scheme @ ''://'' @ host @ ''/api/v1/workorders/'' @ sv_show_uuid env w @ ''/progress'')"

definition new_workorder ::
    "workorder_id \<Rightarrow> timestamp \<Rightarrow> resolved_identity \<Rightarrow> trace_context \<Rightarrow> portage_config
     \<Rightarrow> submit_workorder_request \<Rightarrow> workorder" where
  "new_workorder w now identity trace cfg req =
     \<lparr> wo_id = w, wo_client_id = ri_client_id identity, wo_role = ri_role identity,
       wo_atoms = sr_atoms req, wo_emerge_args = sr_emerge_args req, wo_portage_config = cfg,
       wo_system_id = sr_system_id req, wo_trace_context = Some trace, wo_status = Pending,
       wo_created_at = now, wo_updated_at = now \<rparr>"

text \<open>What an admitted submission does to the state, under the submission lock and after.\<close>

definition enqueue :: "workorder \<Rightarrow> app_state \<Rightarrow> app_state" where
  "enqueue wo s =
     (let s1 = create_progress_channel (wo_id wo) s;
          s2 = s1\<lparr> st_workorders := hm_insert (wo_id wo) wo (st_workorders s1) \<rparr>;
          s3 = s2\<lparr> st_clients := set_active_workorder (wo_client_id wo) (wo_id wo) (st_clients s2) \<rparr>
      in s3\<lparr> st_metrics := (st_metrics s3)
               \<lparr> m_workorders_submitted := m_workorders_submitted (st_metrics s3) + 1,
                 m_queue_depth := m_queue_depth (st_metrics s3) + 1 \<rparr> \<rparr>)"

definition save_submission :: "io_env \<Rightarrow> app_state \<Rightarrow> app_state" where
  "save_submission io s =
     s\<lparr> st_files := save_clients (io_codec io) (io_unique io) (registry_snapshot (st_clients s))
          (save_workorders (io_codec io) (io_unique io) (st_workorders s) (st_files s)) \<rparr>"

definition submit_workorder ::
    "submit_env \<Rightarrow> workorder_id \<Rightarrow> timestamp \<Rightarrow> trace_context \<Rightarrow> header_map
     \<Rightarrow> submit_workorder_request \<Rightarrow> app_state
     \<Rightarrow> (http_error + submit_workorder_response) \<times> app_state" where
  "submit_workorder env w now new_context headers req s0 =
     (case validate_atoms (sr_atoms req) of
        Inl e \<Rightarrow> (Inl e, s0)
      | Inr _ \<Rightarrow>
     (case resolve (st_auth s0) headers (sr_client_id req) (sr_role req) of
        Inl e \<Rightarrow> (Inl (auth_error_status_code e, auth_error_display e), s0)
      | Inr identity \<Rightarrow>
     (let trace = resolve_request_trace_context new_context headers;
          (normalized, store) = normalize_portage_config_snapshots (re_store (io_runtime (sv_io env))) now
            (sr_portage_config req) (st_store s0);
          s = s0\<lparr> st_store := store \<rparr>
      in case normalized of
        Inl e \<Rightarrow> (Inl (400, anyhow_display e), s)
      | Inr cfg \<Rightarrow>
          if at_capacity s
          then (Inl (503, ''Workorder capacity reached (limit ''
                  @ show_nat (sc_max_active_workorders (st_config s)) @ ''). Retry later.''), s)
          else
            (case registry_update (sv_hash env) now (ri_client_id identity) (ri_role identity)
                    (sr_portage_config req) (sr_system_id req) (st_clients s) of
               (Inl e, clients) \<Rightarrow>
                 (Inl (409, registry_error_display (sv_show_uuid env) e), s\<lparr> st_clients := clients \<rparr>)
             | (Inr diff, clients) \<Rightarrow>
                 let wo = new_workorder w now identity trace cfg req;
                     s' = save_submission (sv_io env) (enqueue wo (s\<lparr> st_clients := clients \<rparr>))
                 in (Inr \<lparr> sp_workorder_id = w,
                           sp_progress_ws_url = progress_ws_url env s headers w,
                           sp_trace_id = Some (tc_trace_id trace) \<rparr>, s')))))"

section \<open>Queries\<close>

definition server_info :: "string \<Rightarrow> app_state \<Rightarrow> server_info_response" where
  "server_info version s =
     \<lparr> sir_version = version,
       sir_binhost_base_url = sc_binhost_url (st_config s),
       sir_active_workers = length (filter (\<lambda>p. wo_status (snd p) = Building
          \<or> wo_status (snd p) = Provisioning) (st_workorders s)),
       sir_queued_workorders = length (filter (\<lambda>p. wo_status (snd p) = Pending) (st_workorders s)),
       sir_auth_mode = cr_mode (st_auth s),
       sir_binpkg_signing = signing_enabled (sc_signing (st_config s)),
       sir_signing_key_fingerprint = map_option sk_fingerprint (st_signing_key s),
       sir_signing_key_endpoint = map_option (\<lambda>_. ''/api/v1/signing-key'') (st_signing_key s) \<rparr>"

definition signing_key :: "app_state \<Rightarrow> nat + string" where
  "signing_key s = rbind (ok_or 404 (st_signing_key s)) (\<lambda>k. Inr (sk_armored_key k))"

definition list_workorders :: "header_map \<Rightarrow> app_state \<Rightarrow> nat + workorder_summary list" where
  "list_workorders headers s =
     rbind (if cr_mode (st_auth s) \<noteq> AuthNone
            then rbind (ok_or 401 (resolve_header_only (st_auth s) headers)) (\<lambda>c. Inr (Some c))
            else Inr None)
       (\<lambda>auth_client_id.
          Inr (map (\<lambda>w. \<lparr> wsm_id = wo_id w, wsm_atoms = wo_atoms w, wsm_status = wo_status w,
                          wsm_created_at = wo_created_at w \<rparr>)
            (filter (\<lambda>w. case auth_client_id of Some cid \<Rightarrow> wo_client_id w = cid | None \<Rightarrow> True)
              (map snd (st_workorders s)))))"

definition get_workorder :: "header_map \<Rightarrow> workorder_id \<Rightarrow> app_state \<Rightarrow> nat + workorder_status_response" where
  "get_workorder headers w s =
     rbind (ok_or 404 (map_of (st_workorders s) w)) (\<lambda>wo.
     rbind (if cr_mode (st_auth s) \<noteq> AuthNone
            then (case resolve_header_only (st_auth s) headers of
                    Some cid \<Rightarrow> (if cid = wo_client_id wo then Inr () else Inl 403)
                  | None \<Rightarrow> Inl 401)
            else Inr ()) (\<lambda>_.
     Inr \<lparr> ws_workorder_id = w, ws_status = wo_status wo,
           ws_result = map_of (st_results s) w,
           ws_trace_id = workorder_trace_id wo \<rparr>))"

definition list_clients :: "header_map \<Rightarrow> app_state \<Rightarrow> nat + client_summary list" where
  "list_clients headers s =
     rbind (if cr_mode (st_auth s) \<noteq> AuthNone
            then rbind (ok_or 401 (resolve_header_only (st_auth s) headers)) (\<lambda>_. Inr ())
            else Inr ())
       (\<lambda>_. Inr (map (\<lambda>c. \<lparr> csm_client_id = cs_client_id c, csm_config_hash = cs_config_hash c,
                            csm_last_seen = cs_last_seen c,
                            csm_active_workorder = cs_active_workorder c \<rparr>)
              (registry_list_all (st_clients s))))"

definition get_client :: "header_map \<Rightarrow> client_id \<Rightarrow> app_state \<Rightarrow> nat + client_detail_response" where
  "get_client headers cid s =
     rbind (if cr_mode (st_auth s) \<noteq> AuthNone
            then rbind (ok_or 401 (resolve_header_only (st_auth s) headers)) (\<lambda>_. Inr ())
            else Inr ()) (\<lambda>_.
     rbind (ok_or 404 (registry_get cid (st_clients s))) (\<lambda>c.
     Inr \<lparr> cd_client_id = cs_client_id c, cd_config_hash = cs_config_hash c,
           cd_system_hash = cs_system_hash c, cd_last_seen = cs_last_seen c,
           cd_active_workorder = cs_active_workorder c \<rparr>))"

text \<open>The upgrade of the progress WebSocket: whether it is accepted, and whether the raw
  channel is attached.  The handler takes no headers.\<close>

definition ws_progress :: "workorder_id \<Rightarrow> app_state \<Rightarrow> nat + bool" where
  "ws_progress w s =
     (if subscribe_progress w s then Inr (subscribe_raw_output w s) else Inl 404)"

section \<open>Cancellation\<close>

definition authorize_cancel :: "header_map \<Rightarrow> workorder_id \<Rightarrow> app_state \<Rightarrow> http_error + unit" where
  "authorize_cancel headers w s =
     (if cr_mode (st_auth s) \<noteq> AuthNone
      then (case map_of (st_workorders s) w of
              None \<Rightarrow> Inr ()
            | Some wo \<Rightarrow>
                (case resolve_header_only (st_auth s) headers of
                   Some cid \<Rightarrow> (if cid = wo_client_id wo then Inr ()
                                else Inl (403, ''You do not own this workorder''))
                 | None \<Rightarrow> Inl (401, ''Authentication required to cancel workorders'')))
      else Inr ())"

definition apply_cancel :: "timestamp \<Rightarrow> workorder_id \<Rightarrow> workorder \<Rightarrow> app_state \<Rightarrow> app_state" where
  "apply_cancel now w wo s =
     (let s1 = s\<lparr> st_workorders := hm_insert w (wo\<lparr> wo_status := Cancelled \<rparr>) (st_workorders s) \<rparr>;
          s2 = (if map_of (st_progress_txs s1) w \<noteq> None
                then send (build_progress w (workorder_trace_id wo)
                       (StatusChanged (wo_status wo) Cancelled) now) s1
                else s1);
          s3 = s2\<lparr> st_clients := clear_active_workorder (wo_client_id wo) (st_clients s2) \<rparr>;
          s4 = (if wo_status wo = Pending
                then s3\<lparr> st_metrics := (st_metrics s3)\<lparr> m_queue_depth := m_queue_depth (st_metrics s3) - 1 \<rparr> \<rparr>
                else s3);
          s5 = (case (if wo_status wo = Building then map_of (st_container_ids s4) w else None) of
                  Some c \<Rightarrow> s4\<lparr> st_docker := st_docker s4 @ [StopContainer c] \<rparr>
                | None \<Rightarrow> s4)
      in s5\<lparr> st_metrics := (st_metrics s5)
               \<lparr> m_workorders_cancelled := m_workorders_cancelled (st_metrics s5) + 1 \<rparr> \<rparr>)"

definition cancel_workorder ::
    "timestamp \<Rightarrow> header_map \<Rightarrow> workorder_id \<Rightarrow> app_state
     \<Rightarrow> (http_error + cancel_workorder_response) \<times> app_state" where
  "cancel_workorder now headers w s =
     (case authorize_cancel headers w s of
        Inl e \<Rightarrow> (Inl e, s)
      | Inr _ \<Rightarrow>
          (case map_of (st_workorders s) w of
             None \<Rightarrow> (Inl (404, ''Workorder not found''), s)
           | Some wo \<Rightarrow>
               let was_cancellable = is_active wo in
               (Inr \<lparr> cw_workorder_id = w, cw_cancelled = was_cancellable \<rparr>,
                if was_cancellable then apply_cancel now w wo s else s)))"

section \<open>Laws of the handlers\<close>

lemma validate_atoms_ok: "validate_atoms atoms = Inr () \<longleftrightarrow> (\<forall>a\<in>set atoms. validate_atom a = Inr ())"
  by (induction atoms) (auto split: sum.splits)

lemma active_count_insert_new:
  "map_of ws w = None \<Longrightarrow> active_count (hm_insert w wo ws) = active_count ws + (if is_active wo then 1 else 0)"
  by (induction w wo ws rule: hm_insert.induct) (auto simp: active_count_def split: if_splits)

end
