(* ===== verification/Lifecycle.thy ===== *)
theory Lifecycle
  imports Remerge_Types "HOL-Library.Multiset"
begin

text \<open>
  The contract of the server as a small machine: the status and the owner of each
  workorder, the marker of each client, which channels exist, which workorder the
  queue has picked, and which workorders somebody works on (the queue after the
  claim, or a task).  The steps say what the handlers and tasks may do to this
  state; the concrete server is shown to implement it in \<open>Server_System\<close>.  The
  invariants are proved here, once.
\<close>

section \<open>Reachability, invariants and simulation\<close>

inductive reachable :: "('s \<Rightarrow> bool) \<Rightarrow> ('s \<Rightarrow> 's \<Rightarrow> bool) \<Rightarrow> 's \<Rightarrow> bool" for init step where
  start: "init s \<Longrightarrow> reachable init step s"
| next_step: "reachable init step s \<Longrightarrow> step s s' \<Longrightarrow> reachable init step s'"

locale invariant =
  fixes init :: "'s \<Rightarrow> bool" and step :: "'s \<Rightarrow> 's \<Rightarrow> bool" and inv :: "'s \<Rightarrow> bool"
  assumes init_inv: "init s \<Longrightarrow> inv s"
    and step_inv: "step s s' \<Longrightarrow> inv s \<Longrightarrow> inv s'"
begin

lemma reachable_inv: "reachable init step s \<Longrightarrow> inv s"
  by (induction rule: reachable.induct) (auto intro: init_inv step_inv)

end

text \<open>A simulation under a concrete invariant: each concrete step is an abstract one.\<close>

locale simulation = invariant +
  fixes ainit :: "'a \<Rightarrow> bool" and astep :: "'a \<Rightarrow> 'a \<Rightarrow> bool" and abs :: "'s \<Rightarrow> 'a"
  assumes init_sim: "init s \<Longrightarrow> ainit (abs s)"
    and step_sim: "step s s' \<Longrightarrow> inv s \<Longrightarrow> astep (abs s) (abs s')"
begin

lemma reachable_abs: "reachable init step s \<Longrightarrow> reachable ainit astep (abs s)"
proof (induction rule: reachable.induct)
  case (next_step s s')
  then show ?case
    by (meson reachable.next_step reachable_inv step_sim)
qed (simp add: init_sim reachable.start)

end

section \<open>The machine\<close>

definition in_flight :: "workorder_status \<Rightarrow> bool" where
  "in_flight st \<longleftrightarrow> st = Provisioning \<or> st = Building"

definition settled :: "workorder_status \<Rightarrow> bool" where
  "settled st \<longleftrightarrow> is_terminal st \<and> st \<noteq> Cancelled"

record core =
  co_workorders :: "workorder_id \<rightharpoonup> client_id \<times> workorder_status"
  co_markers :: "client_id \<rightharpoonup> workorder_id"
  co_progress :: "workorder_id set"
  co_raw :: "workorder_id set"
  co_picked :: "(workorder_id \<times> client_id) option"
  co_running :: "(workorder_id \<times> client_id) multiset"

definition put_status :: "workorder_id \<Rightarrow> workorder_status
    \<Rightarrow> (workorder_id \<rightharpoonup> client_id \<times> workorder_status) \<Rightarrow> (workorder_id \<rightharpoonup> client_id \<times> workorder_status)" where
  "put_status w st m = m(w := map_option (\<lambda>p. (fst p, st)) (m w))"

definition core_fresh :: "workorder_id \<Rightarrow> core \<Rightarrow> bool" where
  "core_fresh w c \<longleftrightarrow> co_workorders c w = None \<and> w \<notin># image_mset fst (co_running c)
     \<and> (\<forall>cl. co_picked c \<noteq> Some (w, cl))"

text \<open>The steps inside one run of the server.\<close>

inductive core_run_step :: "core \<Rightarrow> core \<Rightarrow> bool" where
  stutter: "core_run_step c c"
| submit: "core_fresh w c \<Longrightarrow> co_markers c cl = None \<Longrightarrow>
    core_run_step c (c\<lparr> co_workorders := (co_workorders c)(w \<mapsto> (cl, Pending)),
      co_markers := (co_markers c)(cl \<mapsto> w),
      co_progress := insert w (co_progress c), co_raw := insert w (co_raw c) \<rparr>)"
| cancel: "co_workorders c w = Some (cl, st) \<Longrightarrow> \<not> is_terminal st \<Longrightarrow>
    core_run_step c (c\<lparr> co_workorders := put_status w Cancelled (co_workorders c),
      co_markers := (co_markers c)(cl := None) \<rparr>)"
| evict: "(\<And>w cl st. w \<in> gone \<Longrightarrow> co_workorders c w = Some (cl, st) \<Longrightarrow> is_terminal st) \<Longrightarrow>
    gone \<subseteq> dom (co_workorders c) \<Longrightarrow>
    core_run_step c (c\<lparr> co_workorders := (co_workorders c) |` (- gone),
      co_progress := co_progress c - gone, co_raw := co_raw c - gone \<rparr>)"
| pick: "co_workorders c w = Some (cl, Pending) \<Longrightarrow>
    core_run_step c (c\<lparr> co_picked := Some (w, cl) \<rparr>)"
| unpick: "core_run_step c (c\<lparr> co_picked := None \<rparr>)"
| claim: "co_picked c = Some (w, cl) \<Longrightarrow> co_workorders c w = Some (cl', Pending) \<Longrightarrow>
    core_run_step c (c\<lparr> co_workorders := put_status w Provisioning (co_workorders c),
      co_picked := None, co_running := add_mset (w, cl) (co_running c) \<rparr>)"
| build: "(w, cl) \<in># co_running c \<Longrightarrow>
    core_run_step c (c\<lparr> co_workorders := put_status w Building (co_workorders c) \<rparr>)"
| finish: "(w, cl) \<in># co_running c \<Longrightarrow> settled st \<Longrightarrow>
    core_run_step c (c\<lparr> co_workorders := put_status w st (co_workorders c),
      co_markers := (co_markers c)(cl := None),
      co_progress := co_progress c - {w}, co_raw := co_raw c - {w},
      co_running := co_running c - {#(w, cl)#} \<rparr>)"
| abandon: "(w, cl) \<in># co_running c \<Longrightarrow> w \<notin> co_progress c \<or> w \<notin> co_raw c \<Longrightarrow>
    core_run_step c (c\<lparr> co_running := co_running c - {#(w, cl)#} \<rparr>)"

text \<open>The state after a start: whatever was saved, with nothing in progress.\<close>

definition core_started :: "core \<Rightarrow> bool" where
  "core_started c \<longleftrightarrow>
     (\<forall>w cl st. co_workorders c w = Some (cl, st) \<longrightarrow> \<not> in_flight st) \<and>
     co_markers c = Map.empty \<and>
     (\<forall>w cl st. co_workorders c w = Some (cl, st) \<and> \<not> is_terminal st \<longrightarrow>
        w \<in> co_progress c \<and> w \<in> co_raw c) \<and>
     co_picked c = None \<and> co_running c = {#}"

inductive core_step :: "core \<Rightarrow> core \<Rightarrow> bool" where
  run: "core_run_step c c' \<Longrightarrow> core_step c c'"
| restart: "core_started c' \<Longrightarrow> core_step c c'"

section \<open>The invariant\<close>

text \<open>Every workorder in flight is worked on, at most once, and what is worked on is neither
  pending nor settled; a workorder that is not finished, or is worked on, has its channels; a
  marker points at an unfinished workorder of its client.\<close>

definition inv_running :: "core \<Rightarrow> bool" where
  "inv_running c \<longleftrightarrow>
     (\<forall>w cl cl' st. (w, cl) \<in># co_running c \<longrightarrow> co_workorders c w = Some (cl', st)
        \<longrightarrow> cl' = cl \<and> st \<noteq> Pending \<and> \<not> settled st \<and> w \<in> co_progress c \<and> w \<in> co_raw c)"

definition inv_once :: "core \<Rightarrow> bool" where
  "inv_once c \<longleftrightarrow> (\<forall>w. count (image_mset fst (co_running c)) w \<le> Suc 0)"

definition inv_picked :: "core \<Rightarrow> bool" where
  "inv_picked c \<longleftrightarrow> (\<forall>w cl. co_picked c = Some (w, cl)
     \<longrightarrow> map_option fst (co_workorders c w) \<in> {None, Some cl})"

definition inv_owned :: "core \<Rightarrow> bool" where
  "inv_owned c \<longleftrightarrow> (\<forall>w cl st. co_workorders c w = Some (cl, st) \<longrightarrow> in_flight st
     \<longrightarrow> (w, cl) \<in># co_running c)"

definition inv_channels :: "core \<Rightarrow> bool" where
  "inv_channels c \<longleftrightarrow> (\<forall>w cl st. co_workorders c w = Some (cl, st) \<longrightarrow> \<not> is_terminal st
     \<longrightarrow> w \<in> co_progress c \<and> w \<in> co_raw c)"

definition inv_markers :: "core \<Rightarrow> bool" where
  "inv_markers c \<longleftrightarrow> (\<forall>cl w. co_markers c cl = Some w
     \<longrightarrow> (\<exists>st. co_workorders c w = Some (cl, st) \<and> \<not> is_terminal st))"

definition core_inv :: "core \<Rightarrow> bool" where
  "core_inv c \<longleftrightarrow> inv_running c \<and> inv_once c \<and> inv_picked c \<and> inv_owned c
     \<and> inv_channels c \<and> inv_markers c"

lemma put_status_eq:
  "put_status w st m v = (if v = w then map_option (\<lambda>p. (fst p, st)) (m w) else m v)"
  by (simp add: put_status_def)

lemma in_flight_not_terminal: "in_flight st \<Longrightarrow> \<not> is_terminal st"
  by (auto simp: in_flight_def)

lemma active_cases: "\<not> is_terminal st \<longleftrightarrow> st = Pending \<or> in_flight st"
  by (cases st) (auto simp: in_flight_def)

lemma once_add:
  assumes "w \<notin># image_mset fst r" "\<forall>v. count (image_mset fst r) v \<le> Suc 0"
  shows "\<forall>v. count (image_mset fst (add_mset (w, cl) r)) v \<le> Suc 0"
proof -
  have "count (image_mset fst r) w = 0" using assms(1) by (simp only: count_eq_zero_iff not_False_eq_True)
  then show ?thesis using assms(2) by simp
qed

lemma once_remove:
  assumes "\<forall>v. count (image_mset fst r) v \<le> Suc 0"
  shows "count (image_mset fst (r - {#p#})) v \<le> Suc 0"
proof -
  have "image_mset fst (r - {#p#}) \<subseteq># image_mset fst r"
    by (intro image_mset_subseteq_mono diff_subset_eq_self)
  then have "count (image_mset fst (r - {#p#})) v \<le> count (image_mset fst r) v"
    by (rule mset_subset_eq_count)
  also have "\<dots> \<le> Suc 0" using assms by blast
  finally show ?thesis .
qed

lemma once_unique:
  assumes "\<forall>v. count (image_mset fst r) v \<le> Suc 0" "(w, cl) \<in># r"
  shows "(w, cl') \<notin># r - {#(w, cl)#}"
proof
  assume "(w, cl') \<in># r - {#(w, cl)#}"
  then have "w \<in># image_mset fst (r - {#(w, cl)#})" by force
  then have "0 < count (image_mset fst (r - {#(w, cl)#})) w" by (simp only: count_greater_zero_iff)
  moreover have "image_mset fst r = add_mset w (image_mset fst (r - {#(w, cl)#}))"
    using assms(2) by (metis fst_conv image_mset_add_mset insert_DiffM)
  then have "count (image_mset fst r) w = Suc (count (image_mset fst (r - {#(w, cl)#})) w)" by simp
  ultimately show False
    using assms(1) [rule_format, of w] by linarith
qed

lemma inv_runningI:
  "(\<And>w cl cl' st. (w, cl) \<in># co_running c \<Longrightarrow> co_workorders c w = Some (cl', st)
     \<Longrightarrow> cl' = cl \<and> st \<noteq> Pending \<and> \<not> settled st \<and> w \<in> co_progress c \<and> w \<in> co_raw c) \<Longrightarrow> inv_running c"
  by (simp add: inv_running_def)

lemma inv_runningD:
  "inv_running c \<Longrightarrow> (w, cl) \<in># co_running c \<Longrightarrow> co_workorders c w = Some (cl', st)
     \<Longrightarrow> cl' = cl \<and> st \<noteq> Pending \<and> \<not> settled st \<and> w \<in> co_progress c \<and> w \<in> co_raw c"
  unfolding inv_running_def by blast

lemma inv_running_mono:
  assumes "inv_running c"
    and "\<And>w cl. (w, cl) \<in># co_running c' \<Longrightarrow> (w, cl) \<in># co_running c \<and> co_workorders c' w = co_workorders c w
      \<and> (w \<in> co_progress c \<longrightarrow> w \<in> co_progress c') \<and> (w \<in> co_raw c \<longrightarrow> w \<in> co_raw c')"
  shows "inv_running c'"
proof (rule inv_runningI)
  fix w cl cl' st
  assume a: "(w, cl) \<in># co_running c'" "co_workorders c' w = Some (cl', st)"
  then show "cl' = cl \<and> st \<noteq> Pending \<and> \<not> settled st \<and> w \<in> co_progress c' \<and> w \<in> co_raw c'"
    using inv_runningD [OF assms(1), of w cl cl' st] assms(2) [OF a(1)] by auto
qed

lemma running_not_pending:
  assumes "inv_running c" "co_workorders c w = Some (cl, Pending)"
  shows "w \<notin># image_mset fst (co_running c)"
  using inv_runningD [OF assms(1) _ assms(2)] by auto

lemmas inv_defs = inv_running_def inv_once_def inv_picked_def inv_owned_def inv_channels_def
  inv_markers_def

lemma core_invD:
  assumes "core_inv c"
  shows "inv_running c" "inv_once c" "inv_picked c" "inv_owned c" "inv_channels c" "inv_markers c"
  using assms by (simp_all add: core_inv_def)

lemma settled_simps [simp]:
  "settled Completed" "settled (Failed r)" "\<not> settled Cancelled" "\<not> settled Pending"
  "\<not> settled Provisioning" "\<not> settled Building"
  by (simp_all add: settled_def)

lemma inv_running_step: "core_run_step c c' \<Longrightarrow> core_inv c \<Longrightarrow> inv_running c'"
proof (induction rule: core_run_step.induct)
  case (finish w cl c st)
  note u = once_unique [OF core_invD(2) [OF finish.prems, unfolded inv_once_def] finish.hyps(1)]
  have "v \<noteq> w \<and> (v, dl) \<in># co_running c" if "(v, dl) \<in># co_running c - {#(w, cl)#}" for v dl
    using that u in_diffD [OF that] by blast
  then show ?case
    by (intro inv_running_mono [OF core_invD(1) [OF finish.prems]]) (simp add: put_status_eq)
next
  case (claim c w cl cl')
  have "w \<in> co_progress c \<and> w \<in> co_raw c"
    using claim core_invD(5) [OF claim.prems] by (simp add: inv_channels_def)
  moreover have "cl' = cl"
    using claim core_invD(3) [OF claim.prems] by (simp add: inv_picked_def)
  moreover have "w \<notin># image_mset fst (co_running c)"
    using running_not_pending core_invD(1) claim by blast
  ultimately show ?case
    using claim.hyps
    by (intro inv_runningI)
      (auto simp: put_status_eq split: if_splits dest: inv_runningD [OF core_invD(1) [OF claim.prems]])
next
  case (submit w c cl)
  have "v \<noteq> w" if "(v, dl) \<in># co_running c" for v dl
    using that submit.hyps(1) by (force simp: core_fresh_def)
  then show ?case
    by (intro inv_running_mono [OF core_invD(1) [OF submit.prems]]) simp
next
  case (cancel c w cl st)
  show ?case
    using cancel.hyps
    by (intro inv_runningI)
      (auto simp: put_status_eq split: if_splits dest: inv_runningD [OF core_invD(1) [OF cancel.prems]])
next
  case (evict gone c)
  show ?case
    by (intro inv_runningI)
      (auto simp: restrict_map_def split: if_splits dest: inv_runningD [OF core_invD(1) [OF evict.prems]])
next
  case (build w cl c)
  show ?case
    by (intro inv_runningI)
      (auto simp: put_status_eq split: if_splits dest: inv_runningD [OF core_invD(1) [OF build.prems]])
next
  case (abandon w cl c)
  have "(v, dl) \<in># co_running c" if "(v, dl) \<in># co_running c - {#(w, cl)#}" for v dl
    using in_diffD [OF that] .
  then show ?case
    by (intro inv_running_mono [OF core_invD(1) [OF abandon.prems]]) simp
next
  case (stutter c)
  then show ?case by (rule core_invD(1))
next
  case (pick c w cl)
  show ?case by (intro inv_running_mono [OF core_invD(1) [OF pick.prems]]) simp
next
  case (unpick c)
  then show ?case by (intro inv_running_mono [OF core_invD(1) [OF unpick]]) simp
qed

lemma inv_once_step: "core_run_step c c' \<Longrightarrow> core_inv c \<Longrightarrow> inv_once c'"
proof (induction rule: core_run_step.induct)
  case (claim c w cl cl')
  have "w \<notin># image_mset fst (co_running c)"
    using running_not_pending core_invD(1) claim by blast
  from once_add [OF this core_invD(2) [OF claim.prems, unfolded inv_once_def]]
  show ?case by (simp add: inv_once_def)
next
  case (finish w cl c st)
  show ?case
    using once_remove [OF core_invD(2) [OF finish.prems, unfolded inv_once_def]] by (simp add: inv_once_def)
next
  case (abandon w cl c)
  show ?case
    using once_remove [OF core_invD(2) [OF abandon.prems, unfolded inv_once_def]] by (simp add: inv_once_def)
qed (simp_all add: core_inv_def inv_once_def)

lemma inv_picked_step: "core_run_step c c' \<Longrightarrow> core_inv c \<Longrightarrow> inv_picked c'"
  by (induction rule: core_run_step.induct)
    (auto simp: core_inv_def inv_picked_def put_status_eq core_fresh_def restrict_map_def split: if_splits)

lemma inv_owned_step: "core_run_step c c' \<Longrightarrow> core_inv c \<Longrightarrow> inv_owned c'"
proof (induction rule: core_run_step.induct)
  case (finish w cl c st)
  then show ?case
    by (auto simp: core_inv_def inv_owned_def put_status_eq settled_def in_diff_count
        dest: in_flight_not_terminal)
next
  case (abandon w cl c)
  then have "co_workorders c w = None"
    by (cases "co_workorders c w") (auto simp: core_inv_def inv_running_def)
  with abandon show ?case
    by (auto simp: core_inv_def inv_owned_def in_diff_count)
qed (auto simp: core_inv_def inv_owned_def inv_running_def inv_picked_def put_status_eq in_flight_def
      restrict_map_def split: if_splits)

lemma inv_channels_step: "core_run_step c c' \<Longrightarrow> core_inv c \<Longrightarrow> inv_channels c'"
  by (induction rule: core_run_step.induct)
    (auto simp: core_inv_def inv_channels_def inv_running_def put_status_eq settled_def restrict_map_def
      split: if_splits)

lemma inv_markers_step: "core_run_step c c' \<Longrightarrow> core_inv c \<Longrightarrow> inv_markers c'"
  by (induction rule: core_run_step.induct)
    (fastforce simp: core_inv_def inv_markers_def inv_running_def put_status_eq core_fresh_def restrict_map_def
      split: if_splits)+

lemma core_run_step_inv: "core_run_step c c' \<Longrightarrow> core_inv c \<Longrightarrow> core_inv c'"
  by (simp add: core_inv_def [of c'] inv_running_step inv_once_step inv_picked_step inv_owned_step
      inv_channels_step inv_markers_step)

lemma core_started_inv: "core_started c \<Longrightarrow> core_inv c"
  by (auto simp: core_started_def core_inv_def inv_defs)

interpretation core_machine: invariant core_started core_step core_inv
  by unfold_locales (auto simp: core_started_inv elim: core_step.cases intro: core_run_step_inv)

section \<open>Transitions\<close>

text \<open>The changes of status a workorder may go through inside one run.  A cancelled workorder
  that is still worked on can leave its status.\<close>

fun status_next :: "bool \<Rightarrow> workorder_status \<Rightarrow> workorder_status \<Rightarrow> bool" where
  "status_next worked_on Pending st' \<longleftrightarrow> st' = Provisioning \<or> st' = Cancelled"
| "status_next worked_on Provisioning st' \<longleftrightarrow> st' = Building \<or> is_terminal st'"
| "status_next worked_on Building st' \<longleftrightarrow> is_terminal st'"
| "status_next worked_on Cancelled st' \<longleftrightarrow> worked_on \<and> (st' = Building \<or> settled st')"
| "status_next worked_on Completed st' \<longleftrightarrow> False"
| "status_next worked_on (Failed r) st' \<longleftrightarrow> False"

lemma settled_terminal: "settled st \<Longrightarrow> is_terminal st"
  by (simp add: settled_def)

lemma status_next_running:
  assumes "core_inv c" "(w, cl) \<in># co_running c" "co_workorders c w = Some (cl', st)"
    and "st' = Building \<or> settled st'"
  shows "st = st' \<or> status_next (w \<in># image_mset fst (co_running c)) st st'"
proof -
  have "st \<noteq> Pending" "\<not> settled st"
    using inv_runningD [OF core_invD(1) [OF assms(1)] assms(2,3)] by blast+
  moreover have "w \<in># image_mset fst (co_running c)" using assms(2) by force
  ultimately show ?thesis
    using assms(4) by (cases st) (auto dest: settled_terminal)
qed

lemma core_run_step_status:
  assumes "core_run_step c c'" "core_inv c" "co_workorders c w = Some (cl, st)"
    "co_workorders c' w = Some (cl', st')"
  shows "cl' = cl \<and> (st = st' \<or> status_next (w \<in># image_mset fst (co_running c)) st st')"
  using assms
proof (induction rule: core_run_step.induct)
  case (build v dl c)
  then show ?case
    using status_next_running [OF build.prems(1), of w dl cl st Building]
    by (cases "v = w") (auto simp: put_status_eq)
next
  case (finish v dl c st'')
  then show ?case
    using status_next_running [OF finish.prems(1), of w dl cl st st'']
    by (cases "v = w") (auto simp: put_status_eq)
next
  case (cancel c v dl st'')
  then show ?case by (cases "v = w"; cases st) (auto simp: put_status_eq)
next
  case (claim c v dl dl')
  then show ?case by (cases "v = w") (auto simp: put_status_eq)
qed (auto simp: core_fresh_def restrict_map_def split: if_splits)

section \<open>One workorder in progress per client\<close>

text \<open>Runs that start without unfinished workorders and in which nobody cancels a workorder in
  flight.\<close>

definition core_clean :: "core \<Rightarrow> bool" where
  "core_clean c \<longleftrightarrow> core_started c \<and> (\<forall>w cl st. co_workorders c w = Some (cl, st) \<longrightarrow> is_terminal st)"

definition calm :: "core \<Rightarrow> core \<Rightarrow> bool" where
  "calm c c' \<longleftrightarrow> (\<forall>w cl st cl'. co_workorders c w = Some (cl, st) \<longrightarrow> in_flight st
     \<longrightarrow> co_workorders c' w \<noteq> Some (cl', Cancelled))"

definition calm_step :: "core \<Rightarrow> core \<Rightarrow> bool" where
  "calm_step c c' \<longleftrightarrow> core_run_step c c' \<and> calm c c'"

definition calm_inv :: "core \<Rightarrow> bool" where
  "calm_inv c \<longleftrightarrow> core_inv c
     \<and> (\<forall>w cl st. co_workorders c w = Some (cl, st) \<longrightarrow> \<not> is_terminal st \<longrightarrow> co_markers c cl = Some w)
     \<and> (\<forall>w cl. (w, cl) \<in># co_running c \<longrightarrow> (\<exists>st. co_workorders c w = Some (cl, st) \<and> in_flight st))"

lemma calm_invD:
  assumes "calm_inv c"
  shows "core_inv c"
    "co_workorders c w = Some (cl, st) \<Longrightarrow> \<not> is_terminal st \<Longrightarrow> co_markers c cl = Some w"
    "(w, cl) \<in># co_running c \<Longrightarrow> \<exists>st. co_workorders c w = Some (cl, st) \<and> in_flight st"
  using assms unfolding calm_inv_def by blast+

lemma calm_marker:
  assumes "calm_inv c" "(w, cl) \<in># co_running c"
  shows "co_markers c cl = Some w"
  using calm_invD(2,3) [OF assms(1)] assms(2) in_flight_not_terminal by blast

lemma calm_step_inv: "calm_step c c' \<Longrightarrow> calm_inv c \<Longrightarrow> calm_inv c'"
proof -
  assume st: "calm_step c c'" and inv: "calm_inv c"
  then have run: "core_run_step c c'" and calm: "calm c c'" by (simp_all add: calm_step_def)
  have core: "core_inv c'" by (rule core_run_step_inv [OF run calm_invD(1) [OF inv]])
  note m = calm_invD(2) [OF inv] and r = calm_invD(3) [OF inv]
  have "(\<forall>w cl st. co_workorders c' w = Some (cl, st) \<longrightarrow> \<not> is_terminal st \<longrightarrow> co_markers c' cl = Some w)
     \<and> (\<forall>w cl. (w, cl) \<in># co_running c' \<longrightarrow> (\<exists>st. co_workorders c' w = Some (cl, st) \<and> in_flight st))"
    using run calm inv m r
  proof (induction rule: core_run_step.induct)
    case (finish w cl c st)
    have u: "(w, dl) \<notin># co_running c - {#(w, cl)#}" for dl
      by (rule once_unique [OF core_invD(2) [OF calm_invD(1) [OF finish.prems(2)], unfolded inv_once_def] finish.hyps(1)])
    have k: "co_markers c cl = Some w" by (rule calm_marker [OF finish.prems(2) finish.hyps(1)])
    have "co_markers c dl = Some v \<and> dl \<noteq> cl"
      if "v \<noteq> w" "co_workorders c v = Some (dl, st')" "\<not> is_terminal st'" for v dl st'
      using finish.prems(3) [OF that(2,3)] k that(1) by auto
    moreover have "\<exists>st. co_workorders c v = Some (dl, st) \<and> in_flight st"
      and "v \<noteq> w" if "(v, dl) \<in># co_running c - {#(w, cl)#}" for v dl
      using finish.prems(4) [OF in_diffD [OF that]] u that by blast+
    ultimately show ?case
      using settled_terminal [OF finish.hyps(2)] by (auto simp: put_status_eq)
  next
    case (submit w c cl)
    have "v \<noteq> w \<and> dl \<noteq> cl" if "co_workorders c v = Some (dl, st')" "\<not> is_terminal st'" for v dl st'
      using that submit.prems(3) [OF that] submit.hyps by (auto simp: core_fresh_def)
    moreover have "v \<noteq> w" if "(v, dl) \<in># co_running c" for v dl
      using that submit.hyps(1) by (force simp: core_fresh_def)
    ultimately show ?case
      using submit.prems(3,4) by (auto split: if_splits)
  next
    case (cancel c w cl st)
    have p: "\<not> in_flight st"
      using cancel.prems(1) [unfolded calm_def, rule_format, OF cancel.hyps(1), of cl] cancel.hyps(1)
      by (auto simp: put_status_eq)
    have k: "co_markers c cl = Some w" by (rule cancel.prems(3) [OF cancel.hyps])
    have "co_markers c dl = Some v \<and> dl \<noteq> cl"
      if "v \<noteq> w" "co_workorders c v = Some (dl, st')" "\<not> is_terminal st'" for v dl st'
      using cancel.prems(3) [OF that(2,3)] k that(1) by auto
    moreover have "v \<noteq> w" if "(v, dl) \<in># co_running c" for v dl
      using cancel.prems(4) [OF that] p cancel.hyps(1) by auto
    ultimately show ?case
      using cancel.prems(4) by (auto simp: put_status_eq)
  next
    case (evict gone c)
    have "v \<notin> gone" if "(v, dl) \<in># co_running c" for v dl
      using evict.prems(4) [OF that] evict.hyps(1) in_flight_not_terminal by blast
    then show ?case
      using evict.prems(3,4) by (auto simp: restrict_map_def split: if_splits)
  next
    case (claim c w cl cl')
    then have "cl' = cl"
      using core_invD(3) [OF calm_invD(1) [OF claim.prems(2)]] by (auto simp: inv_picked_def)
    moreover have "v \<noteq> w" if "(v, dl) \<in># co_running c" for v dl
      using claim.prems(4) [OF that] claim.hyps(2) by (auto simp: in_flight_def)
    ultimately show ?case
      using claim.hyps claim.prems(3,4) by (auto simp: put_status_eq in_flight_def split: if_splits)
  next
    case (build w cl c)
    obtain st where b: "co_workorders c w = Some (cl, st)" "in_flight st"
      using build.prems(4) [OF build.hyps] by blast
    have k: "co_markers c cl = Some w" by (rule calm_marker [OF build.prems(2) build.hyps])
    have "dl = cl" if "(w, dl) \<in># co_running c" for dl
      using build.prems(4) [OF that] b by auto
    then show ?case
      using build.prems(3,4) b k by (auto simp: put_status_eq in_flight_def split: if_splits)
  next
    case (abandon w cl c)
    have "\<exists>st. co_workorders c v = Some (dl, st) \<and> in_flight st"
      if "(v, dl) \<in># co_running c - {#(w, cl)#}" for v dl
      by (rule abandon.prems(4) [OF in_diffD [OF that]])
    then show ?case using abandon.prems(3) by simp
  qed auto
  then show "calm_inv c'" using core by (simp add: calm_inv_def)
qed

lemma core_clean_inv: "core_clean c \<Longrightarrow> calm_inv c"
  by (auto simp: core_clean_def calm_inv_def core_started_inv) (auto simp: core_started_def)

interpretation calm_machine: invariant core_clean calm_step calm_inv
  by unfold_locales (auto simp: core_clean_inv intro: calm_step_inv)

end
