(* ===== verification/Server_Effects.thy ===== *)
theory Server_Effects
  imports Server_Api Lifecycle
begin

text \<open>
  What each part of the queue processor and each handler does to the fields that
  the machine of \<open>Lifecycle\<close> observes: the workorders, the clients, the channels,
  the permits, the configuration and the two gauges.
\<close>

named_theorems effect_simps

section \<open>The small operations\<close>

lemma send_effects [effect_simps]:
  "st_workorders (send e s) = st_workorders s" "st_clients (send e s) = st_clients s"
  "st_progress_txs (send e s) = st_progress_txs s" "st_raw_output_txs (send e s) = st_raw_output_txs s"
  "st_worker_permits (send e s) = st_worker_permits s" "st_config (send e s) = st_config s"
  "st_metrics (send e s) = st_metrics s"
  by (simp_all add: send_def)

text \<open>The new value of the workorder whose status is set.\<close>

definition stamped :: "timestamp \<Rightarrow> workorder_status \<Rightarrow> workorder \<Rightarrow> workorder" where
  "stamped now st wo = wo\<lparr> wo_status := st, wo_updated_at := now \<rparr>"

lemma stamped_simps [simp]:
  "wo_status (stamped now st wo) = st" "wo_id (stamped now st wo) = wo_id wo"
  "wo_client_id (stamped now st wo) = wo_client_id wo"
  by (simp_all add: stamped_def)

lemma set_workorder_status_effects [effect_simps]:
  "st_workorders (set_workorder_status io now w t st s) = hm_modify w (stamped now st) (st_workorders s)"
  "st_clients (set_workorder_status io now w t st s) = st_clients s"
  "st_progress_txs (set_workorder_status io now w t st s) = st_progress_txs s"
  "st_raw_output_txs (set_workorder_status io now w t st s) = st_raw_output_txs s"
  "st_worker_permits (set_workorder_status io now w t st s) = st_worker_permits s"
  "st_config (set_workorder_status io now w t st s) = st_config s"
  "st_metrics (set_workorder_status io now w t st s) = st_metrics s"
  by (simp_all add: set_workorder_status_def hm_modify_def stamped_def effect_simps Let_def split: option.split)

lemma build_ended_effects [effect_simps]:
  "st_workorders (build_ended n s) = st_workorders s" "st_clients (build_ended n s) = st_clients s"
  "st_progress_txs (build_ended n s) = st_progress_txs s" "st_raw_output_txs (build_ended n s) = st_raw_output_txs s"
  "st_worker_permits (build_ended n s) = st_worker_permits s" "st_config (build_ended n s) = st_config s"
  "m_queue_depth (st_metrics (build_ended n s)) = m_queue_depth (st_metrics s)"
  "m_builds_active (st_metrics (build_ended n s)) = m_builds_active (st_metrics s) - 1"
  by (simp_all add: build_ended_def)

lemma count_effects [effect_simps]:
  "st_workorders (count_failed s) = st_workorders s" "st_clients (count_failed s) = st_clients s"
  "st_progress_txs (count_failed s) = st_progress_txs s" "st_raw_output_txs (count_failed s) = st_raw_output_txs s"
  "st_worker_permits (count_failed s) = st_worker_permits s" "st_config (count_failed s) = st_config s"
  "m_queue_depth (st_metrics (count_failed s)) = m_queue_depth (st_metrics s)"
  "m_builds_active (st_metrics (count_failed s)) = m_builds_active (st_metrics s)"
  "st_workorders (count_completed s) = st_workorders s" "st_clients (count_completed s) = st_clients s"
  "st_progress_txs (count_completed s) = st_progress_txs s"
  "st_raw_output_txs (count_completed s) = st_raw_output_txs s"
  "st_worker_permits (count_completed s) = st_worker_permits s" "st_config (count_completed s) = st_config s"
  "m_queue_depth (st_metrics (count_completed s)) = m_queue_depth (st_metrics s)"
  "m_builds_active (st_metrics (count_completed s)) = m_builds_active (st_metrics s)"
  by (simp_all add: count_failed_def count_completed_def)

lemma insert_result_effects [effect_simps]:
  "st_workorders (insert_result w r s) = st_workorders s" "st_clients (insert_result w r s) = st_clients s"
  "st_progress_txs (insert_result w r s) = st_progress_txs s"
  "st_raw_output_txs (insert_result w r s) = st_raw_output_txs s"
  "st_worker_permits (insert_result w r s) = st_worker_permits s" "st_config (insert_result w r s) = st_config s"
  "st_metrics (insert_result w r s) = st_metrics s"
  by (simp_all add: insert_result_def)

lemma record_gauges [effect_simps]:
  "m_queue_depth (record_cleanup ok m) = m_queue_depth m"
  "m_builds_active (record_cleanup ok m) = m_builds_active m"
  "m_queue_depth (record_worker_image_build n m) = m_queue_depth m"
  "m_builds_active (record_worker_image_build n m) = m_builds_active m"
  "m_queue_depth (record_worker_container_start n m) = m_queue_depth m"
  "m_builds_active (record_worker_container_start n m) = m_builds_active m"
  "m_queue_depth (record_snapshot_runtime_stage n m) = m_queue_depth m"
  "m_builds_active (record_snapshot_runtime_stage n m) = m_builds_active m"
  "m_queue_depth (record_package_build a n m) = m_queue_depth m"
  "m_builds_active (record_package_build a n m) = m_builds_active m"
  by (simp_all add: record_cleanup_def record_worker_image_build_def record_worker_container_start_def
      record_snapshot_runtime_stage_def record_package_build_def Let_def split: option.split)

lemma cleanup_effects [effect_simps]:
  "st_workorders (cleanup_workorder_runtime io a wo w c s) = st_workorders s"
  "st_clients (cleanup_workorder_runtime io a wo w c s) = clear_active_workorder (wo_client_id wo) (st_clients s)"
  "st_progress_txs (cleanup_workorder_runtime io a wo w c s) = hm_remove w (st_progress_txs s)"
  "st_raw_output_txs (cleanup_workorder_runtime io a wo w c s) = hm_remove w (st_raw_output_txs s)"
  "st_worker_permits (cleanup_workorder_runtime io a wo w c s) = st_worker_permits s"
  "st_config (cleanup_workorder_runtime io a wo w c s) = st_config s"
  "m_queue_depth (st_metrics (cleanup_workorder_runtime io a wo w c s)) = m_queue_depth (st_metrics s)"
  "m_builds_active (st_metrics (cleanup_workorder_runtime io a wo w c s)) = m_builds_active (st_metrics s)"
  by (simp_all add: cleanup_workorder_runtime_def clear_staged_workorder_references_def
      remove_workorder_channels_def effect_simps Let_def split: option.split)

section \<open>The parts of a task\<close>

text \<open>The common shape of every way a task ends after its start: a settled status, the channels
  removed, the marker of the client cleared, one build less.\<close>

definition task_ended :: "timestamp \<Rightarrow> workorder \<Rightarrow> workorder_status \<Rightarrow> app_state \<Rightarrow> app_state \<Rightarrow> bool" where
  "task_ended now wo st s s' \<longleftrightarrow> settled st
     \<and> st_workorders s' = hm_modify (wo_id wo) (stamped now st) (st_workorders s)
     \<and> st_clients s' = clear_active_workorder (wo_client_id wo) (st_clients s)
     \<and> map_of (st_progress_txs s') = (map_of (st_progress_txs s))(wo_id wo := None)
     \<and> map_of (st_raw_output_txs s') = (map_of (st_raw_output_txs s))(wo_id wo := None)
     \<and> st_worker_permits s' = st_worker_permits s \<and> st_config s' = st_config s
     \<and> m_queue_depth (st_metrics s') = m_queue_depth (st_metrics s)
     \<and> m_builds_active (st_metrics s') = m_builds_active (st_metrics s) - 1"

text \<open>A part that only goes on: at most the status of the workorder becomes \<open>Building\<close>.\<close>

definition task_went_on :: "timestamp \<Rightarrow> workorder \<Rightarrow> u64 \<Rightarrow> app_state \<Rightarrow> app_state \<Rightarrow> bool" where
  "task_went_on now wo started s s' \<longleftrightarrow>
     (st_workorders s' = st_workorders s
       \<or> st_workorders s' = hm_modify (wo_id wo) (stamped now Building) (st_workorders s))
     \<and> st_clients s' = st_clients s
     \<and> st_progress_txs s' = st_progress_txs s \<and> st_raw_output_txs s' = st_raw_output_txs s
     \<and> st_worker_permits s' = st_worker_permits s \<and> st_config s' = st_config s
     \<and> m_queue_depth (st_metrics s') = m_queue_depth (st_metrics s)
     \<and> m_builds_active (st_metrics s') = m_builds_active (st_metrics s) + started"

lemma fail_before_start_ended: "task_ended now wo (Failed reason) s (fail_before_start io a now wo reason n s)"
  by (simp add: task_ended_def fail_before_start_def effect_simps Let_def)

lemma fail_ingest_ended: "task_ended now wo (Failed reason) s (fail_ingest io a now wo reason p c n s)"
  by (simp add: task_ended_def fail_ingest_def effect_simps Let_def)

lemma drain_event_effects:
  "st_workorders (snd (snd (drain_event now wo e acc))) = st_workorders (snd (snd acc))"
  "st_clients (snd (snd (drain_event now wo e acc))) = st_clients (snd (snd acc))"
  "st_progress_txs (snd (snd (drain_event now wo e acc))) = st_progress_txs (snd (snd acc))"
  "st_raw_output_txs (snd (snd (drain_event now wo e acc))) = st_raw_output_txs (snd (snd acc))"
  "st_worker_permits (snd (snd (drain_event now wo e acc))) = st_worker_permits (snd (snd acc))"
  "st_config (snd (snd (drain_event now wo e acc))) = st_config (snd (snd acc))"
  "m_queue_depth (st_metrics (snd (snd (drain_event now wo e acc)))) = m_queue_depth (st_metrics (snd (snd acc)))"
  "m_builds_active (st_metrics (snd (snd (drain_event now wo e acc)))) = m_builds_active (st_metrics (snd (snd acc)))"
  by (simp_all add: drain_event_def effect_simps Let_def split: prod.split worker_event.split)

lemma fold_drain_effects:
  "st_workorders (snd (snd (fold (drain_event now wo) es acc))) = st_workorders (snd (snd acc))"
  "st_clients (snd (snd (fold (drain_event now wo) es acc))) = st_clients (snd (snd acc))"
  "st_progress_txs (snd (snd (fold (drain_event now wo) es acc))) = st_progress_txs (snd (snd acc))"
  "st_raw_output_txs (snd (snd (fold (drain_event now wo) es acc))) = st_raw_output_txs (snd (snd acc))"
  "st_worker_permits (snd (snd (fold (drain_event now wo) es acc))) = st_worker_permits (snd (snd acc))"
  "st_config (snd (snd (fold (drain_event now wo) es acc))) = st_config (snd (snd acc))"
  "m_queue_depth (st_metrics (snd (snd (fold (drain_event now wo) es acc)))) = m_queue_depth (st_metrics (snd (snd acc)))"
  "m_builds_active (st_metrics (snd (snd (fold (drain_event now wo) es acc)))) = m_builds_active (st_metrics (snd (snd acc)))"
  by (induction es arbitrary: acc) (simp_all add: drain_event_effects)

text \<open>The states that agree on what the machine observes.\<close>

definition same_view :: "app_state \<Rightarrow> app_state \<Rightarrow> bool" where
  "same_view s s' \<longleftrightarrow> st_workorders s' = st_workorders s \<and> st_clients s' = st_clients s
     \<and> st_progress_txs s' = st_progress_txs s \<and> st_raw_output_txs s' = st_raw_output_txs s
     \<and> st_worker_permits s' = st_worker_permits s \<and> st_config s' = st_config s
     \<and> m_queue_depth (st_metrics s') = m_queue_depth (st_metrics s)
     \<and> m_builds_active (st_metrics s') = m_builds_active (st_metrics s)"

lemma drain_events_view:
  "drain_events now wo es s = (b, f, s') \<Longrightarrow> same_view s s'"
  using fold_drain_effects [of now wo es "([], [], s)"]
  by (simp add: drain_events_def same_view_def)

lemma finish_success_effects [effect_simps]:
  "st_workorders (finish_success io now wo b f x y d p s) = hm_modify (wo_id wo) (stamped now Completed) (st_workorders s)"
  "st_clients (finish_success io now wo b f x y d p s) = st_clients s"
  "st_progress_txs (finish_success io now wo b f x y d p s) = st_progress_txs s"
  "st_raw_output_txs (finish_success io now wo b f x y d p s) = st_raw_output_txs s"
  "st_worker_permits (finish_success io now wo b f x y d p s) = st_worker_permits s"
  "st_config (finish_success io now wo b f x y d p s) = st_config s"
  "m_queue_depth (st_metrics (finish_success io now wo b f x y d p s)) = m_queue_depth (st_metrics s)"
  "m_builds_active (st_metrics (finish_success io now wo b f x y d p s)) = m_builds_active (st_metrics s)"
  by (cases x; cases y; simp add: finish_success_def effect_simps Let_def)+

lemma finish_failure_effects [effect_simps]:
  "st_workorders (finish_failure io now wo b f r d p s) = hm_modify (wo_id wo) (stamped now (Failed r)) (st_workorders s)"
  "st_clients (finish_failure io now wo b f r d p s) = st_clients s"
  "st_progress_txs (finish_failure io now wo b f r d p s) = st_progress_txs s"
  "st_raw_output_txs (finish_failure io now wo b f r d p s) = st_raw_output_txs s"
  "st_worker_permits (finish_failure io now wo b f r d p s) = st_worker_permits s"
  "st_config (finish_failure io now wo b f r d p s) = st_config s"
  "m_queue_depth (st_metrics (finish_failure io now wo b f r d p s)) = m_queue_depth (st_metrics s)"
  "m_builds_active (st_metrics (finish_failure io now wo b f r d p s)) = m_builds_active (st_metrics s)"
  by (simp_all add: finish_failure_def effect_simps Let_def)

lemma task_ended_view:
  assumes "same_view s s1" "task_ended now wo st s1 s'"
  shows "task_ended now wo st s s'"
  using assms by (simp add: same_view_def task_ended_def)

lemma stop_on_timeout_view: "same_view s (stop_on_timeout r c s)"
  by (simp add: stop_on_timeout_def same_view_def)

text \<open>Closing the raw channel first does not matter for a task that ends.\<close>

lemma task_ended_raw:
  assumes "task_ended now wo st (s\<lparr> st_raw_output_txs := hm_remove (wo_id wo) (st_raw_output_txs s) \<rparr>) s'"
  shows "task_ended now wo st s s'"
  using assms by (simp add: task_ended_def)

lemma store_view: "same_view s (s\<lparr> st_store := store \<rparr>)"
  by (simp add: same_view_def)

lemma process_finish_ended: "\<exists>st. task_ended now wo st s (process_finish io a now wo c inp s)"
proof -
  define s1 where "s1 = stop_on_timeout (fi_wait inp) c s"
  define s2 where "s2 = s1\<lparr> st_raw_output_txs := hm_remove (wo_id wo) (st_raw_output_txs s1) \<rparr>"
  define dir where "dir = runtime_dir (io_runtime io) (wo_id wo)"
  obtain b f s3 where d: "drain_events now wo (fi_events inp) s2 = (b, f, s3)" by (metis prod_cases3)
  note finish = process_finish_def Let_def s1_def [symmetric] s2_def [symmetric] dir_def [symmetric] d
  obtain rp p1 where p: "ingest_final_state_parity (io_runtime io) now dir (st_store s3) = (rp, p1)" by fastforce
  obtain rd p2 where q: "ingest_fetched_distfiles (io_runtime io) now dir p1 = (rd, p2)" by fastforce
  have "\<exists>st store. task_ended now wo st (s3\<lparr> st_store := store \<rparr>) (process_finish io a now wo c inp s)"
  proof (cases rp)
    case (Inl e)
    then show ?thesis using p by (simp add: finish) (intro exI, rule fail_ingest_ended)
  next
    case (Inr pm)
    show ?thesis
    proof (cases rd)
      case (Inl e)
      then show ?thesis using p q Inr by (simp add: finish \<open>rp = Inr pm\<close>) (intro exI, rule fail_ingest_ended)
    next
      case (Inr ds)
      have "\<exists>st. task_ended now wo st (s3\<lparr> st_store := p2 \<rparr>) (process_finish io a now wo c inp s)"
        using p q \<open>rp = Inr pm\<close> Inr
        by (auto simp: finish task_ended_def effect_simps split: sum.split; intro exI conjI; (rule refl | simp))
      then show ?thesis by blast
    qed
  qed
  then have "\<exists>st. task_ended now wo st s3 (process_finish io a now wo c inp s)"
    using task_ended_view [OF store_view] by blast
  then show ?thesis
    using task_ended_view [OF drain_events_view [OF d]] task_ended_raw task_ended_view [OF stop_on_timeout_view]
    unfolding s2_def s1_def by blast
qed

lemma snapshot_cleanup_view: "same_view s (snapshot_cleanup io now s)"
  by (simp add: snapshot_cleanup_def same_view_def record_cleanup_reclaimed_bytes_def Let_def split: prod.split sum.split)

lemma snapshot_cleanup_effects [effect_simps]:
  "st_workorders (snapshot_cleanup io now s) = st_workorders s" "st_config (snapshot_cleanup io now s) = st_config s"
  using snapshot_cleanup_view [of s io now] by (simp_all add: same_view_def)

lemma process_begin_effects:
  "process_begin wo s = (True, s') \<Longrightarrow> task_went_on now wo 1 s s' \<and> map_of (st_progress_txs s) (wo_id wo) \<noteq> None"
  "process_begin wo s = (False, s') \<Longrightarrow> same_view s s' \<and> map_of (st_progress_txs s) (wo_id wo) = None"
  by (auto simp: process_begin_def task_went_on_def same_view_def Let_def split: if_splits)

lemma process_image_effects:
  "process_image io a now wo tag nr r i n s = (True, s') \<Longrightarrow> task_went_on now wo 0 s s'"
  "process_image io a now wo tag nr r i n s = (False, s') \<Longrightarrow> \<exists>st. task_ended now wo st s s'"
proof -
  define s1 where "s1 = (if nr then s\<lparr> st_metrics := record_worker_image_build i (st_metrics s) \<rparr> else s)"
  have v: "same_view s s1" by (simp add: s1_def same_view_def effect_simps)
  {
    assume "process_image io a now wo tag nr r i n s = (True, s')"
    then have "s' = set_workorder_status io now (wo_id wo) (workorder_trace_id wo) Building
        (s1\<lparr> st_image_last_used := hm_insert tag now (st_image_last_used s1) \<rparr>)"
      by (auto simp: process_image_def s1_def Let_def split: sum.splits if_splits)
    then show "task_went_on now wo 0 s s'"
      using v by (simp add: task_went_on_def same_view_def effect_simps)
  next
    assume "process_image io a now wo tag nr r i n s = (False, s')"
    then obtain e where "s' = fail_before_start io a now wo (''Failed to build worker image: '' @ e) n s1"
      by (auto simp: process_image_def s1_def Let_def split: sum.splits if_splits)
    then show "\<exists>st. task_ended now wo st s s'"
      using task_ended_view [OF v fail_before_start_ended] by blast
  }
qed

lemma process_stage_effects:
  "process_stage io a now wo n s = (True, s') \<Longrightarrow> task_went_on now wo 0 s s'"
  "process_stage io a now wo n s = (False, s') \<Longrightarrow> \<exists>st. task_ended now wo st s s'"
proof -
  obtain r store where r: "stage_workorder_runtime (io_runtime io) now wo (st_store s) = (r, store)" by fastforce
  {
    assume "process_stage io a now wo n s = (True, s')"
    then show "task_went_on now wo 0 s s'"
      using r by (auto simp: process_stage_def Let_def task_went_on_def track_staged_workorder_references_def
          effect_simps split: sum.splits)
  next
    assume "process_stage io a now wo n s = (False, s')"
    then obtain e where "s' = fail_before_start io a now wo (''Failed to stage worker runtime: '' @ e) n (s\<lparr> st_store := store \<rparr>)"
      using r by (auto simp: process_stage_def Let_def split: sum.splits)
    then show "\<exists>st. task_ended now wo st s s'"
      using task_ended_view [OF store_view fail_before_start_ended] by blast
  }
qed

lemma process_start_effects:
  "process_start io a now wo r i n s = (Started cid, s') \<Longrightarrow> task_went_on now wo 0 s s'"
  "process_start io a now wo r i n s = (StartFailed, s') \<Longrightarrow> \<exists>st. task_ended now wo st s s'"
  "process_start io a now wo r i n s = (StartPanicked, s') \<Longrightarrow> same_view s s' \<and> map_of (st_raw_output_txs s) (wo_id wo) = None"
proof -
  define s1 where "s1 = s\<lparr> st_metrics := record_worker_container_start i (st_metrics s) \<rparr>"
  have v: "same_view s s1" by (simp add: s1_def same_view_def effect_simps)
  {
    assume "process_start io a now wo r i n s = (Started cid, s')"
    then show "task_went_on now wo 0 s s'"
      by (auto simp: process_start_def Let_def task_went_on_def create_stdin_channel_def
          effect_simps split: sum.splits if_splits)
  next
    assume "process_start io a now wo r i n s = (StartFailed, s')"
    then obtain e where "s' = fail_before_start io a now wo (''Failed to start worker: '' @ e) n s1"
      by (auto simp: process_start_def s1_def Let_def split: sum.splits if_splits)
    then show "\<exists>st. task_ended now wo st s s'"
      using task_ended_view [OF v fail_before_start_ended] by blast
  next
    assume "process_start io a now wo r i n s = (StartPanicked, s')"
    then show "same_view s s' \<and> map_of (st_raw_output_txs s) (wo_id wo) = None"
      by (auto simp: process_start_def Let_def same_view_def effect_simps split: sum.splits if_splits)
  }
qed

section \<open>The handlers\<close>

lemma submit_refused:
  "submit_workorder env w now ctx headers req s = (Inl e, s') \<Longrightarrow> \<exists>store. s' = s\<lparr> st_store := store \<rparr>"
proof -
  assume "submit_workorder env w now ctx headers req s = (Inl e, s')"
  then have "s' = s\<lparr> st_store := st_store s' \<rparr>"
    by (cases s) (auto simp: submit_workorder_def Let_def split: sum.splits if_splits prod.splits
        dest: registry_update_Inl)
  then show ?thesis by blast
qed

text \<open>What an accepted submission is and does.\<close>

lemma submit_accepted:
  assumes "submit_workorder env w now ctx headers req s = (Inr r, s')"
  obtains identity cfg store diff clients wo where
    "validate_atoms (sr_atoms req) = Inr ()"
    "resolve (st_auth s) headers (sr_client_id req) (sr_role req) = Inr identity"
    "normalize_portage_config_snapshots (re_store (io_runtime (sv_io env))) now (sr_portage_config req) (st_store s)
       = (Inr cfg, store)" "\<not> at_capacity s"
    "registry_update (sv_hash env) now (ri_client_id identity) (ri_role identity)
        (sr_portage_config req) (sr_system_id req) (st_clients s) = (Inr diff, clients)"
    "wo = new_workorder w now identity (resolve_request_trace_context ctx headers) cfg req"
    "s' = save_submission (sv_io env) (enqueue wo (s\<lparr> st_store := store, st_clients := clients \<rparr>))"
  using assms
  by (auto simp: submit_workorder_def at_capacity_def Let_def split: sum.splits if_splits prod.splits)

lemma save_submission_effects [effect_simps]:
  "st_workorders (save_submission io s) = st_workorders s" "st_clients (save_submission io s) = st_clients s"
  "st_progress_txs (save_submission io s) = st_progress_txs s"
  "st_raw_output_txs (save_submission io s) = st_raw_output_txs s"
  "st_worker_permits (save_submission io s) = st_worker_permits s"
  "st_config (save_submission io s) = st_config s" "st_metrics (save_submission io s) = st_metrics s"
  "st_auth (save_submission io s) = st_auth s"
  by (simp_all add: save_submission_def)

lemma enqueue_effects [effect_simps]:
  "st_workorders (enqueue wo s) = hm_insert (wo_id wo) wo (st_workorders s)"
  "st_clients (enqueue wo s) = set_active_workorder (wo_client_id wo) (wo_id wo) (st_clients s)"
  "st_progress_txs (enqueue wo s) = hm_insert (wo_id wo) () (st_progress_txs s)"
  "st_raw_output_txs (enqueue wo s) = hm_insert (wo_id wo) () (st_raw_output_txs s)"
  "st_worker_permits (enqueue wo s) = st_worker_permits s" "st_config (enqueue wo s) = st_config s"
  "m_queue_depth (st_metrics (enqueue wo s)) = m_queue_depth (st_metrics s) + 1"
  "m_builds_active (st_metrics (enqueue wo s)) = m_builds_active (st_metrics s)"
  "st_auth (enqueue wo s) = st_auth s"
  by (simp_all add: enqueue_def create_progress_channel_def Let_def)

lemma apply_cancel_effects [effect_simps]:
  "st_workorders (apply_cancel now w wo s) = hm_insert w (wo\<lparr> wo_status := Cancelled \<rparr>) (st_workorders s)"
  "st_clients (apply_cancel now w wo s) = clear_active_workorder (wo_client_id wo) (st_clients s)"
  "st_progress_txs (apply_cancel now w wo s) = st_progress_txs s"
  "st_raw_output_txs (apply_cancel now w wo s) = st_raw_output_txs s"
  "st_worker_permits (apply_cancel now w wo s) = st_worker_permits s"
  "st_config (apply_cancel now w wo s) = st_config s"
  "m_queue_depth (st_metrics (apply_cancel now w wo s)) =
     m_queue_depth (st_metrics s) - (if wo_status wo = Pending then 1 else 0)"
  "m_builds_active (st_metrics (apply_cancel now w wo s)) = m_builds_active (st_metrics s)"
  by (simp_all add: apply_cancel_def effect_simps Let_def split: option.split)

lemma cancel_cases:
  assumes "cancel_workorder now headers w s = (r, s')"
  obtains "s' = s"
  | wo where "map_of (st_workorders s) w = Some wo" "is_active wo" "s' = apply_cancel now w wo s"
      "authorize_cancel headers w s = Inr ()"
  using assms by (auto simp: cancel_workorder_def Let_def split: sum.splits option.splits if_splits)

lemma claim_effects:
  assumes "claim now wo s = (True, s')"
  obtains v where "map_of (st_workorders s) (wo_id wo) = Some v" "wo_status v = Pending"
    "st_workorders s' = hm_insert (wo_id wo) (stamped now Provisioning v) (st_workorders s)"
    "st_clients s' = st_clients s" "st_progress_txs s' = st_progress_txs s"
    "st_raw_output_txs s' = st_raw_output_txs s" "st_worker_permits s' = st_worker_permits s"
    "st_config s' = st_config s" "m_queue_depth (st_metrics s') = m_queue_depth (st_metrics s) - 1"
    "m_builds_active (st_metrics s') = m_builds_active (st_metrics s)"
  using assms
  by (auto simp: claim_def stamped_def effect_simps Let_def split: option.splits if_splits)

lemma claim_refused: "claim now wo s = (False, s') \<Longrightarrow> s' = s"
  by (auto simp: claim_def Let_def split: option.splits if_splits)

lemma evict_effects [effect_simps]:
  "st_clients (snd (evict_workorders now s)) = st_clients s"
  "st_worker_permits (snd (evict_workorders now s)) = st_worker_permits s"
  "st_config (snd (evict_workorders now s)) = st_config s"
  "st_metrics (snd (evict_workorders now s)) = st_metrics s"
  by (simp_all add: evict_workorders_def Let_def fold_evict_fields)

end
