(* ===== verification/Server_System.thy ===== *)
theory Server_System
  imports Server_Effects
begin

text \<open>
  The running server: the shared state, the queue loop and its tasks.  A step is
  one handler, one part of the queue loop or one part of a task; any interleaving
  of them is a run, and a restart may come at any time.  Handlers are taken as
  atomic; the queue and the tasks are cut where they wait for each other, for
  Docker or for the file system.  The system implements the machine of
  \<open>Lifecycle\<close>, whose invariants carry over to it.
\<close>

section \<open>Configurations\<close>

datatype task_pc = TBegin | TImage | TStage | TStart | TWait string

datatype queue_pc = QIdle | QPicked workorder | QClaimed workorder

text \<open>The two counters at the end record history: tasks that died at the \<open>expect\<close>, and the
  pending workorders that were loaded at the start.\<close>

record world =
  wd_state :: app_state
  wd_queue :: queue_pc
  wd_tasks :: "(workorder \<times> task_pc) list"
  wd_crashed :: nat
  wd_requeued :: nat

text \<open>What a part of a task reads from outside.\<close>

record task_input =
  ti_now :: timestamp
  ti_cleanup :: cleanup_answer
  ti_image_tag :: string
  ti_needs_rebuild :: bool
  ti_image_result :: "string + unit"
  ti_image_secs :: u64
  ti_start_result :: "string + string"
  ti_start_secs :: u64
  ti_secs :: u64
  ti_finish :: finish_input

datatype task_outcome = Goes task_pc | Ends | Panics

definition task_step ::
    "io_env \<Rightarrow> task_input \<Rightarrow> workorder \<Rightarrow> task_pc \<Rightarrow> app_state \<Rightarrow> task_outcome \<times> app_state" where
  "task_step io inp wo pc s =
     (case pc of
        TBegin \<Rightarrow> (case process_begin wo s of (go, s') \<Rightarrow> (if go then Goes TImage else Ends, s'))
      | TImage \<Rightarrow>
          (case process_image io (ti_cleanup inp) (ti_now inp) wo (ti_image_tag inp)
                  (ti_needs_rebuild inp) (ti_image_result inp) (ti_image_secs inp) (ti_secs inp) s of
             (go, s') \<Rightarrow> (if go then Goes TStage else Ends, s'))
      | TStage \<Rightarrow>
          (case process_stage io (ti_cleanup inp) (ti_now inp) wo (ti_secs inp) s of
             (go, s') \<Rightarrow> (if go then Goes TStart else Ends, s'))
      | TStart \<Rightarrow>
          (case process_start io (ti_cleanup inp) (ti_now inp) wo (ti_start_result inp)
                  (ti_start_secs inp) (ti_secs inp) s of
             (StartFailed, s') \<Rightarrow> (Ends, s')
           | (StartPanicked, s') \<Rightarrow> (Panics, s')
           | (Started c, s') \<Rightarrow> (Goes (TWait c), s'))
      | TWait c \<Rightarrow> (Ends, process_finish io (ti_cleanup inp) (ti_now inp) wo c (ti_finish inp) s))"

definition acquire_permit :: "app_state \<Rightarrow> app_state" where
  "acquire_permit s = s\<lparr> st_worker_permits := st_worker_permits s - 1 \<rparr>"

definition release_permit :: "app_state \<Rightarrow> app_state" where
  "release_permit s = s\<lparr> st_worker_permits := st_worker_permits s + 1 \<rparr>"

definition pending_count :: "app_state \<Rightarrow> nat" where
  "pending_count s = length (filter (\<lambda>p. wo_status (snd p) = Pending) (st_workorders s))"

text \<open>The identifiers a new submission does not draw: those known to the server.\<close>

fun queue_workorder :: "queue_pc \<Rightarrow> workorder option" where
  "queue_workorder QIdle = None"
| "queue_workorder (QPicked wo) = Some wo"
| "queue_workorder (QClaimed wo) = Some wo"

definition fresh_id :: "workorder_id \<Rightarrow> world \<Rightarrow> bool" where
  "fresh_id w wd \<longleftrightarrow> map_of (st_workorders (wd_state wd)) w = None
     \<and> w \<notin> set (map (\<lambda>t. wo_id (fst t)) (wd_tasks wd))
     \<and> (case queue_workorder (wd_queue wd) of Some wo \<Rightarrow> wo_id wo \<noteq> w | None \<Rightarrow> True)"

definition boot ::
    "submit_env \<Rightarrow> (string \<Rightarrow> string option) \<Rightarrow> server_config \<Rightarrow> exported_signing_key option
     \<Rightarrow> timestamp \<Rightarrow> state_files \<Rightarrow> binpkg_dir \<Rightarrow> fs \<Rightarrow> world" where
  "boot env parse_header_name config key now files binpkgs store =
     (let s = app_state_new (io_codec (sv_io env)) parse_header_name config key now files binpkgs store
      in \<lparr> wd_state = s, wd_queue = QIdle, wd_tasks = [], wd_crashed = 0, wd_requeued = pending_count s \<rparr>)"

section \<open>Steps\<close>

inductive run_step :: "submit_env \<Rightarrow> world \<Rightarrow> world \<Rightarrow> bool" for env where
  submit: "fresh_id w wd \<Longrightarrow>
    run_step env wd (wd\<lparr> wd_state := snd (submit_workorder env w now ctx headers req (wd_state wd)) \<rparr>)"
| cancel: "run_step env wd (wd\<lparr> wd_state := snd (cancel_workorder now headers w (wd_state wd)) \<rparr>)"
| evict: "run_step env wd (wd\<lparr> wd_state := snd (evict_workorders now (wd_state wd)) \<rparr>)"
| save: "run_step env wd
    (wd\<lparr> wd_state := periodic_save (io_codec (sv_io env)) (io_unique (sv_io env)) (wd_state wd) \<rparr>)"
| worker_writes: "run_step env wd (wd\<lparr> wd_state := (wd_state wd)\<lparr> st_binpkgs := d \<rparr> \<rparr>)"
| worker_output: "outside_store (st_store (wd_state wd)) store \<Longrightarrow>
    run_step env wd (wd\<lparr> wd_state := (wd_state wd)\<lparr> st_store := store \<rparr> \<rparr>)"
| upload: "run_step env wd (wd\<lparr> wd_state := (wd_state wd)\<lparr> st_store := snd (store_blob_for_digest
      (re_store (io_runtime (sv_io env))) now digest bytes (st_store (wd_state wd))) \<rparr> \<rparr>)"
| snapshot_cleanup: "run_step env wd (wd\<lparr> wd_state := snapshot_cleanup (sv_io env) now (wd_state wd) \<rparr>)"
| poll: "wd_queue wd = QIdle \<Longrightarrow> next_pending (wd_state wd) = Some wo \<Longrightarrow>
    run_step env wd (wd\<lparr> wd_queue := QPicked wo \<rparr>)"
| claimed: "wd_queue wd = QPicked wo \<Longrightarrow> claim now wo (wd_state wd) = (True, s') \<Longrightarrow>
    run_step env wd (wd\<lparr> wd_state := s', wd_queue := QClaimed wo \<rparr>)"
| not_claimed: "wd_queue wd = QPicked wo \<Longrightarrow> claim now wo (wd_state wd) = (False, s') \<Longrightarrow>
    run_step env wd (wd\<lparr> wd_state := s', wd_queue := QIdle \<rparr>)"
| spawn: "wd_queue wd = QClaimed wo \<Longrightarrow> 0 < st_worker_permits (wd_state wd) \<Longrightarrow>
    run_step env wd (wd\<lparr> wd_state := acquire_permit (wd_state wd), wd_queue := QIdle,
      wd_tasks := (wo, TBegin) # wd_tasks wd \<rparr>)"
| task_goes: "wd_tasks wd = ts @ (wo, pc) # ts' \<Longrightarrow>
    task_step (sv_io env) inp wo pc (wd_state wd) = (Goes pc', s') \<Longrightarrow>
    run_step env wd (wd\<lparr> wd_state := s', wd_tasks := ts @ (wo, pc') # ts' \<rparr>)"
| task_ends: "wd_tasks wd = ts @ (wo, pc) # ts' \<Longrightarrow>
    task_step (sv_io env) inp wo pc (wd_state wd) = (Ends, s') \<Longrightarrow>
    run_step env wd (wd\<lparr> wd_state := release_permit s', wd_tasks := ts @ ts' \<rparr>)"
| task_panics: "wd_tasks wd = ts @ (wo, pc) # ts' \<Longrightarrow>
    task_step (sv_io env) inp wo pc (wd_state wd) = (Panics, s') \<Longrightarrow>
    run_step env wd (wd\<lparr> wd_state := release_permit s', wd_tasks := ts @ ts',
      wd_crashed := wd_crashed wd + 1 \<rparr>)"

text \<open>A start reads a file in which each workorder stands once, under its own identifier, as the
  server writes it.\<close>

definition sane_files :: "json_codec \<Rightarrow> state_files \<Rightarrow> bool" where
  "sane_files j files =
     (case map_of files ''workorders.json'' of
        None \<Rightarrow> True
      | Some json \<Rightarrow>
          (case dec_workorders j json of
             None \<Rightarrow> True
           | Some ws \<Rightarrow> hm_wf ws \<and> (\<forall>p\<in>set ws. wo_id (snd p) = fst p)))"

inductive started :: "submit_env \<Rightarrow> world \<Rightarrow> bool" for env where
  started: "sane_files (io_codec (sv_io env)) files \<Longrightarrow>
    started env (boot env parse_header_name config key now files binpkgs store)"

inductive step :: "submit_env \<Rightarrow> world \<Rightarrow> world \<Rightarrow> bool" for env where
  running: "run_step env wd wd' \<Longrightarrow> step env wd wd'"
| restart: "sane_files (io_codec (sv_io env)) (st_files (wd_state wd)) \<Longrightarrow>
    step env wd (boot env parse_header_name config key now
      (st_files (wd_state wd)) (st_binpkgs (wd_state wd)) (st_store (wd_state wd)))"

inductive_cases run_stepE: "run_step env wd wd'"

section \<open>The abstraction\<close>

definition status_map :: "app_state \<Rightarrow> workorder_id \<rightharpoonup> client_id \<times> workorder_status" where
  "status_map s w = map_option (\<lambda>wo. (wo_client_id wo, wo_status wo)) (map_of (st_workorders s) w)"

definition wo_key :: "workorder \<Rightarrow> workorder_id \<times> client_id" where
  "wo_key wo = (wo_id wo, wo_client_id wo)"

fun picked_of :: "queue_pc \<Rightarrow> (workorder_id \<times> client_id) option" where
  "picked_of (QPicked wo) = Some (wo_key wo)"
| "picked_of _ = None"

fun claimed_of :: "queue_pc \<Rightarrow> (workorder_id \<times> client_id) multiset" where
  "claimed_of (QClaimed wo) = {#wo_key wo#}"
| "claimed_of _ = {#}"

definition core_of :: "world \<Rightarrow> core" where
  "core_of wd =
     \<lparr> co_workorders = status_map (wd_state wd),
       co_markers = active_workorder (st_clients (wd_state wd)),
       co_progress = dom (map_of (st_progress_txs (wd_state wd))),
       co_raw = dom (map_of (st_raw_output_txs (wd_state wd))),
       co_picked = picked_of (wd_queue wd),
       co_running = claimed_of (wd_queue wd) + image_mset (\<lambda>t. wo_key (fst t)) (mset (wd_tasks wd)) \<rparr>"

text \<open>The concrete invariant: well-formed maps, every workorder under its own identifier.\<close>

definition world_wf :: "world \<Rightarrow> bool" where
  "world_wf wd \<longleftrightarrow> hm_wf (st_workorders (wd_state wd))
     \<and> (\<forall>w wo. map_of (st_workorders (wd_state wd)) w = Some wo \<longrightarrow> wo_id wo = w)"

section \<open>The system implements the machine\<close>

lemma status_map_modify:
  "status_map (s\<lparr> st_workorders := hm_modify w (stamped now st) ws \<rparr>) =
     put_status w st (status_map (s\<lparr> st_workorders := ws \<rparr>))"
  by (auto simp: status_map_def put_status_def fun_eq_iff option.map_comp o_def)

lemma status_map_cong: "st_workorders s = st_workorders s' \<Longrightarrow> status_map s = status_map s'"
  by (simp add: status_map_def fun_eq_iff)

lemma status_map_stamped:
  "st_workorders s' = hm_modify w (stamped now st) (st_workorders s) \<Longrightarrow>
     status_map s' = put_status w st (status_map s)"
  by (auto simp: status_map_def put_status_def fun_eq_iff option.map_comp o_def)

lemma min_by_created_at_in: "min_by_created_at ws = Some w \<Longrightarrow> w \<in> set ws"
  by (induction ws arbitrary: w) (auto split: option.splits if_splits)

lemma min_by_created_at_min:
  "min_by_created_at ws = Some w \<Longrightarrow> v \<in> set ws \<Longrightarrow> wo_created_at w \<le> wo_created_at v"
proof (induction ws arbitrary: w)
  case (Cons u us)
  show ?case
  proof (cases "min_by_created_at us")
    case None
    then have "us = []" by (cases us) (auto split: option.splits if_splits)
    then show ?thesis using Cons.prems by simp
  next
    case (Some x)
    then show ?thesis
      using Cons.prems Cons.IH [OF Some] by (auto split: if_splits)
  qed
qed simp

lemma min_by_created_at_None: "min_by_created_at ws = None \<longleftrightarrow> ws = []"
  by (cases ws) (auto split: option.split)

lemma next_pending_lookup:
  assumes "world_wf wd" "next_pending (wd_state wd) = Some wo"
  shows "map_of (st_workorders (wd_state wd)) (wo_id wo) = Some wo" "wo_status wo = Pending"
proof -
  from assms(2) obtain k where k: "(k, wo) \<in> set (st_workorders (wd_state wd))"
    and p: "wo_status wo = Pending"
    by (auto simp: next_pending_def dest!: min_by_created_at_in)
  from k assms(1) have "map_of (st_workorders (wd_state wd)) k = Some wo"
    by (simp add: world_wf_def hm_wf_in_set)
  moreover from this assms(1) have "wo_id wo = k" by (simp add: world_wf_def)
  ultimately show "map_of (st_workorders (wd_state wd)) (wo_id wo) = Some wo" by simp
  show "wo_status wo = Pending" by (rule p)
qed

lemma key_lookup: "k \<in> fst ` set m \<Longrightarrow> \<exists>v. map_of m k = Some v"
  by (metis map_of_eq_None_iff not_None_eq)

lemma evict_gone:
  assumes "hm_wf (st_workorders s)"
  obtains gone where
    "\<forall>w\<in>gone. \<exists>wo. map_of (st_workorders s) w = Some wo \<and> is_terminal (wo_status wo)"
    "map_of (st_workorders (snd (evict_workorders now s))) = map_of (st_workorders s) |` (- gone)"
    "map_of (st_progress_txs (snd (evict_workorders now s))) = map_of (st_progress_txs s) |` (- gone)"
    "map_of (st_raw_output_txs (snd (evict_workorders now s))) = map_of (st_raw_output_txs s) |` (- gone)"
    "hm_wf (st_workorders (snd (evict_workorders now s)))"
proof -
  define stale where "stale = stale_ids (now - duration_hours (as_i64 (sc_retention_hours (st_config s)))) (st_workorders s)"
  define s1 where "s1 = fold evict_workorder stale s"
  define over where "over = excess_ids (sc_max_retained_workorders (st_config s)) (st_workorders s1)"
  have s': "snd (evict_workorders now s) = fold evict_workorder over s1"
    unfolding evict_workorders_def stale_def s1_def over_def Let_def
    by (simp only: fold_evict_fields snd_conv)
  have w1: "hm_wf (st_workorders s1)"
    unfolding s1_def fold_evict_fields by (rule hm_wf_filter [OF assms])
  have t1: "\<exists>wo. map_of (st_workorders s) w = Some wo \<and> is_terminal (wo_status wo)" if i: "w \<in> set stale" for w
  proof -
    obtain wo where wo: "map_of (st_workorders s) w = Some wo"
      using key_lookup [OF subsetD [OF stale_ids_keys i [unfolded stale_def]]] ..
    then show ?thesis
      using stale_idsD [OF assms wo i [unfolded stale_def]] by simp
  qed
  have t2: "\<exists>wo. map_of (st_workorders s) w = Some wo \<and> is_terminal (wo_status wo)" if i: "w \<in> set over" for w
  proof -
    obtain wo where wo: "map_of (st_workorders s1) w = Some wo"
      using key_lookup [OF subsetD [OF excess_ids_keys i [unfolded over_def]]] ..
    moreover have "is_terminal (wo_status wo)"
      by (rule excess_idsD [OF w1 wo i [unfolded over_def]])
    moreover have "map_of (st_workorders s1) w = (if w \<in> set stale then None else map_of (st_workorders s) w)"
      by (simp only: s1_def fold_evict_fields map_of_filter_keys)
    ultimately show ?thesis by (auto split: if_splits)
  qed
  show ?thesis
  proof (rule that [of "set stale \<union> set over"])
    show "\<forall>w\<in>set stale \<union> set over. \<exists>wo. map_of (st_workorders s) w = Some wo \<and> is_terminal (wo_status wo)"
      using t1 t2 by blast
    show "hm_wf (st_workorders (snd (evict_workorders now s)))"
      unfolding s' fold_evict_fields by (rule hm_wf_filter [OF w1])
  qed (simp_all only: s' s1_def fold_evict_fields map_of_filter_keys restrict_map_def fun_eq_iff,
      simp_all)
qed

text \<open>The parts of a task, whatever its position: it goes on, it ends in a settled status, it
  finds its channel missing at the start, or it dies.\<close>

lemma task_step_goes:
  "task_step io inp wo pc s = (Goes pc', s') \<Longrightarrow>
     task_went_on (ti_now inp) wo (if pc = TBegin then 1 else 0) s s' \<and> pc' \<noteq> TBegin"
  by (cases pc)
    (auto simp: task_step_def split: prod.splits if_splits start_outcome.splits
      dest: process_begin_effects process_image_effects process_stage_effects process_start_effects)

lemma task_step_ends:
  assumes "task_step io inp wo pc s = (Ends, s')"
  shows "(pc \<noteq> TBegin \<and> (\<exists>st. task_ended (ti_now inp) wo st s s'))
    \<or> (pc = TBegin \<and> same_view s s' \<and> map_of (st_progress_txs s) (wo_id wo) = None)"
  using assms
  by (cases pc)
    (auto simp: task_step_def process_finish_ended split: prod.splits if_splits start_outcome.splits
      dest: process_begin_effects process_image_effects process_stage_effects process_start_effects)

lemma task_step_panics:
  "task_step io inp wo pc s = (Panics, s') \<Longrightarrow>
     same_view s s' \<and> map_of (st_raw_output_txs s) (wo_id wo) = None \<and> pc \<noteq> TBegin"
  by (cases pc)
    (auto simp: task_step_def split: prod.splits if_splits start_outcome.splits
      dest: process_start_effects)

lemma world_wf_modify:
  assumes "world_wf wd" "\<And>v. wo_id (f v) = wo_id v"
    "st_workorders (wd_state wd') = hm_modify w f (st_workorders (wd_state wd))"
  shows "world_wf wd'"
  using assms by (auto simp: world_wf_def hm_wf_modify split: if_splits)

lemma world_wf_insert:
  assumes "world_wf wd" "wo_id wo = w"
    "st_workorders (wd_state wd') = hm_insert w wo (st_workorders (wd_state wd))"
  shows "world_wf wd'"
  using assms by (auto simp: world_wf_def hm_wf_insert split: if_splits)

lemma world_wf_same:
  "world_wf wd \<Longrightarrow> st_workorders (wd_state wd') = st_workorders (wd_state wd) \<Longrightarrow> world_wf wd'"
  by (simp add: world_wf_def)

lemma run_step_wf: "run_step env wd wd' \<Longrightarrow> world_wf wd \<Longrightarrow> world_wf wd'"
proof (induction rule: run_step.induct)
  case (submit w wd now ctx headers req)
  obtain r s' where r: "submit_workorder env w now ctx headers req (wd_state wd) = (r, s')" by fastforce
  show ?case
  proof (cases r)
    case (Inl e)
    then obtain store where "s' = (wd_state wd)\<lparr> st_store := store \<rparr>" using submit_refused r by blast
    then show ?thesis using r submit.prems by (simp add: world_wf_def)
  next
    case (Inr x)
    from submit_accepted [OF r [unfolded Inr]] show ?thesis
    proof cases
      case (1 identity cfg store diff clients wo)
      show ?thesis
        by (rule world_wf_insert [OF submit.prems, of wo w])
          (simp_all add: r 1(6,7) effect_simps new_workorder_def)
    qed
  qed
next
  case (cancel wd now headers w)
  obtain r s' where r: "cancel_workorder now headers w (wd_state wd) = (r, s')" by fastforce
  from r show ?case
  proof (cases rule: cancel_cases)
    case 1
    then show ?thesis using r cancel.prems by (simp add: world_wf_def)
  next
    case (2 wo)
    have "wo_id wo = w" using 2(1) cancel.prems by (simp add: world_wf_def)
    then show ?thesis
      by (intro world_wf_insert [OF cancel.prems]) (simp_all add: r 2 effect_simps)
  qed
next
  case (evict wd now)
  have wf: "hm_wf (st_workorders (wd_state wd))" using evict.prems by (simp add: world_wf_def)
  show ?case
    by (rule evict_gone [OF wf, of now])
      (use evict.prems in \<open>auto simp: world_wf_def restrict_map_def split: if_splits\<close>)
next
  case (claimed wd wo now s')
  from claimed.hyps(2) show ?case
  proof (cases rule: claim_effects)
    case (1 v)
    have "wo_id v = wo_id wo" using 1(1) claimed.prems by (simp add: world_wf_def)
    then show ?thesis
      by (intro world_wf_insert [OF claimed.prems]) (simp_all add: 1)
  qed
next
  case (not_claimed wd wo now s')
  then show ?case using claim_refused [OF not_claimed.hyps(2)] by (simp add: world_wf_def)
next
  case (task_goes wd ts wo pc ts' inp pc' s')
  from task_step_goes [OF task_goes.hyps(2)]
  consider "st_workorders s' = st_workorders (wd_state wd)"
    | "st_workorders s' = hm_modify (wo_id wo) (stamped (ti_now inp) Building) (st_workorders (wd_state wd))"
    by (auto simp: task_went_on_def)
  then show ?case
    by cases (rule world_wf_same [OF task_goes.prems] world_wf_modify [OF task_goes.prems]; simp)+
next
  case (task_ends wd ts wo pc ts' inp s')
  from task_step_ends [OF task_ends.hyps(2)]
  consider "st_workorders s' = st_workorders (wd_state wd)"
    | st where "st_workorders s' = hm_modify (wo_id wo) (stamped (ti_now inp) st) (st_workorders (wd_state wd))"
    by (auto simp: task_ended_def same_view_def)
  then show ?case
    by cases (rule world_wf_same [OF task_ends.prems] world_wf_modify [OF task_ends.prems];
      simp add: release_permit_def)+
next
  case (task_panics wd ts wo pc ts' inp s')
  then show ?case
    by (auto simp: world_wf_def release_permit_def same_view_def dest!: task_step_panics)
qed (simp_all add: effect_simps world_wf_def periodic_save_def acquire_permit_def)

lemma core_of_cong:
  assumes "same_view (wd_state wd) s'" "wd_queue wd' = wd_queue wd" "wd_tasks wd' = wd_tasks wd"
    "wd_state wd' = s'"
  shows "core_of wd' = core_of wd"
  using assms by (simp add: core_of_def same_view_def status_map_def fun_eq_iff)

lemma fresh_core: "fresh_id w wd \<Longrightarrow> core_fresh w (core_of wd)"
  by (cases "wd_queue wd")
    (auto simp: fresh_id_def core_fresh_def core_of_def status_map_def wo_key_def image_image)

lemma submit_core:
  assumes "submit_workorder env w now ctx headers req (wd_state wd) = (Inr r, s')"
  obtains cl where "co_markers (core_of wd) cl = None"
    "core_of (wd\<lparr> wd_state := s' \<rparr>) = (core_of wd)
       \<lparr> co_workorders := (co_workorders (core_of wd))(w \<mapsto> (cl, Pending)),
         co_markers := (co_markers (core_of wd))(cl \<mapsto> w),
         co_progress := insert w (co_progress (core_of wd)),
         co_raw := insert w (co_raw (core_of wd)) \<rparr>"
  using submit_accepted [OF assms]
proof cases
  case (1 identity cfg store diff clients wo)
  let ?cl = "ri_client_id identity"
  have a: "admit (sv_hash env) now ?cl (ri_role identity) (sr_portage_config req) (sr_system_id req)
      (st_clients (wd_state wd)) = Some clients"
    using 1(5) by (simp add: admit_def)
  have m: "active_workorder (set_active_workorder ?cl w clients)
      = (active_workorder (st_clients (wd_state wd)))(?cl \<mapsto> w)"
    by (rule registry_slots.mark_admitted [OF a])
  have wo: "wo_id wo = w" "wo_client_id wo = ?cl" "wo_status wo = Pending"
    using 1(6) by (simp_all add: new_workorder_def)
  show ?thesis
  proof (rule that [of ?cl])
    show "co_markers (core_of wd) ?cl = None"
      using registry_slots.admits_free [OF a] by (simp add: core_of_def)
  qed (simp add: core_of_def 1(7) effect_simps wo m status_map_def fun_eq_iff)
qed

lemma evict_core:
  assumes "world_wf wd"
  shows "core_run_step (core_of wd) (core_of (wd\<lparr> wd_state := snd (evict_workorders now (wd_state wd)) \<rparr>))"
proof -
  have wf: "hm_wf (st_workorders (wd_state wd))" using assms by (simp add: world_wf_def)
  obtain gone where g:
    "\<forall>w\<in>gone. \<exists>wo. map_of (st_workorders (wd_state wd)) w = Some wo \<and> is_terminal (wo_status wo)"
    "map_of (st_workorders (snd (evict_workorders now (wd_state wd)))) = map_of (st_workorders (wd_state wd)) |` (- gone)"
    "map_of (st_progress_txs (snd (evict_workorders now (wd_state wd)))) = map_of (st_progress_txs (wd_state wd)) |` (- gone)"
    "map_of (st_raw_output_txs (snd (evict_workorders now (wd_state wd)))) = map_of (st_raw_output_txs (wd_state wd)) |` (- gone)"
    "hm_wf (st_workorders (snd (evict_workorders now (wd_state wd))))"
    by (rule evict_gone [OF wf, of now])
  have eq: "core_of (wd\<lparr> wd_state := snd (evict_workorders now (wd_state wd)) \<rparr>) = (core_of wd)
      \<lparr> co_workorders := (co_workorders (core_of wd)) |` (- gone),
        co_progress := co_progress (core_of wd) - gone, co_raw := co_raw (core_of wd) - gone \<rparr>"
    by (auto simp: core_of_def effect_simps status_map_def g(2-4) restrict_map_def fun_eq_iff split: if_splits)
  show ?thesis
    unfolding eq
    by (rule core_run_step.evict) (use g(1) in \<open>fastforce simp: core_of_def status_map_def\<close>)+
qed

lemma task_running:
  "wd_tasks wd = ts @ (wo, pc) # ts' \<Longrightarrow> wo_key wo \<in># co_running (core_of wd)"
  by (simp add: core_of_def)

lemma task_goes_core:
  assumes "wd_tasks wd = ts @ (wo, pc) # ts'" "task_went_on now wo n (wd_state wd) s'"
  shows "core_run_step (core_of wd) (core_of (wd\<lparr> wd_state := s', wd_tasks := ts @ (wo, pc') # ts' \<rparr>))"
proof -
  let ?wd' = "wd\<lparr> wd_state := s', wd_tasks := ts @ (wo, pc') # ts' \<rparr>"
  from assms(2) consider "st_workorders s' = st_workorders (wd_state wd)"
    | "st_workorders s' = hm_modify (wo_id wo) (stamped now Building) (st_workorders (wd_state wd))"
    by (auto simp: task_went_on_def)
  then show ?thesis
  proof cases
    case 1
    then have "core_of ?wd' = core_of wd"
      using assms by (simp add: core_of_def task_went_on_def status_map_def fun_eq_iff)
    then show ?thesis by (simp add: core_run_step.stutter)
  next
    case 2
    then have "core_of ?wd' = (core_of wd)
        \<lparr> co_workorders := put_status (wo_id wo) Building (co_workorders (core_of wd)) \<rparr>"
      using assms status_map_stamped [OF 2] by (simp add: core_of_def task_went_on_def)
    then show ?thesis
      using core_run_step.build [OF task_running [OF assms(1), unfolded wo_key_def]] by simp
  qed
qed

lemma dom_upd_None: "dom (m(k := None)) = dom m - {k}"
  by auto

lemma task_ended_core:
  assumes "wd_tasks wd = ts @ (wo, pc) # ts'" "task_ended now wo st (wd_state wd) s'"
  shows "core_run_step (core_of wd) (core_of (wd\<lparr> wd_state := release_permit s', wd_tasks := ts @ ts' \<rparr>))"
proof -
  have "status_map (release_permit s') = put_status (wo_id wo) st (status_map (wd_state wd))"
    using assms(2) by (intro status_map_stamped) (simp add: task_ended_def release_permit_def)
  moreover have "active_workorder (clear_active_workorder (wo_client_id wo) cs)
      = (active_workorder cs)(wo_client_id wo := None)" for cs
    by (auto simp: active_clear fun_eq_iff)
  ultimately have "core_of (wd\<lparr> wd_state := release_permit s', wd_tasks := ts @ ts' \<rparr>) = (core_of wd)
      \<lparr> co_workorders := put_status (wo_id wo) st (co_workorders (core_of wd)),
        co_markers := (co_markers (core_of wd))(wo_client_id wo := None),
        co_progress := co_progress (core_of wd) - {wo_id wo},
        co_raw := co_raw (core_of wd) - {wo_id wo},
        co_running := co_running (core_of wd) - {#(wo_id wo, wo_client_id wo)#} \<rparr>"
    using assms by (simp add: core_of_def task_ended_def release_permit_def dom_upd_None wo_key_def)
  then show ?thesis
    using core_run_step.finish [OF task_running [OF assms(1), unfolded wo_key_def], of st] assms(2)
    by (simp add: task_ended_def)
qed

lemma abandon_core:
  assumes "wd_tasks wd = ts @ (wo, pc) # ts'" "same_view (wd_state wd) s'"
    "map_of (st_progress_txs (wd_state wd)) (wo_id wo) = None
      \<or> map_of (st_raw_output_txs (wd_state wd)) (wo_id wo) = None"
    "wd_state wd' = release_permit s'" "wd_tasks wd' = ts @ ts'" "wd_queue wd' = wd_queue wd"
  shows "core_run_step (core_of wd) (core_of wd')"
proof -
  have "core_of wd' = (core_of wd)
      \<lparr> co_running := co_running (core_of wd) - {#(wo_id wo, wo_client_id wo)#} \<rparr>"
    using assms by (simp add: core_of_def same_view_def release_permit_def wo_key_def status_map_def fun_eq_iff)
  moreover have "wo_id wo \<notin> co_progress (core_of wd) \<or> wo_id wo \<notin> co_raw (core_of wd)"
    using assms(3) by (auto simp: core_of_def)
  ultimately show ?thesis
    using core_run_step.abandon [OF task_running [OF assms(1), unfolded wo_key_def]] by simp
qed

lemma stutter_core: "core_of wd' = core_of wd \<Longrightarrow> core_run_step (core_of wd) (core_of wd')"
  by (simp add: core_run_step.stutter)

lemma run_step_refines: "run_step env wd wd' \<Longrightarrow> world_wf wd \<Longrightarrow> core_run_step (core_of wd) (core_of wd')"
proof (induction rule: run_step.induct)
  case (submit w wd now ctx headers req)
  obtain r s' where r: "submit_workorder env w now ctx headers req (wd_state wd) = (r, s')" by fastforce
  show ?case
  proof (cases r)
    case (Inl e)
    then obtain store where "s' = (wd_state wd)\<lparr> st_store := store \<rparr>" using submit_refused r by blast
    then show ?thesis
      using r by (intro stutter_core core_of_cong) (simp_all add: store_view)
  next
    case (Inr x)
    show ?thesis
      by (rule submit_core [OF r [unfolded Inr]])
        (use core_run_step.submit [OF fresh_core [OF submit.hyps]] r in simp)
  qed
next
  case (cancel wd now headers w)
  obtain r s' where r: "cancel_workorder now headers w (wd_state wd) = (r, s')" by fastforce
  from r show ?case
  proof (cases rule: cancel_cases)
    case 1
    then show ?thesis using r by (simp add: core_run_step.stutter)
  next
    case (2 wo)
    have "active_workorder (clear_active_workorder (wo_client_id wo) cs)
        = (active_workorder cs)(wo_client_id wo := None)" for cs
      by (auto simp: active_clear fun_eq_iff)
    then have "core_of (wd\<lparr> wd_state := s' \<rparr>) = (core_of wd)
        \<lparr> co_workorders := put_status w Cancelled (co_workorders (core_of wd)),
          co_markers := (co_markers (core_of wd))(wo_client_id wo := None) \<rparr>"
      using 2 by (auto simp: core_of_def effect_simps status_map_def put_status_def fun_eq_iff)
    moreover have "co_workorders (core_of wd) w = Some (wo_client_id wo, wo_status wo)"
      using 2(1) by (simp add: core_of_def status_map_def)
    ultimately show ?thesis
      using core_run_step.cancel [of "core_of wd" w "wo_client_id wo" "wo_status wo"] 2(2) r
      by (simp add: is_active_def)
  qed
next
  case (evict wd now)
  then show ?case by (rule evict_core)
next
  case (poll wd wo)
  note n = next_pending_lookup [OF poll.prems poll.hyps(2)]
  have "core_of (wd\<lparr> wd_queue := QPicked wo \<rparr>) = (core_of wd)\<lparr> co_picked := Some (wo_id wo, wo_client_id wo) \<rparr>"
    using poll.hyps(1) by (simp add: core_of_def wo_key_def)
  then show ?case
    using core_run_step.pick [of "core_of wd" "wo_id wo" "wo_client_id wo"] n
    by (simp add: core_of_def status_map_def)
next
  case (claimed wd wo now s')
  from claimed.hyps(2) show ?case
  proof (cases rule: claim_effects)
    case (1 v)
    have "core_of (wd\<lparr> wd_state := s', wd_queue := QClaimed wo \<rparr>) = (core_of wd)
        \<lparr> co_workorders := put_status (wo_id wo) Provisioning (co_workorders (core_of wd)),
          co_picked := None, co_running := add_mset (wo_id wo, wo_client_id wo) (co_running (core_of wd)) \<rparr>"
      using 1 claimed.hyps(1) by (auto simp: core_of_def wo_key_def status_map_def put_status_def fun_eq_iff)
    then show ?thesis
      using core_run_step.claim [of "core_of wd" "wo_id wo" "wo_client_id wo" "wo_client_id v"] 1(1,2) claimed.hyps(1)
      by (simp add: core_of_def status_map_def wo_key_def)
  qed
next
  case (not_claimed wd wo now s')
  have "core_of (wd\<lparr> wd_state := s', wd_queue := QIdle \<rparr>) = (core_of wd)\<lparr> co_picked := None \<rparr>"
    using claim_refused [OF not_claimed.hyps(2)] not_claimed.hyps(1) by (simp add: core_of_def)
  then show ?case using core_run_step.unpick [of "core_of wd"] by simp
next
  case (spawn wd wo)
  then show ?case
    by (intro stutter_core) (simp add: core_of_def acquire_permit_def status_map_def fun_eq_iff)
next
  case (task_goes wd ts wo pc ts' inp pc' s')
  then show ?case using task_goes_core task_step_goes by blast
next
  case (task_ends wd ts wo pc ts' inp s')
  from task_step_ends [OF task_ends.hyps(2)] show ?case
    using task_ended_core [OF task_ends.hyps(1)] abandon_core [OF task_ends.hyps(1)] by fastforce
next
  case (task_panics wd ts wo pc ts' inp s')
  from task_step_panics [OF task_panics.hyps(2)] show ?case
    by (intro abandon_core [OF task_panics.hyps(1)]) auto
next
  case (snapshot_cleanup wd now)
  show ?case by (intro stutter_core core_of_cong) (simp_all add: snapshot_cleanup_view)
qed (intro stutter_core, simp add: core_of_def periodic_save_def status_map_def fun_eq_iff)+

section \<open>Starting\<close>

lemma load_workorders_sane:
  assumes "sane_files j files"
  obtains us where "unwrap_or_default (load_workorders j now files) = map (\<lambda>(k, v). (k, reset_in_flight now v)) us"
    "hm_wf us" "\<forall>p\<in>set us. wo_id (snd p) = fst p"
proof (cases "map_of files ''workorders.json''")
  case None
  then show ?thesis
    using that [of "[]"] by (simp add: unwrap_or_default_def load_workorders_def hm_wf_def)
next
  case (Some json)
  then show ?thesis
    using assms that [of "[]"] that
    by (cases "dec_workorders j json")
      (simp_all add: unwrap_or_default_def load_workorders_def sane_files_def rbind_def ok_or_def hm_wf_def)
qed

lemma reset_in_flight_simps:
  "wo_id (reset_in_flight now v) = wo_id v" "wo_client_id (reset_in_flight now v) = wo_client_id v"
  "\<not> in_flight (wo_status (reset_in_flight now v))"
  by (simp_all add: reset_in_flight_def in_flight_def)

lemma loaded_wf:
  assumes "sane_files j files"
  shows "hm_wf (unwrap_or_default (load_workorders j now files))"
  by (rule load_workorders_sane [OF assms, of now]) (simp add: hm_wf_def comp_def case_prod_unfold)

lemma loaded_workorder:
  assumes "sane_files j files" "map_of (unwrap_or_default (load_workorders j now files)) w = Some wo"
  shows "wo_id wo = w \<and> \<not> in_flight (wo_status wo)"
proof -
  obtain us where us: "unwrap_or_default (load_workorders j now files) = map (\<lambda>(k, v). (k, reset_in_flight now v)) us"
    "hm_wf us" "\<forall>p\<in>set us. wo_id (snd p) = fst p"
    by (rule load_workorders_sane [OF assms(1)])
  obtain v where "(w, v) \<in> set us" "wo = reset_in_flight now v"
    using assms(2) us(1) by (auto dest!: map_of_SomeD)
  then show ?thesis
    using us(3) by (auto simp: reset_in_flight_simps)
qed

lemma load_clients_unmarked:
  "active_workorder (unwrap_or_default (load_clients j files)) = Map.empty"
proof -
  have "active_workorder (map (\<lambda>(k, c). (k, c\<lparr> cs_active_workorder := None \<rparr>)) cs) = Map.empty" for cs
    by (induction cs) (auto simp: active_workorder_def fun_eq_iff)
  then show ?thesis
    by (auto simp: load_clients_def unwrap_or_default_def rbind_def ok_or_def active_workorder_def
        split: option.split)
qed

lemma boot_state:
  "wd_state (boot env h config key now files binpkgs store)
     = app_state_new (io_codec (sv_io env)) h config key now files binpkgs store"
  "wd_queue (boot env h config key now files binpkgs store) = QIdle"
  "wd_tasks (boot env h config key now files binpkgs store) = []"
  "wd_crashed (boot env h config key now files binpkgs store) = 0"
  "wd_requeued (boot env h config key now files binpkgs store)
     = pending_count (app_state_new (io_codec (sv_io env)) h config key now files binpkgs store)"
  by (simp_all add: boot_def Let_def)

lemma boot_wf:
  "sane_files (io_codec (sv_io env)) files \<Longrightarrow> world_wf (boot env h config key now files binpkgs store)"
  by (simp add: world_wf_def boot_state app_state_new_def Let_def loaded_wf loaded_workorder)

lemma boot_core:
  assumes "sane_files (io_codec (sv_io env)) files"
  shows "core_started (core_of (boot env h config key now files binpkgs store))"
proof -
  define ws where "ws = unwrap_or_default (load_workorders (io_codec (sv_io env)) now files)"
  define live where "live = map (\<lambda>p. (fst p, ())) (filter (\<lambda>p. is_active (snd p)) ws)"
  have l: "\<not> in_flight (wo_status wo)" if "map_of ws w = Some wo" for w wo
    using loaded_workorder [OF assms, of now w wo] that by (simp add: ws_def)
  have k: "map_of live w = Some ()" if "map_of ws w = Some wo" "\<not> is_terminal (wo_status wo)" for w wo
  proof -
    have "(w, wo) \<in> set ws" using that(1) by (rule map_of_SomeD)
    then have "(w, ()) \<in> set live"
      using that(2) by (force simp: is_active_def live_def)
    from weak_map_of_SomeI [OF this] show ?thesis by auto
  qed
  have core: "core_of (boot env h config key now files binpkgs store) =
      \<lparr> co_workorders = (\<lambda>w. map_option (\<lambda>wo. (wo_client_id wo, wo_status wo)) (map_of ws w)),
        co_markers = Map.empty, co_progress = dom (map_of live), co_raw = dom (map_of live),
        co_picked = None, co_running = {#} \<rparr>"
    by (simp add: core_of_def boot_state app_state_new_def Let_def status_map_def from_persisted_def
        load_clients_unmarked ws_def live_def fun_eq_iff)
  show ?thesis
    unfolding core_started_def core using l k by auto
qed

interpretation server: simulation "started env" "step env" world_wf core_started core_step core_of for env
proof unfold_locales
  fix s s'
  show "world_wf s" if "started env s" using that by cases (simp add: boot_wf)
  show "world_wf s'" if "step env s s'" "world_wf s" using that
  proof cases
    case running
    then show ?thesis using that(2) by (rule run_step_wf)
  next
    case restart
    show ?thesis unfolding restart(1) by (rule boot_wf [OF restart(2)])
  qed
  show "core_started (core_of s)" if "started env s" using that by cases (simp add: boot_core)
  show "core_step (core_of s) (core_of s')" if "step env s s'" "world_wf s" using that
  proof cases
    case running
    show ?thesis by (rule core_step.run [OF run_step_refines [OF running that(2)]])
  next
    case restart
    show ?thesis unfolding restart(1) by (rule core_step.restart [OF boot_core [OF restart(2)]])
  qed
qed

lemma reachable_core_inv: "reachable (started env) (step env) wd \<Longrightarrow> core_inv (core_of wd)"
  by (rule core_machine.reachable_inv [OF server.reachable_abs])

lemmas reachable_wf = server.reachable_inv

section \<open>Permits and gauges\<close>

definition pending_set :: "app_state \<Rightarrow> workorder_id set" where
  "pending_set s = {w. \<exists>wo. map_of (st_workorders s) w = Some wo \<and> wo_status wo = Pending}"

lemma length_filter_card:
  assumes "hm_wf m"
  shows "length (filter (\<lambda>p. P (snd p)) m) = card {k. \<exists>v. map_of m k = Some v \<and> P v}"
proof -
  have "{k. \<exists>v. map_of m k = Some v \<and> P v} = set (map fst (filter (\<lambda>p. P (snd p)) m))"
    using assms by (force simp flip: hm_wf_in_set)
  moreover have "distinct (map fst (filter (\<lambda>p. P (snd p)) m))"
    using assms by (simp add: hm_wf_def distinct_map_filter)
  ultimately show ?thesis by (metis distinct_card length_map)
qed

lemma pending_count_card: "hm_wf (st_workorders s) \<Longrightarrow> pending_count s = card (pending_set s)"
  unfolding pending_count_def pending_set_def by (rule length_filter_card)

lemma finite_pending_set: "finite (pending_set s)"
proof (rule finite_subset)
  show "pending_set s \<subseteq> dom (map_of (st_workorders s))" by (auto simp: pending_set_def)
qed (rule finite_dom_map_of)

definition started_tasks :: "world \<Rightarrow> nat" where
  "started_tasks wd = length (filter (\<lambda>t. snd t \<noteq> TBegin) (wd_tasks wd))"

definition gauge_inv :: "world \<Rightarrow> bool" where
  "gauge_inv wd \<longleftrightarrow>
     st_worker_permits (wd_state wd) + length (wd_tasks wd) = sc_max_workers (st_config (wd_state wd))
     \<and> m_builds_active (st_metrics (wd_state wd)) = of_nat (started_tasks wd + wd_crashed wd)
     \<and> m_queue_depth (st_metrics (wd_state wd)) + of_nat (wd_requeued wd) = of_nat (card (pending_set (wd_state wd)))"

lemma pending_set_modify:
  assumes "w \<notin> pending_set s" "st \<noteq> Pending" "st_workorders s' = hm_modify w (stamped now st) (st_workorders s)"
  shows "pending_set s' = pending_set s"
  using assms by (auto simp: pending_set_def split: if_splits)

lemma running_not_in_pending:
  assumes "core_inv (core_of wd)" "wd_tasks wd = ts @ (wo, pc) # ts'"
  shows "wo_id wo \<notin> pending_set (wd_state wd)"
proof
  assume "wo_id wo \<in> pending_set (wd_state wd)"
  then obtain cl where "co_workorders (core_of wd) (wo_id wo) = Some (cl, Pending)"
    by (auto simp: pending_set_def core_of_def status_map_def)
  then show False
    using running_not_pending [OF core_invD(1) [OF assms(1)]] task_running [OF assms(2)]
    by (force simp: wo_key_def)
qed

lemma of_nat_card_remove:
  "finite A \<Longrightarrow> a \<in> A \<Longrightarrow> (of_nat (card (A - {a})) :: u64) = of_nat (card A) - 1"
  by (metis card_Suc_Diff1 add_diff_cancel_left' of_nat_Suc)

lemma gauge_view:
  assumes "gauge_inv wd" "same_view (wd_state wd) s'"
    "wd' = wd\<lparr> wd_state := s' \<rparr>"
  shows "gauge_inv wd'"
  using assms by (simp add: gauge_inv_def same_view_def started_tasks_def pending_set_def)

lemma run_step_gauges:
  assumes "run_step env wd wd'" "world_wf wd" "core_inv (core_of wd)" "gauge_inv wd"
  shows "gauge_inv wd'"
  using assms
proof (induction rule: run_step.induct)
  case (submit w wd now ctx headers req)
  obtain r s' where r: "submit_workorder env w now ctx headers req (wd_state wd) = (r, s')" by fastforce
  show ?case
  proof (cases r)
    case (Inl e)
    then obtain store where s': "s' = (wd_state wd)\<lparr> st_store := store \<rparr>" using submit_refused r by blast
    show ?thesis
      by (rule gauge_view [OF submit.prems(3) _ refl]) (simp_all add: r s' store_view)
  next
    case (Inr x)
    from submit_accepted [OF r [unfolded Inr]] show ?thesis
    proof cases
      case (1 identity cfg store diff clients wo)
      have wo: "wo_id wo = w" "wo_status wo = Pending" using 1(6) by (simp_all add: new_workorder_def)
      have "map_of (st_workorders (wd_state wd)) w = None" using submit.hyps by (simp add: fresh_id_def)
      then have "w \<notin> pending_set (wd_state wd)" by (simp add: pending_set_def)
      moreover have "pending_set s' = insert w (pending_set (wd_state wd))"
        by (auto simp: pending_set_def 1(7) effect_simps wo)
      ultimately have "card (pending_set s') = Suc (card (pending_set (wd_state wd)))"
        by (simp add: finite_pending_set)
      then show ?thesis
        using r submit.prems(3) by (simp add: gauge_inv_def started_tasks_def 1(7) effect_simps)
    qed
  qed
next
  case (cancel wd now headers w)
  obtain r s' where r: "cancel_workorder now headers w (wd_state wd) = (r, s')" by fastforce
  from r show ?case
  proof (cases rule: cancel_cases)
    case 1
    then show ?thesis using r cancel.prems by simp
  next
    case (2 wo)
    have p: "pending_set s' = pending_set (wd_state wd) - {w}"
      by (auto simp: pending_set_def 2(3) effect_simps split: if_splits)
    have "w \<in> pending_set (wd_state wd) \<longleftrightarrow> wo_status wo = Pending"
      using 2(1) by (auto simp: pending_set_def)
    then have "(of_nat (card (pending_set s')) :: u64)
        = of_nat (card (pending_set (wd_state wd))) - (if wo_status wo = Pending then 1 else 0)"
      unfolding p using of_nat_card_remove [OF finite_pending_set, of w "wd_state wd"] by auto
    then show ?thesis
      using r cancel.prems(3) by (auto simp: gauge_inv_def started_tasks_def 2(3) effect_simps algebra_simps)
  qed
next
  case (evict wd now)
  have wf: "hm_wf (st_workorders (wd_state wd))" using evict.prems by (simp add: world_wf_def)
  obtain gone where g:
    "\<forall>w\<in>gone. \<exists>wo. map_of (st_workorders (wd_state wd)) w = Some wo \<and> is_terminal (wo_status wo)"
    "map_of (st_workorders (snd (evict_workorders now (wd_state wd)))) = map_of (st_workorders (wd_state wd)) |` (- gone)"
    by (rule evict_gone [OF wf, of now])
  have "pending_set (snd (evict_workorders now (wd_state wd))) = pending_set (wd_state wd)"
    using g(1) by (force simp: pending_set_def g(2) restrict_map_def)
  then show ?case
    using evict.prems(3) by (simp add: gauge_inv_def started_tasks_def effect_simps)
next
  case (save wd)
  show ?case by (rule gauge_view [OF save(3) _ refl]) (simp add: periodic_save_def same_view_def)
next
  case (worker_writes wd d)
  show ?case by (rule gauge_view [OF worker_writes(3) _ refl]) (simp add: same_view_def)
next
  case (worker_output wd store)
  show ?case by (rule gauge_view [OF worker_output.prems(3) _ refl]) (simp add: store_view)
next
  case (upload wd now digest bytes)
  show ?case by (rule gauge_view [OF upload.prems(3) _ refl]) (simp add: store_view)
next
  case (snapshot_cleanup wd now)
  show ?case by (rule gauge_view [OF snapshot_cleanup.prems(3) _ refl]) (simp add: snapshot_cleanup_view)
next
  case (poll wd wo)
  then show ?case by (simp add: gauge_inv_def started_tasks_def)
next
  case (claimed wd wo now s')
  from claimed.hyps(2) show ?case
  proof (cases rule: claim_effects)
    case (1 v)
    have "pending_set s' = pending_set (wd_state wd) - {wo_id wo}"
      by (auto simp: pending_set_def 1(3) split: if_splits)
    moreover have "wo_id wo \<in> pending_set (wd_state wd)"
      using 1(1,2) by (simp add: pending_set_def)
    ultimately have "(of_nat (card (pending_set s')) :: u64) = of_nat (card (pending_set (wd_state wd))) - 1"
      using of_nat_card_remove [OF finite_pending_set] by metis
    then show ?thesis
      using claimed.prems(3) by (simp add: gauge_inv_def started_tasks_def 1 algebra_simps)
  qed
next
  case (not_claimed wd wo now s')
  then show ?case
    using claim_refused [OF not_claimed.hyps(2)] by (simp add: gauge_inv_def started_tasks_def)
next
  case (spawn wd wo)
  then show ?case by (simp add: gauge_inv_def started_tasks_def acquire_permit_def pending_set_def)
next
  case (task_goes wd ts wo pc ts' inp pc' s')
  note g = task_step_goes [OF task_goes.hyps(2)]
  have "st_workorders s' = st_workorders (wd_state wd)
      \<or> st_workorders s' = hm_modify (wo_id wo) (stamped (ti_now inp) Building) (st_workorders (wd_state wd))"
    using g by (simp add: task_went_on_def)
  then have "pending_set s' = pending_set (wd_state wd)"
  proof
    assume "st_workorders s' = st_workorders (wd_state wd)"
    then show ?thesis by (simp add: pending_set_def)
  next
    note np = running_not_in_pending [OF task_goes.prems(2) task_goes.hyps(1)]
    assume "st_workorders s' = hm_modify (wo_id wo) (stamped (ti_now inp) Building) (st_workorders (wd_state wd))"
    then show ?thesis by (rule pending_set_modify [OF np, rotated]) simp
  qed
  then show ?case
    using g task_goes.prems(3) task_goes.hyps(1)
    by (auto simp: gauge_inv_def started_tasks_def task_went_on_def)
next
  case (task_ends wd ts wo pc ts' inp s')
  note np = running_not_in_pending [OF task_ends.prems(2) task_ends.hyps(1)]
  from task_step_ends [OF task_ends.hyps(2)]
  consider st where "pc \<noteq> TBegin" "task_ended (ti_now inp) wo st (wd_state wd) s'"
    | "pc = TBegin" "same_view (wd_state wd) s'" by blast
  then show ?case
  proof cases
    case 1
    have "pending_set s' = pending_set (wd_state wd)"
      by (rule pending_set_modify [OF np]) (use 1(2) in \<open>auto simp: task_ended_def\<close>)
    then show ?thesis
      using 1 task_ends.prems(3) task_ends.hyps(1)
      by (simp add: gauge_inv_def started_tasks_def task_ended_def release_permit_def pending_set_def)
  next
    case 2
    then show ?thesis
      using task_ends.prems(3) task_ends.hyps(1)
      by (simp add: gauge_inv_def started_tasks_def same_view_def release_permit_def pending_set_def)
  qed
next
  case (task_panics wd ts wo pc ts' inp s')
  then show ?case
    using task_step_panics [OF task_panics.hyps(2)]
    by (simp add: gauge_inv_def started_tasks_def same_view_def release_permit_def pending_set_def)
qed

lemma boot_gauges:
  assumes "sane_files (io_codec (sv_io env)) files"
  shows "gauge_inv (boot env h config key now files binpkgs store)"
proof -
  have "hm_wf (st_workorders (app_state_new (io_codec (sv_io env)) h config key now files binpkgs store))"
    using boot_wf [OF assms] by (simp add: world_wf_def boot_state)
  note c = pending_count_card [OF this]
  show ?thesis
    unfolding gauge_inv_def started_tasks_def boot_state c [symmetric]
    by (simp add: app_state_new_def Let_def metrics_new_def)
qed

interpretation gauges: invariant "started env" "step env"
    "\<lambda>wd. world_wf wd \<and> core_inv (core_of wd) \<and> gauge_inv wd" for env
proof unfold_locales
  fix s s'
  show "world_wf s \<and> core_inv (core_of s) \<and> gauge_inv s" if "started env s"
    using that by cases (simp add: boot_wf boot_gauges core_started_inv boot_core)
  show "world_wf s' \<and> core_inv (core_of s') \<and> gauge_inv s'"
    if st: "step env s s'" and inv: "world_wf s \<and> core_inv (core_of s) \<and> gauge_inv s"
    using st
  proof cases
    case running
    then show ?thesis
      using inv run_step_wf run_step_gauges core_run_step_inv [OF run_step_refines] by blast
  next
    case restart
    show ?thesis
      unfolding restart(1) using restart(2) by (simp add: boot_wf boot_gauges core_started_inv boot_core)
  qed
qed

end
