(* ===== verification/Server_Properties.thy ===== *)
theory Server_Properties
  imports Server_System
begin

text \<open>
  The properties of the running server that follow from the refinement: who works
  on what, what a client can rely on, that the queue and its tasks get every
  workorder finished, and the runs in which the server breaks its own rules.
\<close>

section \<open>What the invariant says of the server\<close>

text \<open>How often a workorder is worked on: by the queue after its claim, or by a task.\<close>

definition workers_on :: "workorder_id \<Rightarrow> world \<Rightarrow> nat" where
  "workers_on w wd =
     (case wd_queue wd of QClaimed wo \<Rightarrow> if wo_id wo = w then 1 else 0 | _ \<Rightarrow> 0)
     + length (filter (\<lambda>t. wo_id (fst t) = w) (wd_tasks wd))"

lemma workers_on_count: "workers_on w wd = count (image_mset fst (co_running (core_of wd))) w"
proof -
  have "count (image_mset fst (image_mset (\<lambda>t. wo_key (fst t)) (mset ts))) w
      = length (filter (\<lambda>t. wo_id (fst t) = w) ts)" for ts :: "(workorder \<times> task_pc) list"
    by (induction ts) (auto simp: wo_key_def)
  then show ?thesis
    by (cases "wd_queue wd") (simp_all add: workers_on_def core_of_def wo_key_def)
qed

lemma core_lookup:
  "map_of (st_workorders (wd_state wd)) w = Some wo \<Longrightarrow>
     co_workorders (core_of wd) w = Some (wo_client_id wo, wo_status wo)"
  by (simp add: core_of_def status_map_def)

lemma core_lookupD:
  assumes "co_workorders (core_of wd) w = Some (cl, st)"
  obtains wo where "map_of (st_workorders (wd_state wd)) w = Some wo" "wo_client_id wo = cl" "wo_status wo = st"
  using assms by (auto simp: core_of_def status_map_def)

section \<open>Progress of the queue and its tasks\<close>

text \<open>The steps of the queue and the tasks are those that change them.\<close>

definition work_step :: "submit_env \<Rightarrow> world \<Rightarrow> world \<Rightarrow> bool" where
  "work_step env wd wd' \<longleftrightarrow>
     run_step env wd wd' \<and> (wd_queue wd' \<noteq> wd_queue wd \<or> wd_tasks wd' \<noteq> wd_tasks wd)"

fun task_rank :: "task_pc \<Rightarrow> nat" where
  "task_rank TBegin = 5"
| "task_rank TImage = 4"
| "task_rank TStage = 3"
| "task_rank TStart = 2"
| "task_rank (TWait c) = 1"

definition queue_rank :: "app_state \<Rightarrow> queue_pc \<Rightarrow> nat" where
  "queue_rank s q =
     (case q of
        QIdle \<Rightarrow> 2
      | QPicked wo \<Rightarrow> if wo_id wo \<in> pending_set s then 1 else 3
      | QClaimed wo \<Rightarrow> 9)"

definition work_left :: "world \<Rightarrow> nat" where
  "work_left wd = 10 * card (pending_set (wd_state wd)) + queue_rank (wd_state wd) (wd_queue wd)
     + sum_list (map (\<lambda>t. task_rank (snd t)) (wd_tasks wd))"

lemma task_rank_pos: "0 < task_rank pc"
  by (cases pc) simp_all

lemma task_step_rank: "task_step io inp wo pc s = (Goes pc', s') \<Longrightarrow> task_rank pc' < task_rank pc"
  by (cases pc) (auto simp: task_step_def split: prod.splits if_splits start_outcome.splits)

lemma task_pending_set:
  assumes "core_inv (core_of wd)" "wd_tasks wd = ts @ (wo, pc) # ts'"
    "task_step io inp wo pc (wd_state wd) = (out, s')"
  shows "pending_set s' = pending_set (wd_state wd)"
proof -
  note np = running_not_in_pending [OF assms(1,2)]
  have same: ?thesis if "st_workorders s' = st_workorders (wd_state wd)"
    using that by (simp add: pending_set_def)
  show ?thesis
  proof (cases out)
    case (Goes pc')
    with task_step_goes [OF assms(3) [unfolded Goes]]
    consider "st_workorders s' = st_workorders (wd_state wd)"
      | "st_workorders s' = hm_modify (wo_id wo) (stamped (ti_now inp) Building) (st_workorders (wd_state wd))"
      by (auto simp: task_went_on_def)
    then show ?thesis
      by cases (rule same pending_set_modify [OF np]; simp)+
  next
    case Ends
    with task_step_ends [OF assms(3) [unfolded Ends]]
    consider "st_workorders s' = st_workorders (wd_state wd)"
      | st where "settled st"
        "st_workorders s' = hm_modify (wo_id wo) (stamped (ti_now inp) st) (st_workorders (wd_state wd))"
      by (auto simp: task_ended_def same_view_def)
    then show ?thesis
      by cases (rule same, simp, rule pending_set_modify [OF np], auto)
  next
    case Panics
    with task_step_panics [OF assms(3) [unfolded Panics]] show ?thesis
      by (intro same) (simp add: same_view_def)
  qed
qed

lemma queue_rank_cong: "pending_set s' = pending_set s \<Longrightarrow> queue_rank s' q = queue_rank s q"
  by (simp add: queue_rank_def split: queue_pc.split)

lemma work_step_decreases:
  assumes "work_step env wd wd'" and inv: "world_wf wd" "core_inv (core_of wd)"
  shows "work_left wd' < work_left wd"
proof -
  have run: "run_step env wd wd'" and moved: "wd_queue wd' \<noteq> wd_queue wd \<or> wd_tasks wd' \<noteq> wd_tasks wd"
    using assms(1) by (simp_all add: work_step_def)
  from run inv moved show ?thesis
  proof (induction rule: run_step.induct)
    case (poll wd wo)
    have "wo_id wo \<in> pending_set (wd_state wd)"
      using next_pending_lookup [OF poll.prems(1) poll.hyps(2)] by (simp add: pending_set_def)
    then show ?case using poll.hyps(1) by (simp add: work_left_def queue_rank_def)
  next
    case (claimed wd wo now s')
    from claimed.hyps(2) show ?case
    proof (cases rule: claim_effects)
      case (1 v)
      have p: "wo_id wo \<in> pending_set (wd_state wd)" using 1(1,2) by (simp add: pending_set_def)
      moreover have "pending_set s' = pending_set (wd_state wd) - {wo_id wo}"
        by (auto simp: pending_set_def 1(3) split: if_splits)
      ultimately have "Suc (card (pending_set s')) = card (pending_set (wd_state wd))"
        using card_Suc_Diff1 [OF finite_pending_set] by metis
      then show ?thesis using claimed.hyps(1) p by (simp add: work_left_def queue_rank_def)
    qed
  next
    case (not_claimed wd wo now s')
    have "wo_id wo \<notin> pending_set (wd_state wd)"
      using not_claimed.hyps(2) by (auto simp: claim_def pending_set_def Let_def split: option.splits if_splits)
    then show ?case
      using claim_refused [OF not_claimed.hyps(2)] not_claimed.hyps(1) by (simp add: work_left_def queue_rank_def)
  next
    case (spawn wd wo)
    then show ?case
      by (simp add: work_left_def queue_rank_def acquire_permit_def pending_set_def)
  next
    case (task_goes wd ts wo pc ts' inp pc' s')
    note p = task_pending_set [OF task_goes.prems(2) task_goes.hyps]
    show ?case
      using task_step_rank [OF task_goes.hyps(2)] task_goes.hyps(1)
      by (simp add: work_left_def p queue_rank_cong [OF p])
  next
    case (task_ends wd ts wo pc ts' inp s')
    have p: "pending_set (release_permit s') = pending_set (wd_state wd)"
      using task_pending_set [OF task_ends.prems(2) task_ends.hyps]
      by (simp add: pending_set_def release_permit_def)
    show ?case
      using task_rank_pos [of pc] task_ends.hyps(1) by (simp add: work_left_def p queue_rank_cong [OF p])
  next
    case (task_panics wd ts wo pc ts' inp s')
    have p: "pending_set (release_permit s') = pending_set (wd_state wd)"
      using task_pending_set [OF task_panics.prems(2) task_panics.hyps]
      by (simp add: pending_set_def release_permit_def)
    show ?case
      using task_rank_pos [of pc] task_panics.hyps(1) by (simp add: work_left_def p queue_rank_cong [OF p])
  qed simp_all
qed

abbreviation server_inv :: "world \<Rightarrow> bool" where
  "server_inv wd \<equiv> world_wf wd \<and> core_inv (core_of wd) \<and> gauge_inv wd"

definition all_finished :: "world \<Rightarrow> bool" where
  "all_finished wd \<longleftrightarrow> (\<forall>w wo. map_of (st_workorders (wd_state wd)) w = Some wo \<longrightarrow> \<not> is_active wo)"

lemma task_can_move:
  assumes "wd_tasks wd \<noteq> []"
  shows "\<exists>wd'. work_step env wd wd'"
proof -
  obtain wo pc ts where t: "wd_tasks wd = (wo, pc) # ts" using assms by (cases "wd_tasks wd") auto
  then have t0: "wd_tasks wd = [] @ (wo, pc) # ts" by simp
  fix inp :: task_input
  obtain out s' where o: "task_step (sv_io env) inp wo pc (wd_state wd) = (out, s')" by fastforce
  show ?thesis
  proof (cases out)
    case (Goes pc')
    have "pc' \<noteq> pc" using task_step_rank o Goes by fastforce
    then show ?thesis
      using run_step.task_goes [OF t0 o [unfolded Goes]] t by (fastforce simp: work_step_def)
  next
    case Ends
    show ?thesis
      using run_step.task_ends [OF t0 o [unfolded Ends]] t by (fastforce simp: work_step_def)
  next
    case Panics
    show ?thesis
      using run_step.task_panics [OF t0 o [unfolded Panics]] t by (fastforce simp: work_step_def)
  qed
qed

lemma claim_can_move:
  assumes "wd_queue wd = QPicked wo"
  shows "\<exists>wd'. work_step env wd wd'"
proof -
  fix now
  obtain b s' where c: "claim now wo (wd_state wd) = (b, s')" by fastforce
  show ?thesis
  proof (cases b)
    case True
    then have c': "claim now wo (wd_state wd) = (True, s')" using c by simp
    show ?thesis
      using run_step.claimed [OF assms c'] assms by (fastforce simp: work_step_def)
  next
    case False
    then have c': "claim now wo (wd_state wd) = (False, s')" using c by simp
    show ?thesis
      using run_step.not_claimed [OF assms c'] assms by (fastforce simp: work_step_def)
  qed
qed

lemma queue_can_move:
  assumes "gauge_inv wd" "0 < sc_max_workers (st_config (wd_state wd))" "wd_queue wd = QClaimed wo"
  shows "\<exists>wd'. work_step env wd wd'"
proof (cases "0 < st_worker_permits (wd_state wd)")
  case True
  show ?thesis
    using run_step.spawn [OF assms(3) True] assms(3) by (fastforce simp: work_step_def)
next
  case False
  then have "wd_tasks wd \<noteq> []" using assms(1,2) by (auto simp: gauge_inv_def)
  then show ?thesis by (rule task_can_move)
qed

lemma poll_can_move:
  assumes "wd_queue wd = QIdle" "map_of (st_workorders (wd_state wd)) w = Some wo" "wo_status wo = Pending"
  shows "\<exists>wd'. work_step env wd wd'"
proof -
  have "wo \<in> set (map snd (st_workorders (wd_state wd)))"
    using map_of_SomeD [OF assms(2)] by force
  then have "next_pending (wd_state wd) \<noteq> None"
    using assms(3) unfolding next_pending_def min_by_created_at_None by (auto simp: filter_empty_conv)
  then obtain v where "next_pending (wd_state wd) = Some v" by blast
  then show ?thesis
    using run_step.poll [OF assms(1)] assms(1) by (fastforce simp: work_step_def)
qed

lemma work_possible:
  assumes inv: "server_inv wd" and max: "0 < sc_max_workers (st_config (wd_state wd))"
    and wo: "map_of (st_workorders (wd_state wd)) w = Some wo" "is_active wo"
  shows "\<exists>wd'. work_step env wd wd'"
proof (cases "wd_queue wd")
  case QIdle
  show ?thesis
  proof (cases "wo_status wo = Pending")
    case True
    then show ?thesis using poll_can_move [OF QIdle wo(1)] by blast
  next
    case False
    then have "in_flight (wo_status wo)" using wo(2) by (auto simp: is_active_def active_cases)
    then have "(w, wo_client_id wo) \<in># co_running (core_of wd)"
      using inv core_lookup [OF wo(1)] by (auto simp: core_inv_def inv_owned_def)
    then have "wd_tasks wd \<noteq> []" using QIdle by (auto simp: core_of_def)
    then show ?thesis by (rule task_can_move)
  qed
next
  case (QPicked v)
  then show ?thesis by (rule claim_can_move)
next
  case (QClaimed v)
  then show ?thesis using queue_can_move inv max by blast
qed

lemma run_step_inv: "run_step env wd wd' \<Longrightarrow> server_inv wd \<Longrightarrow> server_inv wd'"
  by (rule gauges.step_inv [OF step.running])

lemma run_step_config:
  assumes "run_step env wd wd'"
  shows "st_config (wd_state wd') = st_config (wd_state wd)"
  using assms
proof (induction rule: run_step.induct)
  case (submit w wd now ctx headers req)
  obtain r s' where r: "submit_workorder env w now ctx headers req (wd_state wd) = (r, s')" by fastforce
  show ?case
  proof (cases r)
    case (Inl e)
    then show ?thesis using r submit_refused by fastforce
  next
    case (Inr x)
    from submit_accepted [OF r [unfolded Inr]] show ?thesis
      by cases (simp add: r effect_simps)
  qed
next
  case (cancel wd now headers w)
  obtain r s' where r: "cancel_workorder now headers w (wd_state wd) = (r, s')" by fastforce
  from r show ?case by (cases rule: cancel_cases) (simp_all add: r effect_simps)
next
  case (claimed wd wo now s')
  from claimed.hyps(2) show ?case by (cases rule: claim_effects) simp
next
  case (not_claimed wd wo now s')
  then show ?case using claim_refused by fastforce
next
  case (task_goes wd ts wo pc ts' inp pc' s')
  then show ?case using task_step_goes by (fastforce simp: task_went_on_def)
next
  case (task_ends wd ts wo pc ts' inp s')
  from task_step_ends [OF task_ends.hyps(2)] show ?case
    by (auto simp: task_ended_def same_view_def release_permit_def)
next
  case (task_panics wd ts wo pc ts' inp s')
  from task_step_panics [OF task_panics.hyps(2)] show ?case
    by (simp add: same_view_def release_permit_def)
qed (simp_all add: effect_simps periodic_save_def acquire_permit_def)

lemma work_run_inv:
  assumes "(work_step env)\<^sup>*\<^sup>* wd wd'" "server_inv wd"
  shows "server_inv wd' \<and> st_config (wd_state wd') = st_config (wd_state wd)"
  using assms
proof (induction rule: rtranclp_induct)
  case (step y z)
  then have "run_step env y z" "server_inv y" by (simp_all add: work_step_def)
  then show ?case using run_step_inv run_step_config step by metis
qed simp

lemma work_run_to_end:
  assumes "server_inv wd"
  shows "\<exists>wd'. (work_step env)\<^sup>*\<^sup>* wd wd' \<and> (\<nexists>wd''. work_step env wd' wd'')"
  using assms
proof (induction "work_left wd" arbitrary: wd rule: less_induct)
  case less
  show ?case
  proof (cases "\<exists>wd'. work_step env wd wd'")
    case True
    then obtain wd' where w: "work_step env wd wd'" by blast
    then have "work_left wd' < work_left wd" using work_step_decreases less.prems by blast
    moreover have "server_inv wd'" using run_step_inv w less.prems by (auto simp: work_step_def)
    ultimately obtain z where "(work_step env)\<^sup>*\<^sup>* wd' z" "\<nexists>z'. work_step env z z'"
      using less.hyps by blast
    then show ?thesis using w by (meson converse_rtranclp_into_rtranclp)
  next
    case False
    then show ?thesis by blast
  qed
qed

section \<open>Calm runs\<close>

definition calm_run_step :: "submit_env \<Rightarrow> world \<Rightarrow> world \<Rightarrow> bool" where
  "calm_run_step env wd wd' \<longleftrightarrow> run_step env wd wd' \<and>
     (\<forall>w wo wo'. map_of (st_workorders (wd_state wd)) w = Some wo \<longrightarrow>
        wo_status wo = Provisioning \<or> wo_status wo = Building \<longrightarrow>
        map_of (st_workorders (wd_state wd')) w = Some wo' \<longrightarrow> wo_status wo' \<noteq> Cancelled)"

definition clean_start :: "submit_env \<Rightarrow> world \<Rightarrow> bool" where
  "clean_start env wd \<longleftrightarrow> started env wd \<and> all_finished wd"

interpretation calm_server: simulation "clean_start env" "calm_run_step env" world_wf
    core_clean calm_step core_of for env
proof unfold_locales
  fix s s'
  show "world_wf s" if "clean_start env s"
    using that server.init_inv by (auto simp: clean_start_def)
  show "world_wf s'" if "calm_run_step env s s'" "world_wf s"
    using that run_step_wf by (auto simp: calm_run_step_def)
  show "core_clean (core_of s)" if "clean_start env s"
    using that server.init_sim [of env s]
    by (auto simp: clean_start_def core_clean_def all_finished_def is_active_def elim!: core_lookupD)
  show "calm_step (core_of s) (core_of s')" if c: "calm_run_step env s s'" and "world_wf s"
  proof -
    have "core_run_step (core_of s) (core_of s')"
      using that run_step_refines by (auto simp: calm_run_step_def)
    moreover have "calm (core_of s) (core_of s')"
      unfolding calm_def
    proof (intro allI impI notI)
      fix w cl st cl'
      assume "co_workorders (core_of s) w = Some (cl, st)" "in_flight st"
        "co_workorders (core_of s') w = Some (cl', Cancelled)"
      then show False
        using c by (auto simp: calm_run_step_def in_flight_def elim!: core_lookupD)
    qed
    ultimately show ?thesis by (simp add: calm_step_def)
  qed
qed

section \<open>A sample run\<close>

text \<open>One client submits a workorder; the queue claims it and a task starts.  The client cancels
  it and submits another one; the task goes on.\<close>

definition sample_env :: submit_env where
  "sample_env =
     \<lparr> sv_io = \<lparr> io_codec = sample_codec, io_unique = ''u'', io_sha256 = (\<lambda>_. []),
                io_runtime = sample_runtime_env \<rparr>,
       sv_hash = \<lparr> json_portage_config = (\<lambda>_. Some []), json_system_identity = (\<lambda>_. Some []),
                   sha256_hex = id \<rparr>,
       sv_show_uuid = (\<lambda>_. ''id'') \<rparr>"

definition sample_request :: "client_id \<Rightarrow> submit_workorder_request" where
  "sample_request c =
     \<lparr> sr_client_id = c, sr_role = Main, sr_atoms = [''app-misc/hello''], sr_emerge_args = [],
       sr_portage_config = sample_portage_config, sr_system_id = sample_system_identity \<rparr>"

definition sample_context :: trace_context where
  "sample_context = \<lparr> tc_trace_id = ''t'', tc_traceparent = ''p'' \<rparr>"

definition sample_input :: task_input where
  "sample_input =
     \<lparr> ti_now = 50, ti_cleanup = \<lparr> ca_container_removed = True \<rparr>,
       ti_image_tag = ''worker'', ti_needs_rebuild = False, ti_image_result = Inr (), ti_image_secs = 0,
       ti_start_result = Inr ''c1'', ti_start_secs = 0, ti_secs = 0,
       ti_finish = \<lparr> fi_wait = \<lparr> wa_after_secs = 1, wa_result = Inr 0 \<rparr>, fi_events = [],
         fi_scan_ok = True, fi_index_ok = True, fi_secs = 1 \<rparr> \<rparr>"

definition sample_submit :: "workorder_id \<Rightarrow> timestamp \<Rightarrow> world \<Rightarrow> world" where
  "sample_submit w now wd = wd\<lparr> wd_state :=
     snd (submit_workorder sample_env w now sample_context [] (sample_request 7) (wd_state wd)) \<rparr>"

definition sample_poll :: "world \<Rightarrow> world" where
  "sample_poll wd = (case next_pending (wd_state wd) of
     None \<Rightarrow> wd | Some wo \<Rightarrow> wd\<lparr> wd_queue := QPicked wo \<rparr>)"

definition sample_claim :: "world \<Rightarrow> world" where
  "sample_claim wd = (case wd_queue wd of
     QPicked wo \<Rightarrow> wd\<lparr> wd_state := snd (claim 20 wo (wd_state wd)), wd_queue := QClaimed wo \<rparr> | _ \<Rightarrow> wd)"

definition sample_spawn :: "world \<Rightarrow> world" where
  "sample_spawn wd = (case wd_queue wd of
     QClaimed wo \<Rightarrow> wd\<lparr> wd_state := acquire_permit (wd_state wd), wd_queue := QIdle,
       wd_tasks := (wo, TBegin) # wd_tasks wd \<rparr> | _ \<Rightarrow> wd)"

definition sample_task :: "world \<Rightarrow> world" where
  "sample_task wd = (case wd_tasks wd of
     (wo, pc) # ts \<Rightarrow>
       (case task_step (sv_io sample_env) sample_input wo pc (wd_state wd) of
          (Goes pc', s') \<Rightarrow> wd\<lparr> wd_state := s', wd_tasks := (wo, pc') # ts \<rparr>
        | _ \<Rightarrow> wd)
   | [] \<Rightarrow> wd)"

definition sample_boot :: world where
  "sample_boot = boot sample_env Some server_config_default None 0 [] \<lparr> bd_files = [], bd_dirs = [] \<rparr> empty_fs"

definition sample_running :: world where
  "sample_running = sample_task (sample_spawn (sample_claim (sample_poll (sample_submit 1 10 sample_boot))))"

definition sample_cancelled :: world where
  "sample_cancelled = sample_running\<lparr> wd_state := snd (cancel_workorder 30 [] 1 (wd_state sample_running)) \<rparr>"

definition sample_resubmitted :: world where
  "sample_resubmitted = sample_submit 2 40 sample_cancelled"

definition sample_revived :: world where
  "sample_revived = sample_task sample_resubmitted"

abbreviation sample_reachable :: "world \<Rightarrow> bool" where
  "sample_reachable \<equiv> reachable (started sample_env) (step sample_env)"

lemma sample_next: "sample_reachable wd \<Longrightarrow> run_step sample_env wd wd' \<Longrightarrow> sample_reachable wd'"
  by (erule reachable.next_step) (erule step.running)

lemma sample_submit_step: "fresh_id w wd \<Longrightarrow> run_step sample_env wd (sample_submit w now wd)"
  unfolding sample_submit_def by (rule run_step.submit)

lemma sample_poll_step:
  "wd_queue wd = QIdle \<Longrightarrow> next_pending (wd_state wd) \<noteq> None \<Longrightarrow> run_step env wd (sample_poll wd)"
  by (auto simp: sample_poll_def intro: run_step.poll split: option.splits)

lemma sample_claim_step:
  assumes "case wd_queue wd of QPicked wo \<Rightarrow> fst (claim 20 wo (wd_state wd)) | _ \<Rightarrow> False"
  shows "run_step env wd (sample_claim wd)"
proof -
  obtain wo where q: "wd_queue wd = QPicked wo" and "fst (claim 20 wo (wd_state wd))"
    using assms by (auto split: queue_pc.splits)
  then have "claim 20 wo (wd_state wd) = (True, snd (claim 20 wo (wd_state wd)))"
    by (metis prod.collapse)
  then show ?thesis
    using run_step.claimed [OF q] by (simp add: sample_claim_def q)
qed

lemma sample_spawn_step:
  assumes "case wd_queue wd of QClaimed wo \<Rightarrow> 0 < st_worker_permits (wd_state wd) | _ \<Rightarrow> False"
  shows "run_step sample_env wd (sample_spawn wd)"
  using assms by (auto simp: sample_spawn_def intro: run_step.spawn split: queue_pc.splits)

fun goes_on :: "task_outcome \<Rightarrow> bool" where
  "goes_on (Goes pc) = True"
| "goes_on _ = False"

lemma sample_task_step:
  assumes "case wd_tasks wd of [] \<Rightarrow> False | t # ts \<Rightarrow>
    goes_on (fst (task_step (sv_io sample_env) sample_input (fst t) (snd t) (wd_state wd)))"
  shows "run_step sample_env wd (sample_task wd)"
proof -
  obtain wo pc ts where t: "wd_tasks wd = (wo, pc) # ts"
    and g: "goes_on (fst (task_step (sv_io sample_env) sample_input wo pc (wd_state wd)))"
    using assms by (auto split: list.splits)
  obtain pc' s' where o: "task_step (sv_io sample_env) sample_input wo pc (wd_state wd) = (Goes pc', s')"
    using g by (metis goes_on.elims(2) prod.collapse)
  show ?thesis
    using run_step.task_goes [of wd "[]", simplified, OF t o] by (simp add: sample_task_def t o)
qed

lemma sample_boot_started: "started sample_env sample_boot"
  unfolding sample_boot_def by (rule started.started) (simp add: sane_files_def)

lemma sample_running_reachable: "sample_reachable sample_running"
proof -
  have 0: "sample_reachable sample_boot" by (rule reachable.start, rule sample_boot_started)
  have 1: "sample_reachable (sample_submit 1 10 sample_boot)"
    by (rule sample_next [OF 0 sample_submit_step]) code_simp
  have 2: "sample_reachable (sample_poll (sample_submit 1 10 sample_boot))"
    by (rule sample_next [OF 1 sample_poll_step]) code_simp+
  have 3: "sample_reachable (sample_claim (sample_poll (sample_submit 1 10 sample_boot)))"
    by (rule sample_next [OF 2 sample_claim_step]) code_simp
  have 4: "sample_reachable (sample_spawn (sample_claim (sample_poll (sample_submit 1 10 sample_boot))))"
    by (rule sample_next [OF 3 sample_spawn_step]) code_simp
  show ?thesis
    unfolding sample_running_def by (rule sample_next [OF 4 sample_task_step]) code_simp
qed

lemma sample_resubmitted_reachable: "sample_reachable sample_resubmitted"
proof -
  have "sample_reachable sample_cancelled"
    unfolding sample_cancelled_def by (rule sample_next [OF sample_running_reachable run_step.cancel])
  then show ?thesis
    unfolding sample_resubmitted_def by (rule sample_next [OF _ sample_submit_step]) code_simp
qed

lemma sample_revived_step: "run_step sample_env sample_resubmitted sample_revived"
  unfolding sample_revived_def by (rule sample_task_step) code_simp

text \<open>A second run: the server starts from a file that holds one pending workorder.\<close>

definition restart_env :: submit_env where
  "restart_env = sample_env\<lparr> sv_io := (sv_io sample_env)\<lparr> io_codec := sample_codec
     \<lparr> dec_workorders := (\<lambda>t. if t = ''j'' then Some [(1, sample_workorder 1 7 Pending 10)] else None) \<rparr> \<rparr> \<rparr>"

definition restart_boot :: world where
  "restart_boot = boot restart_env Some server_config_default None 0 [(''workorders.json'', ''j'')]
     \<lparr> bd_files = [], bd_dirs = [] \<rparr> empty_fs"

definition restart_claimed :: world where
  "restart_claimed = sample_claim (sample_poll restart_boot)"

lemma restart_claimed_reachable: "reachable (started restart_env) (step restart_env) restart_claimed"
proof -
  have "started restart_env restart_boot"
    unfolding restart_boot_def by (rule started.started) code_simp
  then have 0: "reachable (started restart_env) (step restart_env) restart_boot"
    by (rule reachable.start)
  have "run_step restart_env restart_boot (sample_poll restart_boot)"
    by (rule sample_poll_step) code_simp+
  then have 1: "reachable (started restart_env) (step restart_env) (sample_poll restart_boot)"
    using 0 by (blast intro: reachable.next_step step.running)
  have "run_step restart_env (sample_poll restart_boot) restart_claimed"
    unfolding restart_claimed_def by (rule sample_claim_step) code_simp
  then show ?thesis
    using 1 by (blast intro: reachable.next_step step.running)
qed

section \<open>Properties\<close>



text \<open>C2: no workorder is lost or built twice: whenever a workorder is provisioning or building,
  exactly one party works on it, the queue that has just claimed it or one task.\<close>

theorem in_progress_has_one_worker:
  assumes "reachable (started env) (step env) wd"
    and "map_of (st_workorders (wd_state wd)) w = Some wo"
    and "wo_status wo = Provisioning \<or> wo_status wo = Building"
  shows "workers_on w wd = 1"
proof -
  note inv = reachable_core_inv [OF assms(1)]
  have "(w, wo_client_id wo) \<in># co_running (core_of wd)"
    using core_invD(4) [OF inv] core_lookup [OF assms(2)] assms(3) by (auto simp: inv_owned_def in_flight_def)
  then have "w \<in># image_mset fst (co_running (core_of wd))" by force
  then have "0 < workers_on w wd" by (simp only: workers_on_count count_greater_zero_iff)
  moreover have "workers_on w wd \<le> Suc 0"
    using core_invD(2) [OF inv] by (simp only: workers_on_count inv_once_def)
  ultimately show ?thesis by simp
qed

theorem in_progress_has_one_worker_witness:
  "workers_on 1 sample_running = 1"
  by (rule in_progress_has_one_worker [OF sample_running_reachable,
        of _ "the (map_of (st_workorders (wd_state sample_running)) 1)"]) code_simp+









text \<open>C11: the rule of one unfinished workorder per client does not hold in general: a workorder
  cancelled while its task runs is put back to building by the task, beside the workorder the
  client has submitted since.\<close>

theorem cancelled_workorder_revived:
  "reachable (started sample_env) (step sample_env) sample_resubmitted
   \<and> run_step sample_env sample_resubmitted sample_revived
   \<and> map_option wo_status (map_of (st_workorders (wd_state sample_resubmitted)) 1) = Some Cancelled
   \<and> map_option wo_status (map_of (st_workorders (wd_state sample_revived)) 1) = Some Building
   \<and> length (filter (\<lambda>p. is_active (snd p) \<and> wo_client_id (snd p) = 7) (st_workorders (wd_state sample_revived))) = 2"
proof (intro conjI)
  show "reachable (started sample_env) (step sample_env) sample_resubmitted"
    by (rule sample_resubmitted_reachable)
  show "run_step sample_env sample_resubmitted sample_revived" by (rule sample_revived_step)
qed code_simp+

text \<open>C9: at most \<open>max_workers\<close> workorders are built at a time: the free permits and the tasks
  add up to the configured number, whatever happened before, a task that died included.\<close>

theorem worker_permits_accounted:
  assumes "reachable (started env) (step env) wd"
  shows "st_worker_permits (wd_state wd) + length (wd_tasks wd) = sc_max_workers (st_config (wd_state wd))"
  using gauges.reachable_inv [OF assms] by (simp add: gauge_inv_def)

theorem worker_permits_accounted_witness:
  "st_worker_permits (wd_state sample_running) + length (wd_tasks sample_running)
     = sc_max_workers (st_config (wd_state sample_running))"
  by (rule worker_permits_accounted [OF sample_running_reachable])



text \<open>C12: after a restart with one pending workorder, its claim leaves the queue depth at the
  largest 64 bit number while no workorder is pending.\<close>

theorem queue_depth_wraps_after_restart:
  "reachable (started restart_env) (step restart_env) restart_claimed
   \<and> pending_count (wd_state restart_claimed) = 0
   \<and> unat (m_queue_depth (st_metrics (wd_state restart_claimed))) = 2 ^ 64 - 1"
proof (intro conjI)
  show "reachable (started restart_env) (step restart_env) restart_claimed"
    by (rule restart_claimed_reachable)
  show "pending_count (wd_state restart_claimed) = 0" by code_simp
  show "unat (m_queue_depth (st_metrics (wd_state restart_claimed))) = 2 ^ 64 - 1" by code_simp
qed

text \<open>C8: the queue and its tasks do not run forever on a fixed set of workorders: there is no
  infinite sequence of their steps.\<close>

theorem work_terminates:
  "\<not> (\<exists>run. reachable (started env) (step env) (run 0) \<and> (\<forall>i. work_step env (run i) (run (Suc i))))"
proof
  assume "\<exists>run. reachable (started env) (step env) (run 0) \<and> (\<forall>i. work_step env (run i) (run (Suc i)))"
  then obtain run where r: "reachable (started env) (step env) (run 0)"
    and w: "\<And>i. work_step env (run i) (run (Suc i))" by blast
  have inv: "server_inv (run i)" for i
  proof (induction i)
    case 0
    then show ?case by (rule gauges.reachable_inv [OF r])
  next
    case (Suc i)
    then show ?case using run_step_inv w [of i] by (auto simp: work_step_def)
  qed
  have "work_left (run (Suc i)) < work_left (run i)" for i
    using work_step_decreases [OF w] inv by blast
  then have "\<forall>i. (run (Suc i), run i) \<in> measure work_left" by simp
  then show False using wf_iff_no_infinite_down_chain [THEN iffD1, OF wf_measure] by blast
qed

text \<open>C7: every workorder gets finished: with at least one worker, whatever state the server is
  in, the queue and its tasks can run to a point where they have nothing left to do, and at every
  such point all workorders are completed, failed or cancelled.\<close>

theorem work_finishes_everything:
  assumes "reachable (started env) (step env) wd" and "0 < sc_max_workers (st_config (wd_state wd))"
  shows "(\<exists>wd'. (work_step env)\<^sup>*\<^sup>* wd wd' \<and> (\<nexists>wd''. work_step env wd' wd''))
    \<and> (\<forall>wd'. (work_step env)\<^sup>*\<^sup>* wd wd' \<and> (\<nexists>wd''. work_step env wd' wd'') \<longrightarrow> all_finished wd')"
proof
  have inv: "server_inv wd" by (rule gauges.reachable_inv [OF assms(1)])
  show "\<exists>wd'. (work_step env)\<^sup>*\<^sup>* wd wd' \<and> (\<nexists>wd''. work_step env wd' wd'')"
    by (rule work_run_to_end [OF inv])
  show "\<forall>wd'. (work_step env)\<^sup>*\<^sup>* wd wd' \<and> (\<nexists>wd''. work_step env wd' wd'') \<longrightarrow> all_finished wd'"
    using work_run_inv [OF _ inv] work_possible assms(2) unfolding all_finished_def by metis
qed

theorem work_finishes_everything_witness:
  "\<exists>wd'. (work_step sample_env)\<^sup>*\<^sup>* sample_running wd' \<and> all_finished wd'"
proof -
  have "0 < sc_max_workers (st_config (wd_state sample_running))" by code_simp
  from work_finishes_everything [OF sample_running_reachable this] show ?thesis by blast
qed

end
