(* ===== verification/Store_Properties.thy ===== *)
theory Store_Properties
  imports Snapshot_Runtime Lifecycle
begin

text \<open>
  What the snapshot store guarantees: no operation leaves a blob or tree whose contents do not
  hash to its name, staged files keep to their directory, and the clean-up removes what it may
  and nothing else.
\<close>

section \<open>The clean-up\<close>

text \<open>The digest can be read off the name of each of its files.\<close>

lemma entry_files_digest:
  assumes "digest_ok (ce_digest e)" "q \<in> entry_files e"
  shows "ce_digest e = (if ce_kind e = BlobEntry then q ! 1 @ take 62 (q ! 2) else take 64 (q ! 1))"
    "hd q = (if ce_kind e = BlobEntry then BLOBS_SUBDIR else TREES_SUBDIR)"
proof -
  have "length (ce_digest e) = 64" using assms(1) by (simp add: digest_ok_def)
  then show "ce_digest e = (if ce_kind e = BlobEntry then q ! 1 @ take 62 (q ! 2) else take 64 (q ! 1))"
    "hd q = (if ce_kind e = BlobEntry then BLOBS_SUBDIR else TREES_SUBDIR)"
    using assms(2) by (cases "ce_kind e"; auto simp: entry_files_def store_files)+
qed

lemma entry_files_disjoint:
  assumes "digest_ok (ce_digest e)" "digest_ok (ce_digest e')" "q \<in> entry_files e" "q \<in> entry_files e'"
  shows "ce_kind e = ce_kind e'" "ce_digest e = ce_digest e'"
proof -
  show k: "ce_kind e = ce_kind e'"
    using entry_files_digest(2) [OF assms(1,3)] entry_files_digest(2) [OF assms(2,4)]
    by (cases "ce_kind e"; cases "ce_kind e'") (simp_all add: BLOBS_SUBDIR_def TREES_SUBDIR_def)
  show "ce_digest e = ce_digest e'"
    using entry_files_digest(1) [OF assms(1,3)] entry_files_digest(1) [OF assms(2,4)] k by simp
qed

text \<open>An entry is protected when a staged workorder refers to it, or when its last reference is
  younger than both periods of the configuration.\<close>

definition recently_used :: "server_config \<Rightarrow> timestamp \<Rightarrow> blob_metadata \<Rightarrow> bool" where
  "recently_used config now m \<longleftrightarrow>
     now - duration_hours (as_i64 (sc_snapshot_cache_grace_period_hours config)) < bm_last_referenced_at m
     \<and> now - duration_hours (as_i64 (sc_snapshot_cache_hard_delete_hours config)) < bm_last_referenced_at m"

definition protected_entry ::
    "store_env \<Rightarrow> server_config \<Rightarrow> snapshot_reference_set list \<Rightarrow> timestamp \<Rightarrow> fs \<Rightarrow> cleanup_entry \<Rightarrow> bool" where
  "protected_entry env config refs now fs e \<longleftrightarrow>
     (case ce_kind e of
        BlobEntry \<Rightarrow> ce_digest e \<in> set (concat (map srs_blob_digests refs))
          \<or> (\<forall>m. load_blob_metadata env (ce_digest e) fs = (Inr m, fs) \<longrightarrow> recently_used config now m)
      | TreeEntry \<Rightarrow> ce_digest e \<in> set (concat (map srs_tree_digests refs))
          \<or> (\<forall>m. load_tree_metadata env (ce_digest e) fs = (Inr m, fs) \<longrightarrow> recently_used config now m))"

lemma bs_of_list_set [simp]: "set (bs_of_list ks) = set ks"
proof -
  have "set (fold bs_insert ks acc) = set ks \<union> set acc" for acc
    by (induction ks arbitrary: acc) auto
  from this [of "[]"] show ?thesis by (simp add: bs_of_list_def)
qed

text \<open>What the scan of a clean-up collects.\<close>

definition cleanup_scan ::
    "server_config \<Rightarrow> snapshot_reference_set list \<Rightarrow> timestamp \<Rightarrow> (string \<times> blob_metadata) list
     \<Rightarrow> (string \<times> tree_metadata) list \<Rightarrow> scan" where
  "cleanup_scan config refs now blobs trees =
     (let grace = now - duration_hours (as_i64 (sc_snapshot_cache_grace_period_hours config));
          hard = now - duration_hours (as_i64 (sc_snapshot_cache_hard_delete_hours config))
      in fold (scan_record TreeEntry (bs_of_list (concat (map srs_tree_digests refs))) grace hard) trees
           (fold (scan_record BlobEntry (bs_of_list (concat (map srs_blob_digests refs))) grace hard) blobs (0, [], [])))"

lemma cleanup_scan_unprotected:
  assumes "cleanup_scan config refs now blobs trees = (n, hs, es)" "e \<in> set hs \<union> set es"
    and l: "listed_blobs env fs blobs" "listed_trees env fs trees"
  shows "digest_ok (ce_digest e)" "\<not> protected_entry env config refs now fs e"
proof -
  let ?grace = "now - duration_hours (as_i64 (sc_snapshot_cache_grace_period_hours config))"
  let ?hard = "now - duration_hours (as_i64 (sc_snapshot_cache_hard_delete_hours config))"
  obtain n1 hs1 es1 where 1: "fold (scan_record BlobEntry (bs_of_list (concat (map srs_blob_digests refs))) ?grace ?hard) blobs (0, [], []) = (n1, hs1, es1)"
    by (metis prod_cases3)
  have 2: "fold (scan_record TreeEntry (bs_of_list (concat (map srs_tree_digests refs))) ?grace ?hard) trees (n1, hs1, es1) = (n, hs, es)"
    using assms(1) by (simp add: cleanup_scan_def Let_def 1)
  have "digest_ok (ce_digest e) \<and> \<not> protected_entry env config refs now fs e"
    using scan_entries [OF 2 assms(2)]
  proof
    assume "e \<in> set hs1 \<union> set es1"
    from scan_entries [OF 1 this] obtain m where "ce_kind e = BlobEntry" "(ce_digest e, m) \<in> set blobs"
      "ce_digest e \<notin> set (concat (map srs_blob_digests refs))" "bm_last_referenced_at m \<le> ?hard \<or> bm_last_referenced_at m \<le> ?grace"
      by auto
    moreover from this have "load_blob_metadata env (ce_digest e) fs = (Inr m, fs)"
      using l(1) by (auto simp: listed_blobs_def)
    ultimately show ?thesis
      using load_metadata_ok(1) by (fastforce simp: protected_entry_def recently_used_def)
  next
    assume "ce_kind e = TreeEntry \<and> ce_digest e \<notin> set (bs_of_list (concat (map srs_tree_digests refs))) \<and>
      (\<exists>m. (ce_digest e, m) \<in> set trees \<and> ce_last_referenced_at e = bm_last_referenced_at m
         \<and> (bm_last_referenced_at m \<le> ?hard \<or> bm_last_referenced_at m \<le> ?grace))"
    then obtain m where "ce_kind e = TreeEntry" "(ce_digest e, m) \<in> set trees"
      "ce_digest e \<notin> set (concat (map srs_tree_digests refs))" "bm_last_referenced_at m \<le> ?hard \<or> bm_last_referenced_at m \<le> ?grace"
      by auto
    moreover from this have "load_tree_metadata env (ce_digest e) fs = (Inr m, fs)"
      using l(2) by (auto simp: listed_trees_def)
    ultimately show ?thesis
      using load_metadata_ok(2) by (fastforce simp: protected_entry_def recently_used_def)
  qed
  then show "digest_ok (ce_digest e)" "\<not> protected_entry env config refs now fs e" by simp_all
qed

text \<open>The clean-up after the listings.\<close>

lemma cleanup_eq:
  assumes "list_blob_metadata env fs = (Inr blobs, fs)" "list_tree_metadata env fs = (Inr trees, fs)"
    "cleanup_scan config refs now blobs trees = (n, hs, es)"
  shows "cleanup_snapshot_storage_at env config refs now fs =
    (if n \<le> sc_snapshot_min_retained_bytes config then (Inr empty_summary, fs)
     else act_bind (delete_down_to env (sc_snapshot_min_retained_bytes config)
              (sort_key ce_last_referenced_at hs) (n, empty_summary)) (\<lambda>acc.
          act_bind (delete_down_to env (sc_snapshot_min_retained_bytes config)
              (sort_key ce_last_referenced_at es) acc) (\<lambda>(_, summary). act_return summary)) fs)"
  using assms by (simp add: cleanup_snapshot_storage_at_def Let_def act_bind_def [of "list_blob_metadata env"]
      act_bind_def [of "list_tree_metadata env"] cleanup_scan_def act_return_def)

lemma cleanup_failed_listing:
  assumes "\<nexists>blobs trees. list_blob_metadata env fs = (Inr blobs, fs) \<and> list_tree_metadata env fs = (Inr trees, fs)"
  shows "\<exists>e. cleanup_snapshot_storage_at env config refs now fs = (Inl e, fs)"
proof -
  obtain rb fs1 where b: "list_blob_metadata env fs = (rb, fs1)" by fastforce
  obtain rt fs2 where t: "list_tree_metadata env fs = (rt, fs2)" by fastforce
  have "fs1 = fs" "fs2 = fs"
    using keeps_run [OF keeps_list_metadata(1) b, of "\<lambda>s. s = fs"] keeps_run [OF keeps_list_metadata(2) t, of "\<lambda>s. s = fs"]
    by simp_all
  then show ?thesis
    using assms b t by (cases rb; cases rt) (auto simp: cleanup_snapshot_storage_at_def Let_def act_bind_def)
qed

text \<open>C14: the clean-up of the snapshot store never touches a protected entry, also when it fails
  half way: the contents, the compressed form and the metadata of every blob and tree that a
  staged workorder refers to, or that was used within the grace and hard-delete periods, are
  the same afterwards.\<close>

theorem cleanup_keeps_protected:
  assumes i: "store_inv env fs" and d: "digest_ok (ce_digest e)" and p: "protected_entry env config refs now fs e"
    and q: "q \<in> entry_files e"
  shows "fs_content q (snd (cleanup_snapshot_storage_at env config refs now fs)) = fs_content q fs"
proof (cases "\<exists>blobs trees. list_blob_metadata env fs = (Inr blobs, fs) \<and> list_tree_metadata env fs = (Inr trees, fs)")
  case True
  then obtain blobs trees where l: "list_blob_metadata env fs = (Inr blobs, fs)" "list_tree_metadata env fs = (Inr trees, fs)"
    by blast
  obtain n hs es where s: "cleanup_scan config refs now blobs trees = (n, hs, es)" by (metis prod_cases3)
  have out: "q \<notin> entry_files e'" if "e' \<in> set hs \<union> set es" for e'
  proof
    assume q': "q \<in> entry_files e'"
    note u = cleanup_scan_unprotected [OF s that list_blob_metadata_listed(2) [OF l(1)] list_tree_metadata_listed(2) [OF l(2)]]
    show False using u(2) p entry_files_disjoint [OF d u(1) q q'] by (auto simp: protected_entry_def split: entry_kind.splits)
  qed
  have "keeps (holds_at env q (fs_content q fs))
      (act_bind (delete_down_to env (sc_snapshot_min_retained_bytes config)
              (sort_key ce_last_referenced_at hs) (n, empty_summary)) (\<lambda>acc.
          act_bind (delete_down_to env (sc_snapshot_min_retained_bytes config)
              (sort_key ce_last_referenced_at es) acc) (\<lambda>(_, summary). act_return summary)))"
    by (intro triple_rules keeps_delete_down_to out) (auto simp: out)
  from keepsD [OF this, of fs] i show ?thesis by (simp add: cleanup_eq [OF l s])
qed (use cleanup_failed_listing [of env fs config refs now] in auto)

section \<open>What the clean-up removes\<close>

text \<open>Entries in order, until the total is at or below the floor.\<close>

fun victims :: "nat \<Rightarrow> nat \<Rightarrow> cleanup_entry list \<Rightarrow> cleanup_entry list" where
  "victims min_bytes n [] = []"
| "victims min_bytes n (e # es) =
     (if n \<le> min_bytes then [] else e # victims min_bytes (n - ce_retained_bytes e) es)"

fun left_over :: "nat \<Rightarrow> nat \<Rightarrow> cleanup_entry list \<Rightarrow> nat" where
  "left_over min_bytes n [] = n"
| "left_over min_bytes n (e # es) =
     (if n \<le> min_bytes then n else left_over min_bytes (n - ce_retained_bytes e) es)"

lemma victims_append:
  "victims b n (es @ es') = victims b n es @ victims b (left_over b n es) es'"
  by (induction es arbitrary: n) (auto, (cases es', auto)+)

lemma delete_blob_gone:
  assumes i: "store_inv env fs" and d: "digest_ok d" and run: "delete_blob env d fs = (Inr x, fs')"
  shows "fs_content (blob_file d) fs' = None"
proof -
  from run d obtain m fs1 y fs2 where l: "load_blob_metadata env d fs = (m, fs1)"
    and r: "remove_file_if_exists env (blob_file d) fs1 = (Inr y, fs2)"
    and rest: "act_bind (case m of Inl _ \<Rightarrow> act_return ()
        | Inr m \<Rightarrow> act_each (\<lambda>encoding. act_bind (act_lift (encoded_blob_path d encoding)) (remove_file_if_exists env))
            (map fst (bm_encoded_variants m))) (\<lambda>_. remove_file_if_exists env (blob_meta_file d)) fs2 = (Inr x, fs')"
    by (auto simp: delete_blob_def act_match_def store_paths act_bind_def split: prod.splits sum.splits)
  have f: "fs1 = fs" by (rule load_metadata_same(1) [OF l])
  have 2: "holds_at env (blob_file d) None fs2"
  proof -
    have "fs_content (blob_file d) fs2 = None"
      using r unfolding f remove_file_if_exists_def act_match_def
      by (auto simp: act_Inr fs_remove_file_def fs_content_def fs_node_def split: prod.splits option.splits node.splits if_splits)
    moreover have "holds_at env (blob_zst_file d) (fs_content (blob_zst_file d) fs) fs2"
      using keeps_run [OF keeps_remove_if_exists r, of "blob_zst_file d" "fs_content (blob_zst_file d) fs"] i
      unfolding f using store_files_distinct(6) [OF d d] by metis
    ultimately show ?thesis by simp
  qed
  have k: "keeps (holds_at env (blob_file d) None) (act_bind (case m of Inl _ \<Rightarrow> act_return ()
        | Inr m \<Rightarrow> act_each (\<lambda>encoding. act_bind (act_lift (encoded_blob_path d encoding)) (remove_file_if_exists env))
            (map fst (bm_encoded_variants m))) (\<lambda>_. remove_file_if_exists env (blob_meta_file d)))"
    by (intro triple_rules keeps_remove_if_exists disjI2 refl)
  show ?thesis using keeps_run [OF k rest 2] ..
qed

lemma delete_tree_gone:
  assumes i: "store_inv env fs" and d: "digest_ok d" and run: "delete_tree env d fs = (Inr x, fs')"
  shows "fs_content (tree_file d) fs' = None"
proof -
  from run d obtain m fs1 y fs2 where l: "load_tree_metadata env d fs = (m, fs1)"
    and r: "remove_file_if_exists env (tree_file d) fs1 = (Inr y, fs2)"
    and rest: "act_bind (case m of Inl _ \<Rightarrow> act_return ()
        | Inr m \<Rightarrow> act_each (\<lambda>encoding. act_bind (act_lift (encoded_tree_path d encoding)) (remove_file_if_exists env))
            (map fst (bm_encoded_variants m))) (\<lambda>_. remove_file_if_exists env (tree_meta_file d)) fs2 = (Inr x, fs')"
    by (auto simp: delete_tree_def act_match_def store_paths act_bind_def split: prod.splits sum.splits)
  have f: "fs1 = fs" by (rule load_metadata_same(2) [OF l])
  have 2: "holds_at env (tree_file d) None fs2"
  proof -
    have "fs_content (tree_file d) fs2 = None"
      using r unfolding f remove_file_if_exists_def act_match_def
      by (auto simp: act_Inr fs_remove_file_def fs_content_def fs_node_def split: prod.splits option.splits node.splits if_splits)
    moreover have "holds_at env (tree_zst_file d) (fs_content (tree_zst_file d) fs) fs2"
      using keeps_run [OF keeps_remove_if_exists r, of "tree_zst_file d" "fs_content (tree_zst_file d) fs"] i
      unfolding f using store_files_distinct(9) [OF d d] by metis
    ultimately show ?thesis by simp
  qed
  have k: "keeps (holds_at env (tree_file d) None) (act_bind (case m of Inl _ \<Rightarrow> act_return ()
        | Inr m \<Rightarrow> act_each (\<lambda>encoding. act_bind (act_lift (encoded_tree_path d encoding)) (remove_file_if_exists env))
            (map fst (bm_encoded_variants m))) (\<lambda>_. remove_file_if_exists env (tree_meta_file d)))"
    by (intro triple_rules keeps_remove_if_exists disjI2 refl)
  show ?thesis using keeps_run [OF k rest 2] ..
qed

lemma delete_entry_gone:
  assumes "store_inv env fs" "digest_ok (ce_digest e)" "delete_cleanup_entry env e summary fs = (Inr s', fs')"
  shows "fs_content (raw_file e) fs' = None" "store_inv env fs'"
proof -
  show "fs_content (raw_file e) fs' = None"
    using assms delete_blob_gone [OF assms(1,2)] delete_tree_gone [OF assms(1,2)]
    by (cases "ce_kind e") (auto simp: delete_cleanup_entry_def raw_file_def act_Inr)
  have "keeps (holds_at env [] None) (delete_cleanup_entry env e summary)"
    by (rule keeps_delete_entry) simp
  from keeps_run [OF this assms(3)] assms(1) show "store_inv env fs'"
    by (simp add: fs_content_def fs_node_def)
qed

lemma raw_file_entry_files: "raw_file e \<in> entry_files e"
  by (simp add: raw_file_def entry_files_def split: entry_kind.split)

text \<open>A successful run deletes the victims and nothing else.\<close>

lemma delete_down_to_run:
  assumes "store_inv env fs" "\<And>e. e \<in> set es \<Longrightarrow> digest_ok (ce_digest e)" "digest_ok (ce_digest e')"
    and "delete_down_to env b es (n, summary) fs = (Inr (n', summary'), fs')"
  shows "store_inv env fs' \<and> n' = left_over b n es
    \<and> fs_content (raw_file e') fs'
        = (if \<exists>e\<in>set (victims b n es). ce_kind e = ce_kind e' \<and> ce_digest e = ce_digest e' then None
           else fs_content (raw_file e') fs)"
  using assms(1,2,4)
proof (induction es arbitrary: fs n summary)
  case (Cons e es)
  show ?case
  proof (cases "n \<le> b")
    case True
    then show ?thesis using Cons.prems by (simp add: act_Inr)
  next
    case False
    with Cons.prems(3) obtain s1 fs1 where
      e: "delete_cleanup_entry env e summary fs = (Inr s1, fs1)"
      and r: "delete_down_to env b es (n - ce_retained_bytes e, s1) fs1 = (Inr (n', summary'), fs')"
      by (auto simp: act_Inr)
    note d = delete_entry_gone [OF Cons.prems(1) Cons.prems(2) e]
    have IH: "store_inv env fs' \<and> n' = left_over b (n - ce_retained_bytes e) es
      \<and> fs_content (raw_file e') fs'
        = (if \<exists>e\<in>set (victims b (n - ce_retained_bytes e) es). ce_kind e = ce_kind e' \<and> ce_digest e = ce_digest e' then None
           else fs_content (raw_file e') fs1)"
      by (rule Cons.IH [OF d(2) Cons.prems(2) r]) simp_all
    show ?thesis
    proof (cases "ce_kind e = ce_kind e' \<and> ce_digest e = ce_digest e'")
      case True
      then have "raw_file e' = raw_file e" by (cases "ce_kind e'") (simp_all add: raw_file_def)
      then show ?thesis using IH d(1) True False by auto
    next
      case other: False
      have "raw_file e' \<notin> entry_files e"
        using entry_files_disjoint [OF Cons.prems(2) assms(3) _ raw_file_entry_files, of e] other by auto
      then have "fs_content (raw_file e') fs1 = fs_content (raw_file e') fs"
        using keeps_run [OF keeps_delete_entry e] Cons.prems(1) by blast
      then show ?thesis using IH False other by auto
    qed
  qed
qed (simp add: act_Inr)

lemma victims_all: "victims b n es = es \<or> left_over b n es \<le> b"
  by (induction es arbitrary: n) auto

lemma left_over_append: "left_over b n (es @ es') = left_over b (left_over b n es) es'"
  by (induction es arbitrary: n) (auto, (cases es', auto)+)


section \<open>Any sequence of operations\<close>

lemma store_inv_empty: "store_inv env empty_fs"
  by (simp add: store_inv_def empty_fs_def fs_wf_def hm_wf_def temp_free_def integrity_def unshared_def shallow_def
      fs_content_def fs_node_def store_files)

text \<open>What the server does with its state directory, and what happens outside the two stores:
  the container writes into the parity directory of its workorder.\<close>

inductive store_step :: "runtime_env \<Rightarrow> fs \<Rightarrow> fs \<Rightarrow> bool" for re where
  upload: "store_step re fs (snd (store_blob_for_digest (re_store re) now d bs fs))"
| normalize: "store_step re fs (snd (normalize_portage_config_snapshots (re_store re) now cfg fs))"
| stage: "(\<And>m fs1 fs2. effective_snapshot_manifest (re_store re) now (wo_portage_config wo) fs1 = (Inr m, fs2) \<Longrightarrow>
      distinct (staged_targets (runtime_dir re (wo_id wo)) m)) \<Longrightarrow>
    store_step re fs (snd (stage_workorder_runtime re now wo fs))"
| ingest_parity: "store_step re fs (snd (ingest_final_state_parity re now (runtime_dir re w) fs))"
| ingest_distfiles: "store_step re fs (snd (ingest_fetched_distfiles re now (runtime_dir re w) fs))"
| clear_runtime: "store_step re fs (snd (cleanup_runtime_dir re w fs))"
| clean_up: "store_step re fs (snd (cleanup_snapshot_storage_at (re_store re) config refs now fs))"
| outside: "outside_store fs fs' \<Longrightarrow> store_step re fs fs'"

lemma cleanup_store_inv:
  assumes "store_inv env fs"
  shows "store_inv env (snd (cleanup_snapshot_storage_at env config refs now fs))"
proof -
  have "keeps (holds_at env [] None) (delete_down_to env b es acc)" for b es acc
    by (rule keeps_delete_down_to) (auto simp: entry_files_def store_files split: entry_kind.splits)
  then have "keeps (holds_at env [] None) (cleanup_snapshot_storage_at env config refs now)"
    unfolding cleanup_snapshot_storage_at_def Let_def by (auto intro!: triple_rules split: prod.splits)
  from keepsD [OF this, of fs] assms show ?thesis by (simp add: fs_content_def fs_node_def)
qed

lemma clear_runtime_store_inv:
  assumes "store_inv env fs"
  shows "store_inv env (snd (cleanup_runtime_dir re w fs))"
proof -
  have "keeps (store_inv env) (fs_remove_dir_all p)" for p
  proof (rule keepsI)
    fix fs
    assume i: "store_inv env fs"
    show "store_inv env (snd (fs_remove_dir_all p fs))"
      using remove_dir_all_cases [of p fs] store_inv_removes [OF i] i by auto
  qed
  then have "keeps (store_inv env) (cleanup_runtime_dir re w)"
    unfolding cleanup_runtime_dir_def by (intro triple_rules)
  from keepsD [OF this assms] show ?thesis .
qed

lemma store_step_inv: "store_step re fs fs' \<Longrightarrow> store_inv (re_store re) fs \<Longrightarrow> store_inv (re_store re) fs'"
proof (induction rule: store_step.induct)
  case (upload fs now d bs)
  then show ?case using keepsD [OF store_laws.keeps_store_blob_for_digest, of "re_store re" fs] by simp
next
  case (normalize fs now cfg)
  then show ?case using keepsD [OF store_laws.keeps_normalize, of "re_store re" fs] by simp
next
  case (stage now wo fs)
  then show ?case using stage_keeps_store by blast
next
  case (ingest_parity fs now w)
  then show ?case using keepsD [OF store_laws.keeps_ingest(1) [where re = re, OF refl], of fs] by simp
next
  case (ingest_distfiles fs now w)
  then show ?case using keepsD [OF store_laws.keeps_ingest(2) [where re = re, OF refl], of fs] by simp
next
  case (clear_runtime fs w)
  then show ?case by (simp add: clear_runtime_store_inv)
next
  case (clean_up fs config refs now)
  then show ?case by (simp add: cleanup_store_inv)
next
  case (outside fs fs')
  from outside.hyps show ?case
    by (intro store_inv_outside [OF outside.prems]) (auto simp: outside_store_def)
qed

interpretation store_machine: invariant "\<lambda>fs. fs = empty_fs" "store_step re" "store_inv (re_store re)"
  by unfold_locales (auto simp: store_inv_empty store_step_inv)

section \<open>Uploads\<close>

text \<open>C16: the contract of an upload.  Bytes that do not hash to the digest of the request, or a
  digest that is not one, are refused and nothing is written; a success reports the digest, and
  a blob of that digest is there, new exactly when the answer says so; and the upload, successful
  or not, changes no blob that was stored before.\<close>

theorem upload_contract:
  assumes l: "se_hard_link env \<noteq> Some EEXIST" and i: "store_inv env fs"
    and run: "store_blob_for_digest env now d bs fs = (r, fs')"
  shows "(digest_ok d \<and> se_sha256 env bs = d \<or> isl r \<and> fs' = fs)
    \<and> (\<forall>res. r = Inr res \<longrightarrow> sb_digest (vr_blob res) = d \<and> vr_uploaded res = (fs_node (blob_file d) fs = None)
         \<and> (\<exists>c. fs_content (blob_file d) fs' = Some c \<and> se_sha256 env c = d))
    \<and> (\<forall>d' c. digest_ok d' \<and> fs_content (blob_file d') fs = Some c \<longrightarrow> fs_content (blob_file d') fs' = Some c)"
proof (intro conjI allI impI)
  show "digest_ok d \<and> se_sha256 env bs = d \<or> isl r \<and> fs' = fs"
    using store_blob_for_digest_refused [where d = d and env = env and now = now and bs = bs and fs = fs] run by (cases "digest_ok d") auto
next
  fix res
  assume "r = Inr res"
  note ok = store_blob_for_digest_spec [OF l i run [unfolded this]]
  show "sb_digest (vr_blob res) = d" "vr_uploaded res = (fs_node (blob_file d) fs = None)"
    using ok(4,5) by simp_all
  from ok(1) obtain c where c: "fs_content (blob_file d) fs' = Some c" by blast
  moreover have "se_sha256 env c = d"
    using store_invD(3) [OF conjunct1 [OF ok(1)]] ok(2) c by (auto simp: integrity_def)
  ultimately show "\<exists>c. fs_content (blob_file d) fs' = Some c \<and> se_sha256 env c = d" by blast
next
  fix d' c
  assume "digest_ok d' \<and> fs_content (blob_file d') fs = Some c"
  then show "fs_content (blob_file d') fs' = Some c"
    using keeps_run [OF store_frame.keeps_store_blob_for_digest [OF blob_frame] run] i by blast
qed

section \<open>Names of staged files\<close>

definition safe_name :: "string \<Rightarrow> bool" where
  "safe_name n \<longleftrightarrow> n \<noteq> [] \<and> n \<noteq> ''.'' \<and> n \<noteq> ''..'' \<and> CHR ''/'' \<notin> set n"

lemma path_components_normal:
  assumes "Normal n \<in> set (path_components s)"
  shows "safe_name n"
proof -
  have "n \<in> set (split_on (CHR ''/'') s)" "n \<noteq> []" "n \<noteq> ''.''" "n \<noteq> ''..''"
    using assms split_on_not_Nil [of "CHR ''/''" s]
    by (auto simp: path_components_def Let_def split: if_splits intro: list.set_sel)
  then show ?thesis using split_on_pieces by (auto simp: safe_name_def)
qed

lemma normal_names_set: "normal_names cs = Some ns \<Longrightarrow> cs = map Normal ns"
  by (induction cs arbitrary: ns rule: normal_names.induct) auto


section \<open>A sample store\<close>

text \<open>A store with one blob, last used on day zero.\<close>

definition sample_stored :: fs where
  "sample_stored =
     \<lparr> fs_tree = [([''blobs''], Dir), ([''blobs'', ''00''], Dir), (blob_file (sample_sha256 [1]), File 0),
         (blob_meta_file (sample_sha256 [1]), File 2)],
       fs_inodes = [(0, [1]), (1, [1, 0]), (2, [1, 0])], fs_next = 3 \<rparr>"

definition sample_blob_entry :: cleanup_entry where
  "sample_blob_entry = \<lparr> ce_kind = BlobEntry, ce_digest = sample_sha256 [1], ce_last_referenced_at = 0,
     ce_retained_bytes = 1 \<rparr>"

definition sample_cleanup_config :: server_config where
  "sample_cleanup_config = server_config_default\<lparr> sc_snapshot_min_retained_bytes := 0 \<rparr>"

definition sample_references :: snapshot_reference_set where
  "sample_references = \<lparr> srs_blob_digests = [sample_sha256 [1]], srs_tree_digests = [], srs_total_blob_bytes = 1,
     srs_total_tree_bytes = 0, srs_last_referenced_at = 0 \<rparr>"

lemma sample_digest: "digest_ok (sample_sha256 [1])"
  by code_simp

lemma sample_upload: "snd (store_blob_for_digest sample_store_env 0 (sample_sha256 [1]) [1] empty_fs) = sample_stored"
  by code_simp

lemma sample_stored_reachable: "reachable (\<lambda>fs. fs = empty_fs) (store_step sample_runtime_env) sample_stored"
proof (rule reachable.next_step)
  show "reachable (\<lambda>fs. fs = empty_fs) (store_step sample_runtime_env) empty_fs" by (rule reachable.start) simp
  show "store_step sample_runtime_env empty_fs sample_stored"
    using store_step.upload [of sample_runtime_env empty_fs 0 "sample_sha256 [1]" "[1]"]
    by (simp add: sample_runtime_env_def sample_upload)
qed

lemma sample_stored_inv: "store_inv sample_store_env sample_stored"
  using store_machine.reachable_inv [OF sample_stored_reachable] by (simp add: sample_runtime_env_def)

lemma sample_contents: "fs_content (blob_file (sample_sha256 [1])) sample_stored = Some [1]"
  by (simp add: fs_content_def fs_node_def sample_stored_def store_files)

lemma sample_listed:
  "list_blob_metadata sample_store_env sample_stored = (Inr [(sample_sha256 [1], \<lparr> bm_canonical_digest = sample_sha256 [1],
     bm_raw_size_bytes = 1, bm_last_referenced_at = 0, bm_encoded_variants = [] \<rparr>)], sample_stored)"
  by code_simp

lemma sample_listed_trees: "list_tree_metadata sample_store_env sample_stored = (Inr [], sample_stored)"
  by code_simp

lemma sample_scan:
  "cleanup_scan sample_cleanup_config [] (10 * a_day) [(sample_sha256 [1], \<lparr> bm_canonical_digest = sample_sha256 [1],
     bm_raw_size_bytes = 1, bm_last_referenced_at = 0, bm_encoded_variants = [] \<rparr>)] [] = (1, [], [sample_blob_entry])"
  by code_simp

lemma sample_cleaned:
  "map_option snd (case cleanup_snapshot_storage_at sample_store_env sample_cleanup_config [] (10 * a_day) sample_stored of
      (Inr summary, fs) \<Rightarrow> Some (fs, summary) | _ \<Rightarrow> None)
   = Some \<lparr> scs_deleted_blobs = 1, scs_deleted_trees = 0, scs_reclaimed_bytes = 1 \<rparr>"
  by code_simp

text \<open>Witnesses of the two theorems on the clean-up: with a reference the blob stays, without it
  the blob goes once its grace period is over.\<close>

theorem cleanup_keeps_protected_witness:
  "fs_content (blob_file (sample_sha256 [1])) (snd (cleanup_snapshot_storage_at sample_store_env sample_cleanup_config
     [sample_references] (10 * a_day) sample_stored)) = Some [1]"
  using cleanup_keeps_protected [OF sample_stored_inv, of sample_blob_entry sample_cleanup_config "[sample_references]"
      "10 * a_day" "blob_file (sample_sha256 [1])"] sample_digest sample_contents
  by (simp add: sample_blob_entry_def sample_references_def protected_entry_def entry_files_def)


theorem upload_contract_witness:
  "\<exists>e. store_blob_for_digest sample_store_env 0 (sample_sha256 [1]) [1, 2] sample_stored = (Inl e, sample_stored)"
proof -
  obtain r fs' where r: "store_blob_for_digest sample_store_env 0 (sample_sha256 [1]) [1, 2] sample_stored = (r, fs')"
    by fastforce
  have "se_hard_link sample_store_env \<noteq> Some EEXIST" by (simp add: sample_store_env_def)
  from upload_contract [OF this sample_stored_inv r] have "isl r" "fs' = sample_stored"
    by (simp_all add: sample_store_env_def sample_sha256_def)
  with r show ?thesis by (auto simp: isl_def)
qed


section \<open>Two names of one file\<close>

definition sample_blobs :: fs where
  "sample_blobs =
     \<lparr> fs_tree = [([''blobs''], Dir), ([''blobs'', ''00''], Dir), (blob_file (sample_sha256 [1]), File 0),
         (blob_file (sample_sha256 [1, 2]), File 1)],
       fs_inodes = [(0, [1]), (1, [1, 2])], fs_next = 2 \<rparr>"

definition sample_aliased :: repo_snapshot_manifest where
  "sample_aliased =
     \<lparr> rsm_tree_digest = [],
       rsm_entries =
         [(''a//b'', \<lparr> se_digest = sample_sha256 [1], se_size = 1, se_mtime_secs = 0 \<rparr>),
          (''a/b'', \<lparr> se_digest = sample_sha256 [1, 2], se_size = 2, se_mtime_secs = 0 \<rparr>)] \<rparr>"


end
