(* ===== verification/Server_Store.thy ===== *)
theory Server_Store
  imports Store_Properties Server_Properties
begin

text \<open>
  What the whole server does to its snapshot store: every step of the concurrent server is a
  sequence of operations of the store, so what the store keeps, the server keeps.
\<close>

section \<open>The store under each part\<close>

named_theorems store_effects

lemma small_store [store_effects]:
  "st_store (send e s) = st_store s"
  "st_store (set_workorder_status io now w t st s) = st_store s"
  "st_store (build_ended n s) = st_store s"
  "st_store (count_failed s) = st_store s" "st_store (count_completed s) = st_store s"
  "st_store (insert_result w r s) = st_store s"
  "st_store (stop_on_timeout x c s) = st_store s"
  "st_store (acquire_permit s) = st_store s" "st_store (release_permit s) = st_store s"
  "st_store (save_submission io s) = st_store s" "st_store (enqueue wo s) = st_store s"
  "st_store (periodic_save j u s) = st_store s"
  "st_store (track_staged_workorder_references w refs s) = st_store s"
  "st_store (create_stdin_channel w s) = st_store s"
  by (simp_all add: send_def set_workorder_status_def build_ended_def count_failed_def count_completed_def
      insert_result_def stop_on_timeout_def acquire_permit_def release_permit_def save_submission_def enqueue_def
      create_progress_channel_def periodic_save_def track_staged_workorder_references_def create_stdin_channel_def
      Let_def split: option.split)

lemma cleanup_store [store_effects]:
  "st_store (cleanup_workorder_runtime io a wo w c s) = snd (cleanup_runtime_dir (io_runtime io) w (st_store s))"
  by (simp add: cleanup_workorder_runtime_def clear_staged_workorder_references_def
      remove_workorder_channels_def Let_def split: option.split)

lemma finish_store [store_effects]:
  "st_store (finish_success io now wo b f x y d p s) = st_store s"
  "st_store (finish_failure io now wo b f r d p s) = st_store s"
  by (simp_all add: finish_success_def finish_failure_def store_effects Let_def)

lemma fail_store [store_effects]:
  "st_store (fail_before_start io a now wo r n s) = snd (cleanup_runtime_dir (io_runtime io) (wo_id wo) (st_store s))"
  "st_store (fail_ingest io a now wo r p c n s) = snd (cleanup_runtime_dir (io_runtime io) (wo_id wo) (st_store s))"
  by (simp_all add: fail_before_start_def fail_ingest_def store_effects Let_def)

lemma drain_store:
  assumes "drain_events now wo es s = (b, f, s')"
  shows "st_store s' = st_store s"
proof -
  have "st_store (snd (snd (fold (drain_event now wo) es acc))) = st_store (snd (snd acc))" for acc
    by (induction es arbitrary: acc)
      (auto simp: drain_event_def store_effects Let_def split: prod.split worker_event.split)
  from this [of "([], [], s)"] assms show ?thesis by (simp add: drain_events_def)
qed

section \<open>Steps of the server as steps of the store\<close>

definition one_name_per_file :: "runtime_env \<Rightarrow> workorder \<Rightarrow> bool" where
  "one_name_per_file re wo \<longleftrightarrow> (\<forall>now m fs fs'.
     effective_snapshot_manifest (re_store re) now (wo_portage_config wo) fs = (Inr m, fs') \<longrightarrow>
     distinct (staged_targets (runtime_dir re (wo_id wo)) m))"

abbreviation store_moves :: "io_env \<Rightarrow> app_state \<Rightarrow> app_state \<Rightarrow> bool" where
  "store_moves io s s' \<equiv> (store_step (io_runtime io))\<^sup>*\<^sup>* (st_store s) (st_store s')"

lemma store_moves_clear:
  assumes "(store_step re)\<^sup>*\<^sup>* fs fs1"
  shows "(store_step re)\<^sup>*\<^sup>* fs (snd (cleanup_runtime_dir re w fs1))"
  by (rule rtranclp.rtrancl_into_rtrancl [OF assms store_step.clear_runtime])

lemma process_stage_moves:
  assumes "one_name_per_file (io_runtime io) wo"
  shows "store_moves io s (snd (process_stage io a now wo n s))"
proof -
  obtain r fs where r: "stage_workorder_runtime (io_runtime io) now wo (st_store s) = (r, fs)" by fastforce
  have "store_step (io_runtime io) (st_store s) fs"
    using store_step.stage [where re = "io_runtime io" and now = now and wo = wo and fs = "st_store s"] assms r
    unfolding one_name_per_file_def by fastforce
  then have m: "(store_step (io_runtime io))\<^sup>*\<^sup>* (st_store s) fs" by blast
  show ?thesis
    using m store_moves_clear [OF m, of "wo_id wo"] r
    by (cases r) (simp_all add: process_stage_def store_effects Let_def)
qed

lemma process_finish_moves: "store_moves io s (process_finish io a now wo c inp s)"
proof -
  define s1 where "s1 = stop_on_timeout (fi_wait inp) c s"
  define s2 where "s2 = s1\<lparr> st_raw_output_txs := hm_remove (wo_id wo) (st_raw_output_txs s1) \<rparr>"
  define dir where "dir = runtime_dir (io_runtime io) (wo_id wo)"
  obtain b f s3 where d: "drain_events now wo (fi_events inp) s2 = (b, f, s3)" by (metis prod_cases3)
  have s3: "st_store s3 = st_store s" using drain_store [OF d] by (simp add: s2_def s1_def store_effects)
  note finish = process_finish_def Let_def s1_def [symmetric] s2_def [symmetric] dir_def [symmetric] d
  obtain rp p1 where p: "ingest_final_state_parity (io_runtime io) now dir (st_store s3) = (rp, p1)" by fastforce
  obtain rd p2 where q: "ingest_fetched_distfiles (io_runtime io) now dir p1 = (rd, p2)" by fastforce
  have 1: "(store_step (io_runtime io))\<^sup>*\<^sup>* (st_store s) p1"
    using store_step.ingest_parity [of "io_runtime io" "st_store s" now "wo_id wo"] p by (auto simp: s3 dir_def)
  have "store_step (io_runtime io) p1 p2"
    using store_step.ingest_distfiles [of "io_runtime io" p1 now "wo_id wo"] q by (simp add: dir_def)
  with 1 have 2: "(store_step (io_runtime io))\<^sup>*\<^sup>* (st_store s) p2" by (rule rtranclp.rtrancl_into_rtrancl)
  show ?thesis
  proof (cases rp)
    case (Inl e)
    then show ?thesis using p store_moves_clear [OF 1] by (simp add: finish store_effects)
  next
    case (Inr pm)
    then show ?thesis
      using p q store_moves_clear [OF 2] by (cases rd) (simp_all add: finish store_effects split: sum.split)
  qed
qed

lemma task_step_moves:
  assumes "pc = TStage \<Longrightarrow> one_name_per_file (io_runtime io) wo"
  shows "store_moves io s (snd (task_step io inp wo pc s))"
proof (cases pc)
  case TStage
  then show ?thesis
    using process_stage_moves [OF assms, of s "ti_cleanup inp" "ti_now inp" "ti_secs inp"]
    by (cases "process_stage io (ti_cleanup inp) (ti_now inp) wo (ti_secs inp) s") (simp add: task_step_def)
next
  case (TWait c)
  then show ?thesis using process_finish_moves by (simp add: task_step_def)
next
  case TImage
  then show ?thesis
    by (auto simp: task_step_def process_image_def store_effects Let_def split: sum.split
        intro: store_moves_clear)
next
  case TStart
  then show ?thesis
    by (auto simp: task_step_def process_start_def store_effects Let_def split: sum.split
        intro: store_moves_clear)
qed (simp add: task_step_def process_begin_def Let_def)

text \<open>Staging finds no manifest that names one file twice.\<close>

definition tidy :: "submit_env \<Rightarrow> world \<Rightarrow> bool" where
  "tidy env wd \<longleftrightarrow> (\<forall>t\<in>set (wd_tasks wd). snd t = TStage \<longrightarrow> one_name_per_file (io_runtime (sv_io env)) (fst t))"

lemma run_step_moves:
  assumes "run_step env wd wd'" "tidy env wd"
  shows "store_moves (sv_io env) (wd_state wd) (wd_state wd')"
  using assms
proof (induction rule: run_step.induct)
  case (submit w wd now ctx headers req)
  let ?re = "io_runtime (sv_io env)"
  obtain r fs where n: "normalize_portage_config_snapshots (re_store ?re) now (sr_portage_config req)
      (st_store (wd_state wd)) = (r, fs)" by fastforce
  have "store_step ?re (st_store (wd_state wd)) fs"
    using store_step.normalize [of ?re "st_store (wd_state wd)" now "sr_portage_config req"] n by simp
  then have "(store_step ?re)\<^sup>*\<^sup>* (st_store (wd_state wd)) fs" by blast
  then show ?case
    by (auto simp: submit_workorder_def n store_effects Let_def split: sum.split prod.split)
next
  case (cancel wd now headers w)
  then show ?case
    by (auto simp: cancel_workorder_def apply_cancel_def store_effects Let_def split: sum.split option.split)
next
  case (evict wd now)
  show ?case by (simp add: evict_workorders_def Let_def fold_evict_fields)
next
  case (upload wd now digest bytes)
  show ?case using store_step.upload [of "io_runtime (sv_io env)" "st_store (wd_state wd)" now digest bytes] by auto
next
  case (snapshot_cleanup wd now)
  obtain r fs where c: "cleanup_snapshot_storage_at (re_store (io_runtime (sv_io env))) (st_config (wd_state wd))
      (map snd (st_staged_references (wd_state wd))) now (st_store (wd_state wd)) = (r, fs)" by fastforce
  then have "store_step (io_runtime (sv_io env)) (st_store (wd_state wd)) fs"
    using store_step.clean_up [of "io_runtime (sv_io env)" "st_store (wd_state wd)" "st_config (wd_state wd)"
        "map snd (st_staged_references (wd_state wd))" now] by simp
  then show ?case by (auto simp: snapshot_cleanup_def c Let_def split: sum.split)
next
  case (worker_output wd store)
  then show ?case using store_step.outside by auto
next
  case (claimed wd wo now s')
  then show ?case by (auto simp: claim_def store_effects Let_def split: option.splits if_splits)
next
  case (not_claimed wd wo now s')
  then show ?case using claim_refused by fastforce
next
  case (task_goes wd ts wo pc ts' inp pc' s')
  then show ?case
    using task_step_moves [of pc "sv_io env" wo "wd_state wd" inp] by (simp add: tidy_def)
next
  case (task_ends wd ts wo pc ts' inp s')
  then show ?case
    using task_step_moves [of pc "sv_io env" wo "wd_state wd" inp] by (simp add: tidy_def store_effects)
next
  case (task_panics wd ts wo pc ts' inp s')
  then show ?case
    using task_step_moves [of pc "sv_io env" wo "wd_state wd" inp] by (simp add: tidy_def store_effects)
qed (simp_all add: store_effects)

section \<open>The store of a running server\<close>

lemma store_moves_inv:
  assumes "(store_step re)\<^sup>*\<^sup>* fs fs'" "store_inv (re_store re) fs"
  shows "store_inv (re_store re) fs'"
  using assms by (induction rule: rtranclp_induct) (auto simp: store_step_inv)

inductive started_empty :: "submit_env \<Rightarrow> world \<Rightarrow> bool" for env where
  "started env wd \<Longrightarrow> st_store (wd_state wd) = empty_fs \<Longrightarrow> started_empty env wd"

inductive tidy_step :: "submit_env \<Rightarrow> world \<Rightarrow> world \<Rightarrow> bool" for env where
  "step env wd wd' \<Longrightarrow> tidy env wd \<Longrightarrow> tidy_step env wd wd'"

interpretation server_store: invariant "started_empty env" "tidy_step env"
  "\<lambda>wd. store_inv (re_store (io_runtime (sv_io env))) (st_store (wd_state wd))"
proof
  fix wd
  assume "started_empty env wd"
  then show "store_inv (re_store (io_runtime (sv_io env))) (st_store (wd_state wd))"
    by cases (simp add: store_inv_empty)
next
  fix wd wd'
  assume "tidy_step env wd wd'" and i: "store_inv (re_store (io_runtime (sv_io env))) (st_store (wd_state wd))"
  then have "step env wd wd'" "tidy env wd" by (auto elim: tidy_step.cases)
  then show "store_inv (re_store (io_runtime (sv_io env))) (st_store (wd_state wd'))"
  proof cases
    case running
    then show ?thesis using run_step_moves \<open>tidy env wd\<close> store_moves_inv [OF _ i] by blast
  next
    case restart
    then show ?thesis using i by (simp add: boot_state app_state_new_def Let_def)
  qed
qed

text \<open>C13: the server keeps its snapshot store intact: under every interleaving of uploads,
  submissions, builds, clean-ups and restarts, with operations that fail half way, the contents of
  every blob and every tree hash to its name, as long as no workorder that is staged has a
  manifest that names one file twice.\<close>

theorem server_store_intact:
  assumes "reachable (started_empty env) (tidy_step env) wd" and "digest_ok d"
    and "fs_content (blob_file d) (st_store (wd_state wd)) = Some bs
      \<or> fs_content (tree_file d) (st_store (wd_state wd)) = Some bs"
  shows "se_sha256 (re_store (io_runtime (sv_io env))) bs = d"
  using store_invD(3) [OF server_store.reachable_inv [OF assms(1)]] assms(2,3) by (auto simp: integrity_def)

definition sample_uploaded :: world where
  "sample_uploaded = sample_boot\<lparr> wd_state := (wd_state sample_boot)\<lparr> st_store := sample_stored \<rparr> \<rparr>"

theorem server_store_intact_witness:
  "fs_content (blob_file (sample_sha256 [1])) (st_store (wd_state sample_uploaded)) = Some [1]
   \<and> se_sha256 sample_store_env [1] = sample_sha256 [1]"
proof -
  have io: "re_store (io_runtime (sv_io sample_env)) = sample_store_env"
    by (simp add: sample_env_def sample_runtime_env_def)
  have fs: "st_store (wd_state sample_boot) = empty_fs"
    by (simp add: sample_boot_def boot_state app_state_new_def Let_def)
  have "run_step sample_env sample_boot sample_uploaded"
    using run_step.upload [of sample_env sample_boot 0 "sample_sha256 [1]" "[1]"]
    by (simp add: io fs sample_upload sample_uploaded_def)
  moreover have "tidy sample_env sample_boot" by (simp add: tidy_def sample_boot_def boot_state)
  ultimately have r: "reachable (started_empty sample_env) (tidy_step sample_env) sample_uploaded"
    using sample_boot_started fs
    by (meson reachable.intros started_empty.intros tidy_step.intros step.running)
  have c: "fs_content (blob_file (sample_sha256 [1])) (st_store (wd_state sample_uploaded)) = Some [1]"
    by (simp add: sample_uploaded_def sample_contents)
  with server_store_intact [OF r sample_digest disjI1 [OF c]] show ?thesis by (simp add: io)
qed

end
