(* ===== verification/Blob_Upload.thy ===== *)
theory Blob_Upload
imports Chunk_Frame Snapshot_Runtime Server_Api
begin

text \<open>The transport of snapshot blobs of \<open>api.rs\<close>: the queries and the plain upload and download
  over HTTP, and the resumable upload over a WebSocket.  A WebSocket upload keeps its session on
  disk: the bytes received so far in a part file and the negotiated sizes in a JSON file.  The
  connection is the list of the messages that arrive on it; the messages it sends are collected, and
  a parameter says which of the sends fail.\<close>

section \<open>Messages (types/api.rs)\<close>

record find_missing_blobs_request =
  fm_digests :: "string list"

record find_missing_blobs_response =
  fm_missing_digests :: "string list"

record upload_blob_response =
  ub_digest :: string
  ub_uploaded :: bool

record snapshot_blob_encoding_offer =
  eo_encoding :: string
  eo_size_bytes :: nat

record upload_init =
  ui_version :: byte
  ui_workorder_id :: uuid
  ui_digest :: string
  ui_total_size_bytes :: nat
  ui_chunk_size_bytes :: nat
  ui_capability_flags :: "string list"
  ui_offered_encodings :: "snapshot_blob_encoding_offer list"

text \<open>Every message has the protocol version as its first field.\<close>

datatype server_control_message =
    UploadResume byte uuid string (next_offset_bytes: nat) (next_sequence: nat) "string option" nat
  | UploadAck byte uuid string nat nat nat nat
  | UploadComplete byte uuid string bool
  | UploadError byte "uuid option" "string option" string string

fun chunk_frame_error_display :: "chunk_frame_error \<Rightarrow> string" where
  "chunk_frame_error_display (FrameTooShort expected actual) =
     ''chunk frame too short: expected at least '' @ show_nat expected @ '' bytes, got '' @ show_nat actual"
| "chunk_frame_error_display InvalidMagic = ''invalid chunk frame magic''"
| "chunk_frame_error_display (UnsupportedVersion v) = ''unsupported chunk frame version '' @ show_nat (unat v)"
| "chunk_frame_error_display (UnsupportedFlags f) = ''unsupported chunk frame flags '' @ show_nat (unat f)"
| "chunk_frame_error_display NonZeroReserved = ''reserved chunk frame bytes must be zero''"
| "chunk_frame_error_display (PayloadSizeMismatch declared actual) =
     ''chunk payload size mismatch: header says '' @ show_nat (unat declared) @ '' bytes, frame has ''
       @ show_nat actual"
| "chunk_frame_error_display (ChecksumMismatch expected actual) =
     ''chunk payload checksum mismatch: expected '' @ show_nat (unat expected) @ '', got ''
       @ show_nat (unat actual)"
| "chunk_frame_error_display PayloadTooLarge = ''chunk payload too large to encode''"

section \<open>Queries, upload and download over HTTP\<close>

definition bad_request :: "anyhow \<Rightarrow> http_error" where
  "bad_request e = (400, anyhow_display e)"

fun missing_of :: "string list \<Rightarrow> string list fs_action" where
  "missing_of [] = act_return []"
| "missing_of (digest # digests) =
     act_bind (has_blob digest) (\<lambda>present.
     act_bind (missing_of digests) (\<lambda>missing.
     act_return (if present then missing else digest # missing)))"

definition find_missing_blobs ::
    "header_map \<Rightarrow> find_missing_blobs_request \<Rightarrow> app_state
     \<Rightarrow> (http_error + find_missing_blobs_response) \<times> app_state" where
  "find_missing_blobs headers req s =
     (case require_snapshot_auth s headers of
        Inl e \<Rightarrow> (Inl e, s)
      | Inr _ \<Rightarrow>
          (case missing_of (fm_digests req) (st_store s) of
             (Inl e, _) \<Rightarrow> (Inl (bad_request e), s)
           | (Inr missing, _) \<Rightarrow>
               (Inr \<lparr> fm_missing_digests = missing \<rparr>,
                s\<lparr> st_metrics := record_snapshot_missing_blob_query
                     (length (fm_digests req)) (length missing) (st_metrics s) \<rparr>)))"

definition upload_blob ::
    "store_env \<Rightarrow> timestamp \<Rightarrow> header_map \<Rightarrow> string \<Rightarrow> bytes \<Rightarrow> app_state
     \<Rightarrow> (http_error + upload_blob_response) \<times> app_state" where
  "upload_blob env now headers digest body s =
     (case require_snapshot_auth s headers of
        Inl e \<Rightarrow> (Inl e, s)
      | Inr _ \<Rightarrow>
          (case store_blob_for_digest env now digest body (st_store s) of
             (Inl e, fs) \<Rightarrow> (Inl (bad_request e), s\<lparr> st_store := fs \<rparr>)
           | (Inr stored, fs) \<Rightarrow>
               (Inr \<lparr> ub_digest = sb_digest (vr_blob stored), ub_uploaded = vr_uploaded stored \<rparr>,
                s\<lparr> st_store := fs,
                   st_metrics := record_snapshot_blob_upload (word_of_nat (length body))
                     (vr_uploaded stored) (st_metrics s) \<rparr>)))"

text \<open>The answer is the content encoding and the body.\<close>

definition serve_blob :: "bytes \<Rightarrow> string option \<Rightarrow> app_state \<Rightarrow> (http_error + string option \<times> bytes) \<times> app_state" where
  "serve_blob bytes encoding s =
     (Inr (encoding, bytes),
      s\<lparr> st_metrics := record_snapshot_blob_download (word_of_nat (length bytes)) (st_metrics s) \<rparr>)"

definition read_failure :: "store_env \<Rightarrow> path \<Rightarrow> anyhow \<Rightarrow> http_error" where
  "read_failure env p e = (500, ''Failed to read '' @ display_path env p @ '': '' @ anyhow_display e)"

definition serve_raw ::
    "store_env \<Rightarrow> string \<Rightarrow> app_state \<Rightarrow> (http_error + string option \<times> bytes) \<times> app_state" where
  "serve_raw env digest s =
     (case blob_path digest of
        Inl e \<Rightarrow> (Inl (bad_request e), s)
      | Inr p \<Rightarrow>
          (case fst (fs_read p (st_store s)) of
             Inr bytes \<Rightarrow> serve_blob bytes None s
           | Inl e \<Rightarrow>
               (Inl (if is_not_found_error e then (404, ''Snapshot blob '' @ digest @ '' not found'')
                     else read_failure env p e), s)))"

definition download_blob ::
    "store_env \<Rightarrow> header_map \<Rightarrow> string \<Rightarrow> app_state
     \<Rightarrow> (http_error + string option \<times> bytes) \<times> app_state" where
  "download_blob env headers digest s =
     (case require_snapshot_auth s headers of
        Inl e \<Rightarrow> (Inl e, s)
      | Inr _ \<Rightarrow>
          if request_accepts_zstd headers
             \<and> (case fst (load_blob_metadata env digest (st_store s)) of
                  Inr metadata \<Rightarrow> map_of (bm_encoded_variants metadata) Zstd \<noteq> None
                | Inl _ \<Rightarrow> False)
          then (case encoded_blob_path digest Zstd of
                  Inl e \<Rightarrow> (Inl (bad_request e), s)
                | Inr p \<Rightarrow>
                    (case fst (fs_read p (st_store s)) of
                       Inr bytes \<Rightarrow> serve_blob bytes (Some ''zstd'') s
                     | Inl e \<Rightarrow> if is_not_found_error e then serve_raw env digest s
                               else (Inl (read_failure env p e), s)))
          else serve_raw env digest s)"

section \<open>Upload sessions on disk\<close>

record blob_upload_session =
  us_workorder_id :: uuid
  us_digest :: string
  us_raw_size_bytes :: nat
  us_stream_size_bytes :: nat
  us_chunk_size_bytes :: nat
  us_selected_encoding :: "string option"
  us_next_sequence :: nat
  us_received_bytes :: nat

record persisted_blob_upload_state =
  pu_digest :: string
  pu_raw_size_bytes :: nat
  pu_stream_size_bytes :: nat
  pu_chunk_size_bytes :: nat
  pu_selected_encoding :: "string option"
  pu_next_sequence :: nat
  pu_next_offset_bytes :: nat
  pu_received_bytes :: nat

text \<open>What the connection uses of libraries: the store, the checksum, the decompressor and the JSON
  codecs of the two messages; and whether the socket takes the k-th message sent on it.\<close>

record upload_env =
  ue_store :: store_env
  ue_adler32 :: "bytes \<Rightarrow> 32 word"
  ue_decode_zstd :: "bytes \<Rightarrow> string + bytes"
  ue_dec_init :: "string \<Rightarrow> string + upload_init"
  ue_enc_state :: "persisted_blob_upload_state \<Rightarrow> bytes"
  ue_dec_state :: "bytes \<Rightarrow> string + persisted_blob_upload_state"
  ue_sends :: "nat \<Rightarrow> bool"

definition BLOB_UPLOAD_SESSION_SUBDIR :: string where
  "BLOB_UPLOAD_SESSION_SUBDIR = ''blob-upload-sessions''"

definition blob_upload_session_dir :: path where
  "blob_upload_session_dir = [BLOB_UPLOAD_SESSION_SUBDIR]"

definition blob_upload_session_meta_path :: "string \<Rightarrow> path" where
  "blob_upload_session_meta_path digest = blob_upload_session_dir @ [digest @ ''.json'']"

definition blob_upload_session_part_path :: "string \<Rightarrow> path" where
  "blob_upload_session_part_path digest = blob_upload_session_dir @ [digest @ ''.part'']"

definition load_blob_upload_state ::
    "upload_env \<Rightarrow> string \<Rightarrow> persisted_blob_upload_state option fs_action" where
  "load_blob_upload_state ue digest =
     (let meta_path = blob_upload_session_meta_path digest in
      act_match (fs_read meta_path) (\<lambda>r. case r of
        Inr bytes \<Rightarrow>
          (case ue_dec_state ue bytes of
             Inr state \<Rightarrow> act_return (Some state)
           | Inl e \<Rightarrow> act_fail (with_context (''Failed to parse '' @ display_path (ue_store ue) meta_path) (bail e)))
      | Inl e \<Rightarrow>
          if is_not_found_error e then act_return None
          else act_fail (with_context (''Failed to read '' @ display_path (ue_store ue) meta_path) e)))"

definition create_session_dir :: "upload_env \<Rightarrow> unit fs_action" where
  "create_session_dir ue =
     in_context (''Failed to create '' @ display_path (ue_store ue) blob_upload_session_dir)
       (fs_create_dir_all blob_upload_session_dir)"

definition persist_blob_upload_state ::
    "upload_env \<Rightarrow> persisted_blob_upload_state \<Rightarrow> unit fs_action" where
  "persist_blob_upload_state ue state =
     (let env = ue_store ue;
          meta_path = blob_upload_session_meta_path (pu_digest state);
          temp_path = blob_upload_session_dir @ [pu_digest state @ ''.json.tmp-'' @ se_uuid env]
      in
      act_bind (create_session_dir ue) (\<lambda>_.
      act_bind (in_context (''Failed to write '' @ display_path env temp_path)
        (fs_write temp_path (ue_enc_state ue state))) (\<lambda>_.
      in_context (''Failed to persist '' @ display_path env meta_path) (fs_rename temp_path meta_path))))"

definition remove_blob_upload_state :: "upload_env \<Rightarrow> string \<Rightarrow> unit fs_action" where
  "remove_blob_upload_state ue digest =
     act_each (remove_file_if_exists (ue_store ue))
       [blob_upload_session_meta_path digest, blob_upload_session_part_path digest]"

definition debug_option :: "string option \<Rightarrow> string" where
  "debug_option x = (case x of None \<Rightarrow> ''None'' | Some s \<Rightarrow> ''Some('' @ path_debug s @ '')'')"

text \<open>The length of the part file, 0 when there is none.\<close>

definition part_length :: "upload_env \<Rightarrow> string \<Rightarrow> nat fs_action" where
  "part_length ue digest =
     (let part_path = blob_upload_session_part_path digest in
      act_match (fs_metadata part_path) (\<lambda>r. case r of
        Inr n \<Rightarrow> act_return n
      | Inl e \<Rightarrow>
          if is_not_found_error e then act_return 0
          else act_fail (with_context (''Failed to stat '' @ display_path (ue_store ue) part_path) e)))"

definition session_mismatch ::
    "string \<Rightarrow> nat \<Rightarrow> nat \<Rightarrow> nat \<Rightarrow> string option \<Rightarrow> persisted_blob_upload_state \<Rightarrow> string option" where
  "session_mismatch digest raw stream chunk encoding state =
     (let expects = (\<lambda>what a b. Some (''Upload session for '' @ digest @ '' expects '' @ what @ '' '' @ a
            @ '', got '' @ b))
      in if pu_raw_size_bytes state \<noteq> raw
           then expects ''raw size'' (show_nat (pu_raw_size_bytes state)) (show_nat raw)
         else if pu_stream_size_bytes state \<noteq> stream
           then expects ''stream size'' (show_nat (pu_stream_size_bytes state)) (show_nat stream)
         else if pu_chunk_size_bytes state \<noteq> chunk
           then expects ''chunk size'' (show_nat (pu_chunk_size_bytes state)) (show_nat chunk)
         else if pu_selected_encoding state \<noteq> encoding
           then expects ''encoding'' (debug_option (pu_selected_encoding state)) (debug_option encoding)
         else None)"

text \<open>The checks of the counters against the part file, and the counters of the resumed session.\<close>

definition resume_counters ::
    "string \<Rightarrow> nat \<Rightarrow> persisted_blob_upload_state \<Rightarrow> string + persisted_blob_upload_state" where
  "resume_counters digest received state =
     (let differs = pu_received_bytes state \<noteq> received \<or> pu_next_offset_bytes state \<noteq> received;
          state' = (if differs \<and> received = 0
                    then state\<lparr> pu_received_bytes := 0, pu_next_offset_bytes := 0, pu_next_sequence := 0 \<rparr>
                    else state)
      in if differs \<and> received \<noteq> 0
           then Inl (''Upload session for '' @ digest @ '' is inconsistent: metadata records offset ''
                  @ show_nat (pu_received_bytes state) @ '' / '' @ show_nat (pu_next_offset_bytes state)
                  @ '' but staged bytes total '' @ show_nat received)
         else if received > 0 \<and> pu_next_sequence state' = 0
           then Inl (''Upload session for '' @ digest
                  @ '' is missing exact resume sequence metadata at offset '' @ show_nat received)
         else Inr (state'\<lparr> pu_received_bytes := received, pu_next_offset_bytes := received \<rparr>))"

definition prepare_blob_upload_session ::
    "upload_env \<Rightarrow> string \<Rightarrow> nat \<Rightarrow> nat \<Rightarrow> nat \<Rightarrow> string option
     \<Rightarrow> persisted_blob_upload_state fs_action" where
  "prepare_blob_upload_session ue digest raw stream chunk encoding =
     act_bind (create_session_dir ue) (\<lambda>_.
     act_bind (load_blob_upload_state ue digest) (\<lambda>loaded.
     let state = unwrap_or
           \<lparr> pu_digest = digest, pu_raw_size_bytes = raw, pu_stream_size_bytes = stream,
             pu_chunk_size_bytes = chunk, pu_selected_encoding = encoding, pu_next_sequence = 0,
             pu_next_offset_bytes = 0, pu_received_bytes = 0 \<rparr> loaded
     in case session_mismatch digest raw stream chunk encoding state of
          Some msg \<Rightarrow> act_fail (bail msg)
        | None \<Rightarrow>
            act_bind (part_length ue digest) (\<lambda>received.
            if received > stream
            then act_bind (remove_blob_upload_state ue digest) (\<lambda>_.
                 act_fail (bail (''Upload session for '' @ digest @ '' exceeds declared size: ''
                   @ show_nat received @ '' > '' @ show_nat stream)))
            else case resume_counters digest received state of
                Inl msg \<Rightarrow> act_fail (bail msg)
              | Inr state' \<Rightarrow>
                  act_bind (persist_blob_upload_state ue state') (\<lambda>_. act_return state'))))"

text \<open>Opening for appending and writing: an existing file keeps its inode.\<close>

definition fs_append :: "path \<Rightarrow> bytes \<Rightarrow> unit fs_action" where
  "fs_append p bs fs =
     (case fs_node p fs of
        Some (File i) \<Rightarrow> fs_write p (unwrap_or [] (map_of (fs_inodes fs) i) @ bs) fs
      | _ \<Rightarrow> fs_write p bs fs)"

definition append_blob_upload_chunk ::
    "upload_env \<Rightarrow> string \<Rightarrow> nat \<Rightarrow> nat \<Rightarrow> nat \<Rightarrow> string option \<Rightarrow> bytes
     \<Rightarrow> persisted_blob_upload_state fs_action" where
  "append_blob_upload_chunk ue digest raw stream chunk encoding payload =
     act_bind (prepare_blob_upload_session ue digest raw stream chunk encoding) (\<lambda>state.
     let next_received = (pu_received_bytes state + length payload) mod 2 ^ 64;
         part_path = blob_upload_session_part_path digest
     in if next_received > stream
        then act_fail (bail (''Upload chunk would exceed declared size for '' @ digest @ '': ''
               @ show_nat next_received @ '' > '' @ show_nat stream))
        else if payload = [] \<and> next_received < stream
        then act_fail (bail (''Non-final chunk for '' @ digest @ '' must not be empty''))
        else
          act_bind (in_context (''Failed to open '' @ display_path (ue_store ue) part_path)
            (fs_append part_path payload)) (\<lambda>_.
          let state' = state\<lparr> pu_received_bytes := next_received, pu_next_offset_bytes := next_received,
                              pu_next_sequence := saturating_add (pu_next_sequence state) 1 \<rparr>
          in act_bind (persist_blob_upload_state ue state') (\<lambda>_. act_return state')))"

definition decode_stream :: "upload_env \<Rightarrow> string option \<Rightarrow> bytes \<Rightarrow> anyhow + bytes" where
  "decode_stream ue encoding stream_bytes =
     (case encoding of
        None \<Rightarrow> Inr stream_bytes
      | Some e \<Rightarrow>
          if e = SNAPSHOT_BLOB_ENCODING_ZSTD
          then (case ue_decode_zstd ue stream_bytes of Inl msg \<Rightarrow> Inl (bail msg) | Inr raw \<Rightarrow> Inr raw)
          else Inl (bail (''unsupported upload encoding '' @ quoted e)))"

definition finalize_blob_upload_session ::
    "upload_env \<Rightarrow> timestamp \<Rightarrow> string \<Rightarrow> verified_blob_store_result fs_action" where
  "finalize_blob_upload_session ue now digest =
     act_bind (load_blob_upload_state ue digest) (\<lambda>loaded.
     case loaded of
       None \<Rightarrow> act_fail (bail (''No upload session found for '' @ digest))
     | Some state \<Rightarrow>
         (let part_path = blob_upload_session_part_path digest in
          act_bind (part_length ue digest) (\<lambda>received.
          if received \<noteq> pu_stream_size_bytes state
          then act_fail (bail (''Upload session for '' @ digest @ '' is incomplete: ''
                 @ show_nat received @ '' of '' @ show_nat (pu_stream_size_bytes state) @ '' bytes received''))
          else
            act_bind (in_context (''Failed to read '' @ display_path (ue_store ue) part_path)
              (fs_read part_path)) (\<lambda>stream_bytes.
            act_bind (act_lift (decode_stream ue (pu_selected_encoding state) stream_bytes)) (\<lambda>raw_bytes.
            if length raw_bytes \<noteq> pu_raw_size_bytes state
            then act_fail (bail (''Upload session for '' @ digest @ '' decoded to ''
                   @ show_nat (length raw_bytes) @ '' raw bytes, expected ''
                   @ show_nat (pu_raw_size_bytes state)))
            else
              act_bind (store_blob_for_digest (ue_store ue) now digest raw_bytes) (\<lambda>stored.
              act_bind
                (if pu_selected_encoding state = Some SNAPSHOT_BLOB_ENCODING_ZSTD
                 then act_bind (store_encoded_blob_variant (ue_store ue) now digest
                        (pu_raw_size_bytes state) Zstd stream_bytes) (\<lambda>_. act_return ())
                 else act_return ()) (\<lambda>_.
              act_bind (remove_blob_upload_state ue digest) (\<lambda>_.
              act_return stored))))))))"

definition select_upload_encoding ::
    "nat \<Rightarrow> string list \<Rightarrow> snapshot_blob_encoding_offer list \<Rightarrow> anyhow + string option \<times> nat" where
  "select_upload_encoding raw_size_bytes capability_flags offered_encodings =
     (case (if SNAPSHOT_BLOB_ENCODING_ZSTD \<in> set capability_flags
            then find (\<lambda>offer. eo_encoding offer = SNAPSHOT_BLOB_ENCODING_ZSTD) offered_encodings
            else None) of
        Some offer \<Rightarrow> Inr (Some (eo_encoding offer), eo_size_bytes offer)
      | None \<Rightarrow>
          (case find (\<lambda>offer. eo_encoding offer \<noteq> SNAPSHOT_BLOB_ENCODING_ZSTD) offered_encodings of
             Some offer \<Rightarrow> Inl (bail (''unsupported offered upload encoding '' @ quoted (eo_encoding offer)))
           | None \<Rightarrow> Inr (None, raw_size_bytes)))"

section \<open>The connection\<close>

text \<open>What arrives: messages, or a failure of the read; the list ends where the stream does.\<close>

datatype ws_incoming = WsText string | WsBinary bytes | WsPing | WsPong | WsClose | WsFailure

datatype ws_outgoing = Control server_control_message | CloseFrame

record connection =
  cn_sent :: "ws_outgoing list"
  cn_tries :: nat
  cn_store :: fs
  cn_metrics :: metrics

definition ws_send :: "upload_env \<Rightarrow> ws_outgoing \<Rightarrow> connection \<Rightarrow> bool \<times> connection" where
  "ws_send ue m cn =
     (if ue_sends ue (cn_tries cn)
      then (True, cn\<lparr> cn_sent := cn_sent cn @ [m], cn_tries := cn_tries cn + 1 \<rparr>)
      else (False, cn\<lparr> cn_tries := cn_tries cn + 1 \<rparr>))"

definition send_and_close :: "upload_env \<Rightarrow> server_control_message \<Rightarrow> connection \<Rightarrow> connection" where
  "send_and_close ue m cn = snd (ws_send ue CloseFrame (snd (ws_send ue (Control m) cn)))"

definition send_blob_upload_error ::
    "upload_env \<Rightarrow> uuid option \<Rightarrow> string option \<Rightarrow> string \<Rightarrow> string \<Rightarrow> connection \<Rightarrow> connection" where
  "send_blob_upload_error ue w d code msg cn =
     send_and_close ue (UploadError SNAPSHOT_BLOB_PROTOCOL_VERSION w d code msg) cn"

text \<open>An operation on the store of the server.\<close>

definition on_store :: "'a fs_action \<Rightarrow> connection \<Rightarrow> (anyhow + 'a) \<times> connection" where
  "on_store m cn = (case m (cn_store cn) of (r, fs) \<Rightarrow> (r, cn\<lparr> cn_store := fs \<rparr>))"

definition count_upload :: "nat \<Rightarrow> bool \<Rightarrow> connection \<Rightarrow> connection" where
  "count_upload raw_size uploaded cn =
     cn\<lparr> cn_metrics := record_snapshot_blob_upload (word_of_nat raw_size) uploaded (cn_metrics cn) \<rparr>"

text \<open>The three places that finish an upload do the same: store the blob, count it and answer.\<close>

definition finish_upload :: "upload_env \<Rightarrow> timestamp \<Rightarrow> uuid \<Rightarrow> string \<Rightarrow> nat \<Rightarrow> connection \<Rightarrow> connection" where
  "finish_upload ue now w digest raw_size cn =
     (case on_store (finalize_blob_upload_session ue now digest) cn of
        (Inl e, cn') \<Rightarrow> send_blob_upload_error ue (Some w) (Some digest) ''store_failed'' (anyhow_display e) cn'
      | (Inr stored, cn') \<Rightarrow>
          send_and_close ue (UploadComplete SNAPSHOT_BLOB_PROTOCOL_VERSION w (sb_digest (vr_blob stored))
            (vr_uploaded stored)) (count_upload raw_size (vr_uploaded stored) cn'))"

text \<open>A chunk; the session goes on when one is returned.\<close>

definition receive_chunk ::
    "upload_env \<Rightarrow> timestamp \<Rightarrow> bytes \<Rightarrow> blob_upload_session \<Rightarrow> connection
     \<Rightarrow> blob_upload_session option \<times> connection" where
  "receive_chunk ue now frame session cn =
     (let w = us_workorder_id session; digest = us_digest session;
          refuse = (\<lambda>code msg cn. (None, send_blob_upload_error ue (Some w) (Some digest) code msg cn))
      in case decode (ue_adler32 ue) frame of
           Inl e \<Rightarrow> refuse ''invalid_chunk_frame'' (chunk_frame_error_display e) cn
         | Inr (header, payload) \<Rightarrow>
             (let sequence = unat (ch_sequence header); offset = unat (ch_offset_bytes header);
                  size = unat (ch_payload_size_bytes header);
                  next_received = saturating_add (us_received_bytes session) size
              in if sequence \<noteq> us_next_sequence session
                 then refuse ''unexpected_sequence'' (''Expected chunk sequence ''
                        @ show_nat (us_next_sequence session) @ '', got '' @ show_nat sequence) cn
                 else if offset \<noteq> us_received_bytes session
                 then refuse ''unexpected_offset'' (''Expected chunk offset ''
                        @ show_nat (us_received_bytes session) @ '', got '' @ show_nat offset) cn
                 else if size > us_chunk_size_bytes session
                 then refuse ''chunk_too_large'' (''Chunk size '' @ show_nat size
                        @ '' exceeds the negotiated '' @ show_nat (us_chunk_size_bytes session) @ '' bytes'') cn
                 else if next_received > us_stream_size_bytes session
                 then refuse ''blob_too_large'' (''Received '' @ show_nat next_received
                        @ '' bytes, which exceeds the declared blob length ''
                        @ show_nat (us_stream_size_bytes session)) cn
                 else
                   case on_store (append_blob_upload_chunk ue digest (us_raw_size_bytes session)
                          (us_stream_size_bytes session) (us_chunk_size_bytes session)
                          (us_selected_encoding session) payload) cn of
                     (Inl e, cn1) \<Rightarrow> refuse ''persist_failed'' (anyhow_display e) cn1
                   | (Inr persisted, cn1) \<Rightarrow>
                       (let session' = session\<lparr> us_received_bytes := pu_received_bytes persisted,
                                               us_next_sequence := pu_next_sequence persisted \<rparr>
                        in case ws_send ue (Control (UploadAck SNAPSHOT_BLOB_PROTOCOL_VERSION w digest
                                 sequence offset size (us_received_bytes session'))) cn1 of
                             (False, cn2) \<Rightarrow> (None, cn2)
                           | (True, cn2) \<Rightarrow>
                               if us_received_bytes session' = us_stream_size_bytes session'
                               then (None, finish_upload ue now w digest (us_raw_size_bytes session') cn2)
                               else (Some session', cn2))))"

fun receive_chunks ::
    "upload_env \<Rightarrow> timestamp \<Rightarrow> ws_incoming list \<Rightarrow> blob_upload_session \<Rightarrow> connection \<Rightarrow> connection" where
  "receive_chunks ue now [] session cn = cn"
| "receive_chunks ue now (WsFailure # ms) session cn = cn"
| "receive_chunks ue now (WsBinary frame # ms) session cn =
     (case receive_chunk ue now frame session cn of
        (None, cn') \<Rightarrow> cn'
      | (Some session', cn') \<Rightarrow> receive_chunks ue now ms session' cn')"
| "receive_chunks ue now (WsText t # ms) session cn =
     send_blob_upload_error ue (Some (us_workorder_id session)) (Some (us_digest session))
       ''unexpected_control_frame'' ''Chunk payloads must be sent as binary frames after upload_init'' cn"
| "receive_chunks ue now (WsClose # ms) session cn = cn"
| "receive_chunks ue now (WsPing # ms) session cn = receive_chunks ue now ms session cn"
| "receive_chunks ue now (WsPong # ms) session cn = receive_chunks ue now ms session cn"

text \<open>The rest of the handler, once the request has passed its checks.\<close>

definition start_session ::
    "upload_env \<Rightarrow> timestamp \<Rightarrow> upload_init \<Rightarrow> string option \<Rightarrow> nat \<Rightarrow> ws_incoming list \<Rightarrow> connection \<Rightarrow> connection" where
  "start_session ue now init encoding stream ms cn =
     (let w = ui_workorder_id init; digest = ui_digest init; raw = ui_total_size_bytes init
      in case on_store (prepare_blob_upload_session ue digest raw stream (ui_chunk_size_bytes init) encoding) cn of
           (Inl e, cn1) \<Rightarrow>
             send_blob_upload_error ue (Some w) (Some digest) ''resume_prepare_failed'' (anyhow_display e) cn1
         | (Inr resumed, cn1) \<Rightarrow>
             if pu_received_bytes resumed = stream then finish_upload ue now w digest raw cn1
             else
               case ws_send ue (Control (UploadResume SNAPSHOT_BLOB_PROTOCOL_VERSION w digest
                      (pu_next_offset_bytes resumed) (pu_next_sequence resumed)
                      (pu_selected_encoding resumed) (pu_stream_size_bytes resumed))) cn1 of
                 (False, cn2) \<Rightarrow> cn2
               | (True, cn2) \<Rightarrow>
                   (let session = \<lparr> us_workorder_id = w, us_digest = digest, us_raw_size_bytes = raw,
                          us_stream_size_bytes = stream, us_chunk_size_bytes = ui_chunk_size_bytes init,
                          us_selected_encoding = encoding, us_next_sequence = pu_next_sequence resumed,
                          us_received_bytes = pu_next_offset_bytes resumed \<rparr>
                    in if stream = 0 then finish_upload ue now w digest raw cn2
                       else receive_chunks ue now ms session cn2))"

definition start_upload ::
    "upload_env \<Rightarrow> timestamp \<Rightarrow> upload_init \<Rightarrow> ws_incoming list \<Rightarrow> connection \<Rightarrow> connection" where
  "start_upload ue now init ms cn =
     (let w = ui_workorder_id init; digest = ui_digest init;
          refuse = (\<lambda>code msg cn. send_blob_upload_error ue (Some w) (Some digest) code msg cn)
      in if ui_version init \<noteq> SNAPSHOT_BLOB_PROTOCOL_VERSION
         then refuse ''unsupported_version'' (''Blob stream protocol version ''
                @ show_nat (unat (ui_version init)) @ '' is unsupported; expected ''
                @ show_nat (unat SNAPSHOT_BLOB_PROTOCOL_VERSION)) cn
         else if ui_chunk_size_bytes init \<noteq> SNAPSHOT_BLOB_DEFAULT_CHUNK_SIZE_BYTES
         then refuse ''unsupported_chunk_size'' (''Blob stream chunk size must be ''
                @ show_nat SNAPSHOT_BLOB_DEFAULT_CHUNK_SIZE_BYTES @ '' bytes in v1'') cn
         else
           case select_upload_encoding (ui_total_size_bytes init) (ui_capability_flags init)
                  (ui_offered_encodings init) of
             Inl e \<Rightarrow> refuse ''unsupported_encoding'' (anyhow_display e) cn
           | Inr (encoding, stream) \<Rightarrow>
               (case on_store (has_blob digest) cn of
                  (Inl e, cn1) \<Rightarrow> refuse ''invalid_digest'' (anyhow_display e) cn1
                | (Inr True, cn1) \<Rightarrow>
                    send_and_close ue (UploadComplete SNAPSHOT_BLOB_PROTOCOL_VERSION w digest False)
                      (count_upload (ui_total_size_bytes init) False
                        (snd (on_store (remove_blob_upload_state ue digest) cn1)))
                | (Inr False, cn1) \<Rightarrow> start_session ue now init encoding stream ms cn1))"

fun handle_blob_upload_ws ::
    "upload_env \<Rightarrow> timestamp \<Rightarrow> ws_incoming list \<Rightarrow> connection \<Rightarrow> connection" where
  "handle_blob_upload_ws ue now [] cn = cn"
| "handle_blob_upload_ws ue now (WsFailure # ms) cn = cn"
| "handle_blob_upload_ws ue now (WsText text # ms) cn =
     (case ue_dec_init ue text of
        Inl e \<Rightarrow> send_blob_upload_error ue None None ''invalid_init_json''
          (''Failed to parse upload_init: '' @ e) cn
      | Inr init \<Rightarrow> start_upload ue now init ms cn)"
| "handle_blob_upload_ws ue now (_ # ms) cn =
     send_blob_upload_error ue None None ''invalid_init_frame''
       ''The first blob-stream frame must be an upload_init text message'' cn"

definition ws_blob_upload ::
    "upload_env \<Rightarrow> timestamp \<Rightarrow> header_map \<Rightarrow> ws_incoming list \<Rightarrow> app_state
     \<Rightarrow> (http_error + ws_outgoing list) \<times> app_state" where
  "ws_blob_upload ue now headers ms s =
     (case require_snapshot_auth s headers of
        Inl e \<Rightarrow> (Inl e, s)
      | Inr _ \<Rightarrow>
          (let cn = handle_blob_upload_ws ue now ms \<lparr> cn_sent = [], cn_tries = 0, cn_store = st_store s,
                 cn_metrics = st_metrics s \<rparr>
           in (Inr (cn_sent cn), s\<lparr> st_store := cn_store cn, st_metrics := cn_metrics cn \<rparr>)))"

section \<open>A sample environment\<close>

text \<open>A binary code of the persisted state.\<close>

fun nat_code :: "nat \<Rightarrow> bytes" where
  "nat_code n = (if n = 0 then [0] else (if even n then 1 else 2) # nat_code (n div 2))"

fun nat_decode :: "bytes \<Rightarrow> (nat \<times> bytes) option" where
  "nat_decode [] = None"
| "nat_decode (b # bs) =
     (if b = 0 then Some (0, bs)
      else map_option (\<lambda>(n, rest). (2 * n + (if b = 1 then 0 else 1), rest)) (nat_decode bs))"

definition string_code :: "string \<Rightarrow> bytes" where
  "string_code s = nat_code (length s) @ map (\<lambda>c. word_of_nat (of_char c)) s"

definition string_decode :: "bytes \<Rightarrow> (string \<times> bytes) option" where
  "string_decode bs =
     (case nat_decode bs of None \<Rightarrow> None
      | Some (n, rest) \<Rightarrow> Some (map (\<lambda>b. char_of (unat b)) (take n rest), drop n rest))"

definition sample_enc_state :: "persisted_blob_upload_state \<Rightarrow> bytes" where
  "sample_enc_state st =
     string_code (pu_digest st) @ nat_code (pu_raw_size_bytes st) @ nat_code (pu_stream_size_bytes st)
     @ nat_code (pu_chunk_size_bytes st)
     @ (case pu_selected_encoding st of None \<Rightarrow> nat_code 0 | Some e \<Rightarrow> nat_code 1 @ string_code e)
     @ nat_code (pu_next_sequence st) @ nat_code (pu_next_offset_bytes st) @ nat_code (pu_received_bytes st)"

definition sample_dec_state :: "bytes \<Rightarrow> string + persisted_blob_upload_state" where
  "sample_dec_state bs = ok_or ''malformed state''
     (Option.bind (string_decode bs) (\<lambda>(d, bs).
      Option.bind (nat_decode bs) (\<lambda>(raw, bs).
      Option.bind (nat_decode bs) (\<lambda>(stream, bs).
      Option.bind (nat_decode bs) (\<lambda>(chunk, bs).
      Option.bind (Option.bind (nat_decode bs) (\<lambda>(k, bs).
          if k = 0 then Some (None, bs) else map_option (\<lambda>(e, bs). (Some e, bs)) (string_decode bs))) (\<lambda>(enc, bs).
      Option.bind (nat_decode bs) (\<lambda>(n, bs).
      Option.bind (nat_decode bs) (\<lambda>(offset, bs).
      Option.bind (nat_decode bs) (\<lambda>(received, bs).
      Some \<lparr> pu_digest = d, pu_raw_size_bytes = raw, pu_stream_size_bytes = stream,
             pu_chunk_size_bytes = chunk, pu_selected_encoding = enc, pu_next_sequence = n,
             pu_next_offset_bytes = offset, pu_received_bytes = received \<rparr>)))))))))"

definition sample_init :: "string \<Rightarrow> nat \<Rightarrow> upload_init" where
  "sample_init d n =
     \<lparr> ui_version = SNAPSHOT_BLOB_PROTOCOL_VERSION, ui_workorder_id = 7, ui_digest = d,
       ui_total_size_bytes = n, ui_chunk_size_bytes = SNAPSHOT_BLOB_DEFAULT_CHUNK_SIZE_BYTES,
       ui_capability_flags = [], ui_offered_encodings = [] \<rparr>"

definition sample_upload_env :: upload_env where
  "sample_upload_env =
     \<lparr> ue_store = sample_store_env, ue_adler32 = (\<lambda>bs. word_of_nat (length bs)), ue_decode_zstd = Inr,
       ue_dec_init = (\<lambda>t. if t = ''upload'' then Inr (sample_init (sample_sha256 [1]) 1) else Inl ''expected value''), ue_enc_state = sample_enc_state,
       ue_dec_state = sample_dec_state, ue_sends = (\<lambda>_. True) \<rparr>"

definition sample_connection :: "fs \<Rightarrow> connection" where
  "sample_connection fs = \<lparr> cn_sent = [], cn_tries = 0, cn_store = fs, cn_metrics = metrics_new \<rparr>"

declare nat_code.simps [simp del]

lemma nat_decode_code [simp]: "nat_decode (nat_code n @ rest) = Some (n, rest)"
proof (induction n rule: nat_code.induct)
  case (1 n)
  show ?case
  proof (cases "n = 0")
    case True
    then show ?thesis by (simp add: nat_code.simps)
  next
    case False
    then show ?thesis using 1 [OF False] by (subst nat_code.simps) auto
  qed
qed

lemma nat_decode_end [simp]: "nat_decode (nat_code n) = Some (n, [])"
  using nat_decode_code [of n "[]"] by simp

lemma char_of_word: "char_of (unat (word_of_nat (of_char c) :: 8 word)) = c"
proof -
  have "of_char c < (256 :: nat)" by simp
  then have "unat (word_of_nat (of_char c) :: 8 word) = of_char c" by (simp add: unat_of_nat)
  then show ?thesis by simp
qed

lemma string_decode_code [simp]: "string_decode (string_code s @ rest) = Some (s, rest)"
  by (simp add: string_decode_def string_code_def char_of_word comp_def)

end
