(* ===== verification/Upload_Session.thy ===== *)
theory Upload_Session
imports Blob_Upload Store_Properties
begin

text \<open>Upload sessions beside the store: no message a client sends on a connection, valid or not, can
  damage a blob, and what the server reports as complete is stored.\<close>

section \<open>Session files share nothing with the stores\<close>

abbreviation in_sessions :: "path \<Rightarrow> bool" where
  "in_sessions p \<equiv> p \<noteq> [] \<and> hd p = BLOB_UPLOAD_SESSION_SUBDIR"

definition apart :: "fs \<Rightarrow> bool" where
  "apart fs \<longleftrightarrow>
     (\<forall>p q i. map_of (fs_tree fs) p = Some (File i) \<longrightarrow> map_of (fs_tree fs) q = Some (File i) \<longrightarrow>
        in_sessions p \<longrightarrow> \<not> in_store q)"

definition upload_inv :: "upload_env \<Rightarrow> fs \<Rightarrow> bool" where
  "upload_inv ue fs \<longleftrightarrow> store_inv (ue_store ue) fs \<and> apart fs"

lemma apartI:
  "(\<And>p q i. map_of (fs_tree fs) p = Some (File i) \<Longrightarrow> map_of (fs_tree fs) q = Some (File i) \<Longrightarrow>
     in_sessions p \<Longrightarrow> in_store q \<Longrightarrow> False) \<Longrightarrow> apart fs"
  unfolding apart_def by (intro allI impI notI) assumption

lemma apartD:
  "apart fs \<Longrightarrow> map_of (fs_tree fs) p = Some (File i) \<Longrightarrow> map_of (fs_tree fs) q = Some (File i) \<Longrightarrow>
     in_sessions p \<Longrightarrow> in_store q \<Longrightarrow> False"
  unfolding apart_def by blast

lemma session_not_store: "in_sessions p \<Longrightarrow> \<not> in_store p"
  by (simp add: BLOB_UPLOAD_SESSION_SUBDIR_def BLOBS_SUBDIR_def TREES_SUBDIR_def)

lemma session_paths:
  "in_sessions (blob_upload_session_meta_path d)" "in_sessions (blob_upload_session_part_path d)"
  "in_sessions blob_upload_session_dir" "in_sessions (blob_upload_session_dir @ [n])"
  by (simp_all add: blob_upload_session_meta_path_def blob_upload_session_part_path_def blob_upload_session_dir_def)

lemma apart_adds:
  assumes w: "fs_wf fs" and a: "apart fs" and add: "adds x bs fs fs'"
  shows "apart fs'"
proof (rule apartI)
  fix p q k
  assume k: "map_of (fs_tree fs') p = Some (File k)" "map_of (fs_tree fs') q = Some (File k)"
    and s: "in_sessions p" "in_store q"
  from add obtain j where j: "fs_next fs \<le> j" "map_of (fs_tree fs') = (map_of (fs_tree fs))(x \<mapsto> File j)"
    by (auto simp: adds_def)
  have old: "k < fs_next fs" if "map_of (fs_tree fs') y = Some (File k)" "y \<noteq> x" for y
    using that fs_wfD(3) [OF w, of y] by (simp add: j(2))
  have ne: "p \<noteq> q" using s session_not_store by blast
  show False
  proof (cases "p = x \<or> q = x")
    case True
    then have "k = j" using k by (auto simp: j(2))
    then show False using True ne old [OF k(1)] old [OF k(2)] j(1) by auto
  next
    case False
    then show False using apartD [OF a _ _ s, of k] k by (simp add: j(2))
  qed
qed

lemma apart_frame: "store_frame env apart"
proof
  fix fs fs'
  assume i: "store_inv env fs" and a: "apart fs"
  note w = store_invD(1) [OF i]
  show "apart fs'" if "quiet fs fs'" using a that by (simp add: apart_def quiet_def)
  show "apart fs'" if g: "grows fs fs'"
  proof (rule apartI)
    fix p q k
    assume "map_of (fs_tree fs') p = Some (File k)" "map_of (fs_tree fs') q = Some (File k)"
      and s: "in_sessions p" "in_store q"
    then have "map_of (fs_tree fs) p = Some (File k)" "map_of (fs_tree fs) q = Some (File k)"
      using grows_file [OF g, of p k] grows_file [OF g, of q k] by (simp_all add: fs_node_def)
    then show False using apartD [OF a _ _ s] by blast
  qed
  show "apart fs'" if "adds p bs fs fs'" for p bs by (rule apart_adds [OF w a that])
  show "apart (snd (fs_write (tree_zst_file d) bs fs))" for d bs
  proof (cases "fs_node (tree_zst_file d) fs = None \<and> fs_node (butlast (tree_zst_file d)) fs = Some Dir")
    case True
    then have "adds (tree_zst_file d) bs fs (fs_add (tree_zst_file d) bs fs)"
      by (auto simp: adds_def fs_add_def hm_wf_insert)
    then show ?thesis using apart_adds [OF w a] True by (simp add: fs_write_def)
  next
    case False
    then have "fs_tree (snd (fs_write (tree_zst_file d) bs fs)) = fs_tree fs"
      by (auto simp: fs_write_def split: option.split node.split)
    then show ?thesis using a by (simp add: apart_def)
  qed
qed

subsection \<open>The steps of a session leave the stores alone\<close>

definition session_move :: "fs \<Rightarrow> fs \<Rightarrow> bool" where
  "session_move fs fs' \<longleftrightarrow> outside_store fs fs' \<and> apart fs'"

lemma session_moveI:
  assumes "fs_wf fs'" "apart fs'" "\<And>p. in_store p \<Longrightarrow> fs_node p fs' = fs_node p fs"
    "\<And>p j. in_store p \<Longrightarrow> fs_node p fs = Some (File j) \<Longrightarrow> map_of (fs_inodes fs') j = map_of (fs_inodes fs) j"
  shows "session_move fs fs'"
  using assms unfolding session_move_def outside_store_def by blast

lemma session_move_refl: "fs_wf fs \<Longrightarrow> apart fs \<Longrightarrow> session_move fs fs"
  by (rule session_moveI) simp_all

lemma session_move_adds:
  assumes w: "fs_wf fs" and a: "apart fs" and add: "adds p bs fs fs'" and s: "in_sessions p"
  shows "session_move fs fs'"
proof (rule session_moveI)
  show "fs_wf fs'" by (rule adds_wf [OF add w])
  show "apart fs'" by (rule apart_adds [OF w a add])
  show "fs_node q fs' = fs_node q fs" if "in_store q" for q
    using that s session_not_store by (intro adds_node [OF add]) blast
  show "map_of (fs_inodes fs') j = map_of (fs_inodes fs) j" if "in_store q" "fs_node q fs = Some (File j)" for q j
    using add fs_wfD(3) [OF w, of q j] that by (auto simp: adds_def fs_node_def)
qed

lemma session_move_write:
  assumes w: "fs_wf fs" and a: "apart fs" and s: "in_sessions p"
  shows "session_move fs (snd (fs_write p bs fs))"
proof (cases "fs_node p fs")
  case None
  show ?thesis
  proof (cases "fs_node (butlast p) fs = Some Dir")
    case True
    then have "adds p bs fs (fs_add p bs fs)"
      using None s by (auto simp: adds_def fs_add_def hm_wf_insert)
    then show ?thesis using None True session_move_adds [OF w a _ s] by (simp add: fs_write_def)
  next
    case False
    then show ?thesis using None session_move_refl [OF w a] by (simp add: fs_write_def)
  qed
next
  case (Some n)
  show ?thesis
  proof (cases n)
    case Dir
    then show ?thesis using Some session_move_refl [OF w a] by (simp add: fs_write_def)
  next
    case (File i)
    have p: "map_of (fs_tree fs) p = Some (File i)" using Some File s by (simp add: fs_node_def)
    let ?fs = "fs\<lparr> fs_inodes := hm_insert i bs (fs_inodes fs) \<rparr>"
    have n: "fs_node q ?fs = fs_node q fs" for q by (simp add: fs_node_def)
    have "session_move fs ?fs"
    proof (rule session_moveI)
      show "fs_wf ?fs" by (rule fs_wfI) (use fs_wfD [OF w] in \<open>simp_all add: n\<close>)
      show "apart ?fs" using a by (simp add: apart_def)
      show "map_of (fs_inodes ?fs) j = map_of (fs_inodes fs) j" if "in_store q" "fs_node q fs = Some (File j)" for q j
        using apartD [OF a p _ s that(1)] that by (cases "j = i") (auto simp: fs_node_def)
    qed (rule n)
    then show ?thesis using Some File by (simp add: fs_write_def)
  qed
qed

lemma session_move_rename:
  assumes w: "fs_wf fs" and a: "apart fs" and s: "in_sessions p" "in_sessions q"
    and f: "fs_node p fs = Some (File i)"
  shows "session_move fs (snd (fs_rename p q fs))"
proof (cases "fs_node q fs = Some Dir \<or> fs_node (butlast q) fs \<noteq> Some Dir")
  case True
  then show ?thesis using f session_move_refl [OF w a] by (auto simp: fs_rename_def)
next
  case False
  let ?fs = "fs\<lparr> fs_tree := hm_insert q (File i) (hm_remove p (fs_tree fs)) \<rparr>"
  have t: "map_of (fs_tree ?fs) x = (if x = q then Some (File i) else if x = p then None else map_of (fs_tree fs) x)" for x
    by simp
  have p: "map_of (fs_tree fs) p = Some (File i)" using f s by (simp add: fs_node_def)
  have dir: "fs_node x ?fs = Some Dir" if "fs_node x fs = Some Dir" for x
    using that f False s by (auto simp: fs_node_def split: if_splits)
  have "session_move fs ?fs"
  proof (rule session_moveI)
    show "fs_wf ?fs"
    proof (rule fs_wfI)
      show "hm_wf (fs_tree ?fs)" using fs_wfD(1) [OF w] by (simp add: hm_wf_insert hm_wf_remove)
      show "map_of (fs_tree ?fs) [] = None" using fs_wfD(2) [OF w] s unfolding t by auto
      show "j < fs_next ?fs \<and> map_of (fs_inodes ?fs) j \<noteq> None" if "map_of (fs_tree ?fs) x = Some (File j)" for x j
        using that fs_wfD(3,4) [OF w, of x j] fs_wfD(3,4) [OF w p] unfolding t by (auto split: if_splits)
      show "fs_node (butlast x) ?fs = Some Dir" if "map_of (fs_tree ?fs) x = Some n" for x n
        using that False fs_wfD(5) [OF w, of x n] unfolding t by (intro dir) (auto split: if_splits)
    qed
    show "apart ?fs"
    proof (rule apartI)
      fix x y k
      assume k: "map_of (fs_tree ?fs) x = Some (File k)" "map_of (fs_tree ?fs) y = Some (File k)"
        and xy: "in_sessions x" "in_store y"
      have "y \<noteq> q" using xy(2) s(2) session_not_store by blast
      then have y: "map_of (fs_tree fs) y = Some (File k)" using k(2) unfolding t by (auto split: if_splits)
      have "\<exists>z. in_sessions z \<and> map_of (fs_tree fs) z = Some (File k)"
        using k(1) p s xy(1) unfolding t by (auto split: if_splits)
      then show False using apartD [OF a _ y _ xy(2)] by blast
    qed
    show "fs_node x ?fs = fs_node x fs" if "in_store x" for x
    proof -
      have "x \<noteq> p" "x \<noteq> q" using that s session_not_store by blast+
      then show ?thesis by (simp add: fs_node_def)
    qed
  qed simp
  then show ?thesis using False f by (simp add: fs_rename_def)
qed

lemma session_move_remove:
  assumes w: "fs_wf fs" and a: "apart fs" and s: "in_sessions p"
  shows "session_move fs (snd (fs_remove_file p fs))"
proof -
  consider "snd (fs_remove_file p fs) = fs" | "removes {p} fs (snd (fs_remove_file p fs))"
    using remove_file_cases [OF w] by blast
  then show ?thesis
  proof cases
    case 1
    then show ?thesis using session_move_refl [OF w a] by simp
  next
    case 2
    show ?thesis
    proof (rule session_moveI)
      show "fs_wf (snd (fs_remove_file p fs))" by (rule removes_wf [OF 2 w])
      show "apart (snd (fs_remove_file p fs))"
        by (rule apartI) (rule apartD [OF a removesD(3) [OF 2] removesD(3) [OF 2]])
      show "fs_node q (snd (fs_remove_file p fs)) = fs_node q fs" if "in_store q" for q
        using that s session_not_store by (intro removes_node [OF 2]) blast
    qed (simp add: removesD(2) [OF 2])
  qed
qed

lemma session_move_dir:
  assumes w: "fs_wf fs" and a: "apart fs"
  shows "session_move fs (snd (fs_create_dir_all blob_upload_session_dir fs))"
proof (rule session_moveI)
  let ?fs = "snd (fs_create_dir_all blob_upload_session_dir fs)"
  note g = create_dir_all_grows [of fs blob_upload_session_dir]
  show w': "fs_wf ?fs" by (rule create_dir_all_wf [OF w])
  show "apart ?fs"
  proof (rule apartI)
    fix p q k
    assume "map_of (fs_tree ?fs) p = Some (File k)" "map_of (fs_tree ?fs) q = Some (File k)"
      and s: "in_sessions p" "in_store q"
    then have "map_of (fs_tree fs) p = Some (File k)" "map_of (fs_tree fs) q = Some (File k)"
      using grows_file [OF g, of p k] grows_file [OF g, of q k] by (simp_all add: fs_node_def)
    then show False using apartD [OF a _ _ s] by blast
  qed
  show "fs_node p ?fs = fs_node p fs" if "in_store p" for p
  proof (rule growsD [OF g, of p])
    assume n: "fs_node p fs = None" "fs_node p ?fs = Some Dir"
    from create_dir_all_new [OF n(2)] n(1) obtain k where "1 \<le> k" "p = take k blob_upload_session_dir" by auto
    then have "p = blob_upload_session_dir" by (simp add: blob_upload_session_dir_def)
    then show ?thesis using that session_not_store [OF session_paths(3)] by simp
  qed
qed (simp add: grows_same [OF create_dir_all_grows])

lemma write_is_file: "fs_write p bs fs = (Inr x, fs') \<Longrightarrow> p \<noteq> [] \<Longrightarrow> is_file p fs'"
  by (auto simp: fs_write_def is_file_def fs_node_add split: option.splits node.splits if_splits)
    (simp_all add: fs_node_def)

section \<open>Properties kept by a whole connection\<close>

text \<open>A property of the stores that survives the operations of the store and changes outside it
  survives a connection.\<close>

locale session_frame = store_frame env J for env :: store_env and J :: "fs \<Rightarrow> bool" +
  assumes J_outside: "store_inv env fs \<Longrightarrow> J fs \<Longrightarrow> outside_store fs fs' \<Longrightarrow> J fs'"

sublocale session_frame \<subseteq> with_apart: store_frame env "\<lambda>fs. J fs \<and> apart fs"
proof
  note a = store_frame.J_quiet [OF apart_frame] store_frame.J_grows [OF apart_frame]
    store_frame.J_adds [OF apart_frame] store_frame.J_write [OF apart_frame]
  fix fs fs'
  assume i: "store_inv env fs" and j: "J fs \<and> apart fs"
  show "J fs' \<and> apart fs'" if "quiet fs fs'" using a(1) [OF i _ that] J_quiet [OF i _ that] j by blast
  show "J fs' \<and> apart fs'" if "grows fs fs'" using a(2) [OF i _ that] J_grows [OF i _ that] j by blast
  show "J fs' \<and> apart fs'" if "adds p bs fs fs'" "in_store p" "fs_node p fs = None \<or> meta_file p" for p bs
    using a(3) [OF i _ that] J_adds [OF i _ that] j by blast
  show "J (snd (fs_write (tree_zst_file d) bs fs)) \<and> apart (snd (fs_write (tree_zst_file d) bs fs))"
    if "digest_ok d" for d bs
    using a(4) [OF i _ that] J_write [OF i _ that] j by blast
qed

context session_frame
begin

lemma framed_move:
  assumes i: "with_apart.framed fs" and m: "session_move fs fs'"
  shows "with_apart.framed fs'"
proof -
  have o: "outside_store fs fs'" "apart fs'" using m by (simp_all add: session_move_def)
  have "store_inv env fs'"
    by (rule store_inv_outside [OF conjunct1 [OF i]]) (use o(1) in \<open>auto simp: outside_store_def\<close>)
  then show ?thesis using i J_outside [OF _ _ o(1)] o(2) by blast
qed

lemma keeps_move:
  assumes "\<And>fs. fs_wf fs \<Longrightarrow> apart fs \<Longrightarrow> session_move fs (snd (m fs))"
  shows "keeps with_apart.framed m"
proof (rule keepsI)
  fix fs
  assume i: "with_apart.framed fs"
  then have "session_move fs (snd (m fs))" using assms store_invD(1) by blast
  then show "with_apart.framed (snd (m fs))" by (rule framed_move [OF i])
qed

lemma keeps_session_write: "in_sessions p \<Longrightarrow> keeps with_apart.framed (fs_write p bs)"
  by (rule keeps_move) (rule session_move_write)

lemma keeps_session_remove: "in_sessions p \<Longrightarrow> keeps with_apart.framed (remove_file_if_exists env' p)"
  unfolding remove_file_if_exists_def by (intro triple_rules keeps_move session_move_remove)

lemma keeps_create_session_dir [triple_rules]: "keeps with_apart.framed (create_session_dir ue)"
  unfolding create_session_dir_def by (intro triple_rules keeps_move session_move_dir)

lemma keeps_session_append:
  assumes "in_sessions p"
  shows "keeps with_apart.framed (fs_append p bs)"
proof (rule keepsI)
  fix fs
  assume "with_apart.framed fs"
  then have "with_apart.framed (snd (fs_write p bs' fs))" for bs'
    using keepsD [OF keeps_session_write [OF assms]] by blast
  then show "with_apart.framed (snd (fs_append p bs fs))"
    by (simp add: fs_append_def split: option.split node.split)
qed

lemma keeps_write_rename:
  assumes "in_sessions p" "in_sessions q"
  shows "keeps with_apart.framed (act_bind (in_context c (fs_write p bs)) (\<lambda>_. in_context c' (fs_rename p q)))"
proof (rule triple_bind)
  let ?R = "\<lambda>fs. with_apart.framed fs \<and> is_file p fs"
  show "triple with_apart.framed (in_context c (fs_write p bs)) (\<lambda>_. ?R) (\<lambda>_. with_apart.framed)"
    unfolding triple_def
  proof (intro allI impI)
    fix fs
    assume i: "with_apart.framed fs"
    show "case in_context c (fs_write p bs) fs of (Inl e, s') \<Rightarrow> with_apart.framed s' | (Inr x, s') \<Rightarrow> ?R s'"
      using keepsD [OF keeps_session_write [OF assms(1), of bs] i] write_is_file [of p bs fs] assms(1)
      by (auto simp: in_context_eq split: prod.splits sum.splits)
  qed
  show "triple ?R (in_context c' (fs_rename p q)) (\<lambda>_. with_apart.framed) (\<lambda>_. with_apart.framed)" for x
    unfolding triple_def
  proof (intro allI impI)
    fix fs
    assume i: "?R fs"
    then obtain j where j: "fs_node p fs = Some (File j)" by (auto simp: is_file_iff)
    have w: "fs_wf fs" "apart fs" using i store_invD(1) by blast+
    have "with_apart.framed (snd (fs_rename p q fs))"
      by (rule framed_move [OF conjunct1 [OF i]]) (rule session_move_rename [OF w assms j])
    then show "case in_context c' (fs_rename p q) fs of
        (Inl e, s') \<Rightarrow> with_apart.framed s' | (Inr x, s') \<Rightarrow> with_apart.framed s'"
      by (auto simp: in_context_eq split: prod.splits sum.splits)
  qed
qed

lemma keeps_persist_session [triple_rules]: "keeps with_apart.framed (persist_blob_upload_state ue state)"
  unfolding persist_blob_upload_state_def Let_def
  by (intro keeps_bind [OF keeps_create_session_dir] keeps_write_rename session_paths)

lemma keeps_load_session [triple_rules]:
  "keeps P (load_blob_upload_state ue d)" "keeps P (part_length ue d)"
  unfolding load_blob_upload_state_def part_length_def Let_def by (intro triple_rules)+

lemma keeps_remove_session [triple_rules]: "keeps with_apart.framed (remove_blob_upload_state ue d)"
  unfolding remove_blob_upload_state_def
  by (intro triple_rules keeps_session_remove) (auto simp: session_paths)

lemma keeps_prepare [triple_rules]: "keeps with_apart.framed (prepare_blob_upload_session ue d raw stream chunk enc)"
  unfolding prepare_blob_upload_session_def Let_def by (intro triple_rules)

lemma keeps_append [triple_rules]: "keeps with_apart.framed (append_blob_upload_chunk ue d raw stream chunk enc payload)"
  unfolding append_blob_upload_chunk_def Let_def
  by (intro triple_rules keeps_session_append session_paths)

lemma keeps_finalize:
  assumes [simp]: "ue_store ue = env"
  shows "keeps with_apart.framed (finalize_blob_upload_session ue now d)"
  unfolding finalize_blob_upload_session_def Let_def assms
  by (intro triple_rules with_apart.keeps_store_blob_for_digest with_apart.keeps_variant)

subsection \<open>The connection\<close>

abbreviation sound_store :: "connection \<Rightarrow> bool" where
  "sound_store cn \<equiv> with_apart.framed (cn_store cn)"

lemma on_store_keeps: "keeps with_apart.framed m \<Longrightarrow> on_store m cn = (r, cn') \<Longrightarrow> sound_store cn \<Longrightarrow> sound_store cn'"
  using keepsD [of with_apart.framed m "cn_store cn"] by (auto simp: on_store_def split: prod.splits)

lemma sends_keep_store [simp]:
  "cn_store (snd (ws_send ue m cn)) = cn_store cn" "cn_store (send_and_close ue sm cn) = cn_store cn"
  "cn_store (send_blob_upload_error ue w d c t cn) = cn_store cn" "cn_store (count_upload n b cn) = cn_store cn"
  by (simp_all add: ws_send_def send_and_close_def send_blob_upload_error_def count_upload_def)

lemma finish_upload_keeps:
  assumes "ue_store ue = env" "sound_store cn"
  shows "sound_store (finish_upload ue now w d n cn)"
  using on_store_keeps [OF keeps_finalize [OF assms(1)]] assms(2)
  by (auto simp: finish_upload_def split: prod.splits sum.splits)

lemma receive_chunk_keeps:
  assumes "ue_store ue = env" "sound_store cn"
  shows "sound_store (snd (receive_chunk ue now frame session cn))"
proof (cases "decode (ue_adler32 ue) frame")
  case (Inl e)
  then show ?thesis using assms(2) by (simp add: receive_chunk_def)
next
  case (Inr hp)
  obtain header payload where hp: "hp = (header, payload)" by fastforce
  let ?m = "append_blob_upload_chunk ue (us_digest session) (us_raw_size_bytes session)
    (us_stream_size_bytes session) (us_chunk_size_bytes session) (us_selected_encoding session) payload"
  obtain r cn1 where run: "on_store ?m cn = (r, cn1)" by fastforce
  have "sound_store cn1" by (rule on_store_keeps [OF keeps_append run assms(2)])
  then have "sound_store (finish_upload ue now w d n (snd (ws_send ue m cn1)))" for w d n m
    by (intro finish_upload_keeps [OF assms(1)]) simp
  then have fin: "sound_store (finish_upload ue now w d n cn2)" if "ws_send ue m cn1 = (b, cn2)" for w d n m b cn2
    using that by (metis snd_conv)
  have snt: "sound_store cn2" if "ws_send ue m cn1 = (b, cn2)" for m b cn2
    using that \<open>sound_store cn1\<close> sends_keep_store(1) [of ue m cn1] by simp
  show ?thesis
    using \<open>sound_store cn1\<close> assms(2)
    by (auto simp: receive_chunk_def Inr hp Let_def run fin snt split: sum.split prod.split bool.split)
qed

lemma receive_chunks_keeps:
  "ue_store ue = env \<Longrightarrow> sound_store cn \<Longrightarrow> sound_store (receive_chunks ue now ms session cn)"
proof (induction ue now ms session cn rule: receive_chunks.induct)
  case (3 ue now frame ms session cn)
  obtain r cn' where run: "receive_chunk ue now frame session cn = (r, cn')" by fastforce
  have "sound_store cn'" using receive_chunk_keeps [OF 3(2,3), of now frame session] run by simp
  then show ?case using 3(1) [OF run [symmetric]] 3(2) run by (cases r) simp_all
qed simp_all

lemma start_session_keeps:
  assumes "ue_store ue = env" "sound_store cn"
  shows "sound_store (start_session ue now init enc stream ms cn)"
proof -
  let ?m = "prepare_blob_upload_session ue (ui_digest init) (ui_total_size_bytes init) stream
    (ui_chunk_size_bytes init) enc"
  obtain r cn1 where run: "on_store ?m cn = (r, cn1)" by fastforce
  have s1: "sound_store cn1" by (rule on_store_keeps [OF keeps_prepare run assms(2)])
  have s2: "sound_store cn2" if "ws_send ue m cn1 = (b, cn2)" for m b cn2
    using that s1 sends_keep_store(1) [of ue m cn1] by simp
  show ?thesis
    using s1
    by (auto simp: start_session_def Let_def run finish_upload_keeps [OF assms(1)]
        receive_chunks_keeps [OF assms(1)] s2 split: sum.split prod.split bool.split)
qed

lemma start_upload_keeps:
  assumes "ue_store ue = env" "sound_store cn"
  shows "sound_store (start_upload ue now init ms cn)"
proof -
  obtain r cn1 where run: "on_store (has_blob (ui_digest init)) cn = (r, cn1)" by fastforce
  have has: "keeps with_apart.framed (has_blob (ui_digest init))" unfolding has_blob_def by (intro triple_rules)
  have s1: "sound_store cn1" by (rule on_store_keeps [OF has run assms(2)])
  then have s2: "sound_store (snd (on_store (remove_blob_upload_state ue (ui_digest init)) cn1))"
    by (metis on_store_keeps [OF keeps_remove_session] prod.collapse)
  show ?thesis
    using assms(2) s1 s2
    by (auto simp: start_upload_def Let_def run start_session_keeps [OF assms(1)]
        split: sum.split prod.split bool.split)
qed

lemma handle_keeps:
  assumes "ue_store ue = env" "sound_store cn"
  shows "sound_store (handle_blob_upload_ws ue now ms cn)"
proof (cases "(ue, now, ms, cn)" rule: handle_blob_upload_ws.cases)
  case (3 ue' now' t ms' cn')
  then show ?thesis using assms by (simp add: start_upload_keeps split: sum.split)
qed (use assms in simp_all)

end

interpretation upload_laws: session_frame env "\<lambda>_. True"
  by unfold_locales simp_all

lemma blob_session_frame:
  assumes "digest_ok d"
  shows "session_frame env (\<lambda>fs. fs_content (blob_file d) fs = Some bs)"
proof (rule session_frame.intro [OF blob_frame [OF assms]], unfold_locales)
  fix fs fs'
  assume c: "fs_content (blob_file d) fs = Some bs" and o: "outside_store fs fs'"
  have s: "in_store (blob_file d)" by (simp add: store_files)
  have "fs_node (blob_file d) fs' = fs_node (blob_file d) fs" using o s by (simp add: outside_store_def)
  moreover have "map_of (fs_inodes fs') j = map_of (fs_inodes fs) j" if "fs_node (blob_file d) fs = Some (File j)" for j
    using o s that unfolding outside_store_def by blast
  ultimately show "fs_content (blob_file d) fs' = Some bs"
    using c by (auto simp: fs_content_def split: option.splits node.splits)
qed

section \<open>What is reported complete is stored\<close>

definition stored_blob_ok :: "upload_env \<Rightarrow> string \<Rightarrow> fs \<Rightarrow> bool" where
  "stored_blob_ok ue d fs \<longleftrightarrow> digest_ok d \<and>
     (case fs_content (blob_file d) fs of Some c \<Rightarrow> se_sha256 (ue_store ue) c = d | None \<Rightarrow> False)"

lemma session_reads [simp]:
  "snd (load_blob_upload_state ue d fs) = fs" "snd (part_length ue d fs) = fs" "snd (in_context c (fs_read p) fs) = fs"
  by (simp_all add: load_blob_upload_state_def part_length_def Let_def act_match_def act_return_def act_fail_def
      fs_read_def fs_metadata_def in_context_eq split: option.split node.split sum.split)

lemma session_reads_same:
  "load_blob_upload_state ue d fs = (r, fs') \<Longrightarrow> fs' = fs" "part_length ue d fs = (r', fs') \<Longrightarrow> fs' = fs"
  "in_context c (fs_read p) fs = (r'', fs') \<Longrightarrow> fs' = fs"
  using session_reads by (metis snd_conv)+

lemma finalize_run:
  assumes "finalize_blob_upload_session ue now d fs = (Inr stored, fs')"
  shows "\<exists>raw fs2 fs3. store_blob_for_digest (ue_store ue) now d raw fs = (Inr stored, fs2)
    \<and> (fs3 = fs2 \<or> (\<exists>n bs x. store_encoded_blob_variant (ue_store ue) now d n Zstd bs fs2 = (Inr x, fs3)))
    \<and> remove_blob_upload_state ue d fs3 = (Inr (), fs')"
  using assms unfolding finalize_blob_upload_session_def Let_def
  by (auto simp: act_Inr split: option.splits if_splits dest!: session_reads_same) blast+

lemma finalize_stores:
  assumes l: "se_hard_link (ue_store ue) \<noteq> Some EEXIST" and i: "upload_inv ue fs"
    and run: "finalize_blob_upload_session ue now d fs = (Inr stored, fs')"
  shows "upload_inv ue fs'" "stored_blob_ok ue d fs'" "sb_digest (vr_blob stored) = d"
proof -
  let ?env = "ue_store ue"
  show inv': "upload_inv ue fs'"
    using keeps_run [OF upload_laws.keeps_finalize [OF refl] run] i by (simp add: upload_inv_def)
  from finalize_run [OF run] obtain raw fs2 fs3 where
    st: "store_blob_for_digest ?env now d raw fs = (Inr stored, fs2)"
    and v: "fs3 = fs2 \<or> (\<exists>n bs x. store_encoded_blob_variant ?env now d n Zstd bs fs2 = (Inr x, fs3))"
    and rm: "remove_blob_upload_state ue d fs3 = (Inr (), fs')" by blast
  have i1: "store_inv ?env fs" "apart fs" using i by (simp_all add: upload_inv_def)
  note spec = store_blob_for_digest_spec [OF l i1(1) st]
  show "sb_digest (vr_blob stored) = d" by (rule spec(4))
  obtain c where c: "fs_content (blob_file d) fs2 = Some c" using spec(1) by blast
  have "apart fs2"
    using keeps_run [OF store_frame.keeps_store_blob_for_digest [OF apart_frame] st] i1 by blast
  then have "store_inv ?env fs2 \<and> fs_content (blob_file d) fs2 = Some c \<and> apart fs2" using spec(1) c by blast
  moreover note frame = blob_session_frame [OF spec(2), of ?env c]
  note variant = store_frame.keeps_variant [OF session_frame.axioms(1) [OF frame]]
    store_frame.keeps_variant [OF apart_frame [of ?env]]
  ultimately have "store_inv ?env fs3 \<and> fs_content (blob_file d) fs3 = Some c \<and> apart fs3"
    using v keeps_run [OF variant(1)] keeps_run [OF variant(2)] by metis
  then have "store_inv ?env fs' \<and> fs_content (blob_file d) fs' = Some c \<and> apart fs'"
    using keeps_run [OF session_frame.keeps_remove_session [OF frame] rm] by blast
  then show "stored_blob_ok ue d fs'"
    using spec(2) by (auto simp: stored_blob_ok_def store_inv_def integrity_def)
qed

definition incomplete :: "connection \<Rightarrow> bool" where
  "incomplete cn \<longleftrightarrow> list_all (\<lambda>m. case m of Control (UploadComplete _ _ _ _) \<Rightarrow> False | _ \<Rightarrow> True) (cn_sent cn)"

definition complete_ok :: "upload_env \<Rightarrow> connection \<Rightarrow> bool" where
  "complete_ok ue cn \<longleftrightarrow> (\<forall>v w d b. Control (UploadComplete v w d b) \<in> set (cn_sent cn) \<longrightarrow> stored_blob_ok ue d (cn_store cn))"

lemma incomplete_ok: "incomplete cn \<Longrightarrow> complete_ok ue cn"
  by (auto simp: incomplete_def complete_ok_def list_all_iff)

lemma on_store_sent [simp]: "cn_sent (snd (on_store m cn)) = cn_sent cn"
  by (simp add: on_store_def split: prod.split)

lemma count_upload_sent [simp]: "cn_sent (count_upload n b cn) = cn_sent cn"
  by (simp add: count_upload_def)

lemma incomplete_send:
  assumes "incomplete cn" "\<And>v w d b. m \<noteq> UploadComplete v w d b"
  shows "incomplete (snd (ws_send ue (Control m) cn))"
  using assms by (cases m) (auto simp: incomplete_def ws_send_def)

lemma incomplete_error: "incomplete cn \<Longrightarrow> complete_ok ue (send_blob_upload_error ue' w d c t cn)"
  by (rule incomplete_ok) (auto simp: incomplete_def send_blob_upload_error_def send_and_close_def ws_send_def)

lemma complete_send:
  assumes "incomplete cn" "stored_blob_ok ue d (cn_store cn)"
  shows "complete_ok ue (send_and_close ue' (UploadComplete v w d b) cn)"
  using assms incomplete_ok [OF assms(1), of ue]
  by (auto simp: complete_ok_def send_and_close_def ws_send_def)

lemma on_store_run:
  "on_store m cn = (r, cn') \<longleftrightarrow> (\<exists>fs. m (cn_store cn) = (r, fs) \<and> cn' = cn\<lparr> cn_store := fs \<rparr>)"
  by (auto simp: on_store_def split: prod.splits)

lemma incomplete_on_store: "on_store m cn = (r, cn') \<Longrightarrow> incomplete cn \<Longrightarrow> incomplete cn'"
  by (auto simp: on_store_run incomplete_def)

lemma finish_upload_ok:
  assumes l: "se_hard_link (ue_store ue) \<noteq> Some EEXIST" and i: "upload_inv ue (cn_store cn)" and n: "incomplete cn"
  shows "complete_ok ue (finish_upload ue now w d raw cn)"
proof -
  obtain r cn' where run: "on_store (finalize_blob_upload_session ue now d) cn = (r, cn')" by fastforce
  have n': "incomplete cn'" by (rule incomplete_on_store [OF run n])
  show ?thesis
  proof (cases r)
    case (Inl e)
    then show ?thesis using incomplete_error [OF n'] by (simp add: finish_upload_def run)
  next
    case (Inr stored)
    then obtain fs where fs: "finalize_blob_upload_session ue now d (cn_store cn) = (Inr stored, fs)"
      "cn' = cn\<lparr> cn_store := fs \<rparr>"
      using run by (auto simp: on_store_run)
    have "incomplete (count_upload raw b cn')" for b using n' by (simp add: incomplete_def)
    then show ?thesis
      using finalize_stores [OF l i fs(1)] Inr fs(2) by (simp add: finish_upload_def run complete_send)
  qed
qed

lemma incomplete_ws_send:
  "ws_send ue (Control m) cn = (b, cn') \<Longrightarrow> incomplete cn \<Longrightarrow> (\<And>v w d u. m \<noteq> UploadComplete v w d u) \<Longrightarrow>
     incomplete cn' \<and> cn_store cn' = cn_store cn"
  using incomplete_send [of cn m ue] upload_laws.sends_keep_store(1) [of ue "Control m" cn] by simp

lemma receive_chunk_ok:
  assumes l: "se_hard_link (ue_store ue) \<noteq> Some EEXIST" and i: "upload_inv ue (cn_store cn)" and n: "incomplete cn"
    and run: "receive_chunk ue now frame session cn = (r, cn')"
  shows "case r of None \<Rightarrow> complete_ok ue cn' | Some _ \<Rightarrow> incomplete cn' \<and> upload_inv ue (cn_store cn')"
proof (cases "decode (ue_adler32 ue) frame")
  case (Inl e)
  then show ?thesis using run incomplete_error [OF n] by (auto simp: receive_chunk_def)
next
  case (Inr hp)
  obtain header payload where hp: "hp = (header, payload)" by fastforce
  let ?m = "append_blob_upload_chunk ue (us_digest session) (us_raw_size_bytes session)
    (us_stream_size_bytes session) (us_chunk_size_bytes session) (us_selected_encoding session) payload"
  obtain q cn1 where app: "on_store ?m cn = (q, cn1)" by fastforce
  have i1: "upload_inv ue (cn_store cn1)"
    using upload_laws.on_store_keeps [OF upload_laws.keeps_append app, of "ue_store ue"] i by (simp add: upload_inv_def)
  have n1: "incomplete cn1" by (rule incomplete_on_store [OF app n])
  have ack: "incomplete cn2 \<and> upload_inv ue (cn_store cn2)"
    if "ws_send ue (Control (UploadAck v w d s z p y)) cn1 = (b, cn2)" for v w d s z p y b cn2
    using incomplete_ws_send [OF that n1] i1 by simp
  show ?thesis
    using run
    by (auto simp: receive_chunk_def Inr hp Let_def app incomplete_error n n1 incomplete_ok
        finish_upload_ok [OF l] split: if_splits sum.splits prod.splits bool.splits dest!: ack)
qed

lemma receive_chunks_ok:
  "se_hard_link (ue_store ue) \<noteq> Some EEXIST \<Longrightarrow> upload_inv ue (cn_store cn) \<Longrightarrow> incomplete cn \<Longrightarrow>
     complete_ok ue (receive_chunks ue now ms session cn)"
proof (induction ue now ms session cn rule: receive_chunks.induct)
  case (3 ue now frame ms session cn)
  obtain r cn' where run: "receive_chunk ue now frame session cn = (r, cn')" by fastforce
  show ?case
    using receive_chunk_ok [OF 3(2-4) run] 3(1) [OF run [symmetric]] 3(2) run by (cases r) simp_all
qed (simp_all add: incomplete_ok incomplete_error)

lemma start_session_ok:
  assumes l: "se_hard_link (ue_store ue) \<noteq> Some EEXIST" and i: "upload_inv ue (cn_store cn)" and n: "incomplete cn"
  shows "complete_ok ue (start_session ue now init enc stream ms cn)"
proof -
  let ?m = "prepare_blob_upload_session ue (ui_digest init) (ui_total_size_bytes init) stream
    (ui_chunk_size_bytes init) enc"
  obtain q cn1 where app: "on_store ?m cn = (q, cn1)" by fastforce
  have i1: "upload_inv ue (cn_store cn1)"
    using upload_laws.on_store_keeps [OF upload_laws.keeps_prepare app, of "ue_store ue"] i by (simp add: upload_inv_def)
  have n1: "incomplete cn1" by (rule incomplete_on_store [OF app n])
  have res: "incomplete cn2 \<and> upload_inv ue (cn_store cn2)"
    if "ws_send ue (Control (UploadResume v w d s z p y)) cn1 = (b, cn2)" for v w d s z p y b cn2
    using incomplete_ws_send [OF that n1] i1 by simp
  show ?thesis
    by (auto simp: start_session_def Let_def app incomplete_error n1 i1 incomplete_ok
        finish_upload_ok [OF l] receive_chunks_ok [OF l] split: sum.split prod.split bool.split dest!: res)
qed

lemma has_blob_present:
  assumes i: "upload_inv ue fs" and run: "has_blob d fs = (Inr True, fs')"
  shows "fs' = fs" "stored_blob_ok ue d fs"
proof -
  have d: "digest_ok d"
    using run by (cases "digest_ok d") (auto simp: has_blob_def store_paths_bad act_Inr)
  then have e: "fs' = fs" "fs_node (blob_file d) fs \<noteq> None"
    using run by (auto simp: has_blob_def store_paths exists_at_def act_Inr)
  then obtain c where "fs_content (blob_file d) fs = Some c"
    using in_store_file_content i unfolding upload_inv_def by blast
  then show "stored_blob_ok ue d fs"
    using i d by (auto simp: stored_blob_ok_def upload_inv_def store_inv_def integrity_def)
  show "fs' = fs" by (rule e)
qed

lemma remove_session_keeps_stored:
  assumes i: "upload_inv ue fs" and s: "stored_blob_ok ue d fs"
  shows "stored_blob_ok ue d (snd (remove_blob_upload_state ue d' fs))"
proof -
  obtain c where c: "digest_ok d" "fs_content (blob_file d) fs = Some c" "se_sha256 (ue_store ue) c = d"
    using s by (auto simp: stored_blob_ok_def split: option.splits)
  have "fs_content (blob_file d) (snd (remove_blob_upload_state ue d' fs)) = Some c"
    using keepsD [OF session_frame.keeps_remove_session [OF blob_session_frame [OF c(1), of "ue_store ue" c]], of fs] i c(2)
    by (simp add: upload_inv_def)
  then show ?thesis using c by (simp add: stored_blob_ok_def)
qed

lemma start_upload_ok:
  assumes l: "se_hard_link (ue_store ue) \<noteq> Some EEXIST" and i: "upload_inv ue (cn_store cn)" and n: "incomplete cn"
  shows "complete_ok ue (start_upload ue now init ms cn)"
proof -
  obtain q cn1 where has: "on_store (has_blob (ui_digest init)) cn = (q, cn1)" by fastforce
  have n1: "incomplete cn1" by (rule incomplete_on_store [OF has n])
  have "keeps (\<lambda>fs. store_inv (ue_store ue) fs \<and> True \<and> apart fs) (has_blob (ui_digest init))"
    unfolding has_blob_def by (intro triple_rules)
  then have i1: "upload_inv ue (cn_store cn1)"
    using upload_laws.on_store_keeps [OF _ has, of "ue_store ue"] i by (simp add: upload_inv_def)
  let ?cn2 = "snd (on_store (remove_blob_upload_state ue (ui_digest init)) cn1)"
  have "complete_ok ue (send_and_close ue (UploadComplete v w (ui_digest init) False) (count_upload k False ?cn2))"
    if q: "q = Inr True" for v w k
  proof (rule complete_send)
    show "incomplete (count_upload k False ?cn2)" using n1 by (simp add: incomplete_def)
    obtain fs where fs: "has_blob (ui_digest init) (cn_store cn) = (Inr True, fs)" "cn1 = cn\<lparr> cn_store := fs \<rparr>"
      using has q by (auto simp: on_store_run)
    have "stored_blob_ok ue (ui_digest init) (cn_store cn1)"
      using has_blob_present [OF i fs(1)] fs(2) by simp
    from remove_session_keeps_stored [OF i1 this, of "ui_digest init"]
    show "stored_blob_ok ue (ui_digest init) (cn_store (count_upload k False ?cn2))"
      by (auto simp: on_store_def split: prod.splits)
  qed
  then show ?thesis
    by (auto simp: start_upload_def Let_def has incomplete_error n n1 start_session_ok [OF l i1 n1]
        split: sum.split prod.split bool.split)
qed

lemma handle_ok:
  assumes l: "se_hard_link (ue_store ue) \<noteq> Some EEXIST" and i: "upload_inv ue (cn_store cn)" and n: "incomplete cn"
  shows "complete_ok ue (handle_blob_upload_ws ue now ms cn)"
proof (cases "(ue, now, ms, cn)" rule: handle_blob_upload_ws.cases)
  case (3 ue' now' t ms' cn')
  then show ?thesis using assms by (simp add: start_upload_ok incomplete_error split: sum.split)
qed (use n in \<open>simp_all add: incomplete_ok incomplete_error\<close>)

text \<open>C19: whatever a client sends over an upload connection, in whatever order and however its
  messages are malformed, and wherever the connection breaks: the store keeps its invariant, every blob
  that was stored keeps its contents, and each digest that the server reported complete is a blob of
  the store whose contents hash to it.\<close>

theorem ws_upload_safe:
  assumes l: "se_hard_link (ue_store ue) \<noteq> Some EEXIST" and i: "upload_inv ue (st_store s)"
    and run: "ws_blob_upload ue now headers ms s = (Inr sent, s')"
  shows "upload_inv ue (st_store s')
    \<and> (\<forall>d c. digest_ok d \<and> fs_content (blob_file d) (st_store s) = Some c \<longrightarrow>
         fs_content (blob_file d) (st_store s') = Some c)
    \<and> (\<forall>v w d b. Control (UploadComplete v w d b) \<in> set sent \<longrightarrow>
         (\<exists>c. fs_content (blob_file d) (st_store s') = Some c \<and> se_sha256 (ue_store ue) c = d))"
proof -
  define cn where "cn = \<lparr> cn_sent = [], cn_tries = 0, cn_store = st_store s, cn_metrics = st_metrics s \<rparr>"
  let ?cn = "handle_blob_upload_ws ue now ms cn"
  have r: "sent = cn_sent ?cn" "st_store s' = cn_store ?cn"
    using run by (auto simp: ws_blob_upload_def cn_def Let_def split: sum.splits)
  have i': "upload_inv ue (cn_store cn)" "incomplete cn" using i by (simp_all add: cn_def incomplete_def)
  show ?thesis
    unfolding r
  proof (intro conjI allI impI)
    show "upload_inv ue (cn_store ?cn)"
      using upload_laws.handle_keeps [OF refl, where cn = cn and ue = ue] i' by (simp add: upload_inv_def)
    show "fs_content (blob_file d) (cn_store ?cn) = Some c"
      if "digest_ok d \<and> fs_content (blob_file d) (st_store s) = Some c" for d c
      using session_frame.handle_keeps [OF blob_session_frame [of d _ c] refl, where cn = cn and ue = ue] i' that
      by (simp add: upload_inv_def cn_def)
    show "\<exists>c. fs_content (blob_file d) (cn_store ?cn) = Some c \<and> se_sha256 (ue_store ue) c = d"
      if "Control (UploadComplete v w d b) \<in> set (cn_sent ?cn)" for v w d b
    proof -
      have "stored_blob_ok ue d (cn_store ?cn)"
        using handle_ok [OF l i', of now ms] that unfolding complete_ok_def by blast
      then show ?thesis by (auto simp: stored_blob_ok_def split: option.splits)
    qed
  qed
qed

text \<open>A connection that uploads one byte.\<close>

definition sample_frame :: bytes where
  "sample_frame =
     (case encode_with_payload (ue_adler32 sample_upload_env) (from_payload (ue_adler32 sample_upload_env) 0 0 [1]) [1] of
        Inr frame \<Rightarrow> frame | Inl _ \<Rightarrow> [])"

lemma sample_upload_run:
  "fst (ws_blob_upload sample_upload_env 0 [] [WsText ''upload'', WsPing, WsBinary sample_frame] (sample_state 2 []))
   = Inr [Control (UploadResume 1 7 (sample_sha256 [1]) 0 0 None 1),
          Control (UploadAck 1 7 (sample_sha256 [1]) 0 0 1 1),
          Control (UploadComplete 1 7 (sample_sha256 [1]) True), CloseFrame]"
  by code_simp

theorem ws_upload_safe_witness:
  "\<exists>c s'. ws_blob_upload sample_upload_env 0 [] [WsText ''upload'', WsPing, WsBinary sample_frame] (sample_state 2 [])
      = (Inr [Control (UploadResume 1 7 (sample_sha256 [1]) 0 0 None 1),
          Control (UploadAck 1 7 (sample_sha256 [1]) 0 0 1 1),
          Control (UploadComplete 1 7 (sample_sha256 [1]) True), CloseFrame], s')
     \<and> fs_content (blob_file (sample_sha256 [1])) (st_store s') = Some c \<and> sample_sha256 c = sample_sha256 [1]"
proof -
  obtain r s' where run: "ws_blob_upload sample_upload_env 0 [] [WsText ''upload'', WsPing, WsBinary sample_frame]
      (sample_state 2 []) = (r, s')" by fastforce
  have l: "se_hard_link (ue_store sample_upload_env) \<noteq> Some EEXIST" by code_simp
  have "st_store (sample_state 2 []) = empty_fs" by code_simp
  then have i: "upload_inv sample_upload_env (st_store (sample_state 2 []))"
    using store_inv_empty by (simp add: upload_inv_def apart_def) (simp add: empty_fs_def)
  have r: "r = fst (ws_blob_upload sample_upload_env 0 [] [WsText ''upload'', WsPing, WsBinary sample_frame]
      (sample_state 2 []))" using run by simp
  note run = run [unfolded r sample_upload_run]
  have "se_sha256 (ue_store sample_upload_env) = sample_sha256"
    by (simp add: sample_upload_env_def sample_store_env_def)
  then show ?thesis using ws_upload_safe [OF l i run] run by auto
qed

end
