(* ===== verification/Upload_Resume.thy ===== *)
theory Upload_Resume
imports Upload_Session
begin

text \<open>The session of an upload on disk: what its two files hold, and what resuming, appending and
  finalising do with them.\<close>

section \<open>The files of a session\<close>

definition session_temp :: "upload_env \<Rightarrow> string \<Rightarrow> path" where
  "session_temp ue d = blob_upload_session_dir @ [d @ ''.json.tmp-'' @ se_uuid (ue_store ue)]"

definition session_state ::
    "string \<Rightarrow> nat \<Rightarrow> nat \<Rightarrow> nat \<Rightarrow> string option \<Rightarrow> nat \<Rightarrow> nat \<Rightarrow> persisted_blob_upload_state" where
  "session_state d raw stream chunk enc n received =
     \<lparr> pu_digest = d, pu_raw_size_bytes = raw, pu_stream_size_bytes = stream, pu_chunk_size_bytes = chunk,
       pu_selected_encoding = enc, pu_next_sequence = n, pu_next_offset_bytes = received,
       pu_received_bytes = received \<rparr>"

text \<open>The part file holds the bytes; there may be none while they are empty.\<close>

definition part_holds :: "string \<Rightarrow> bytes \<Rightarrow> fs \<Rightarrow> bool" where
  "part_holds d bs fs \<longleftrightarrow>
     (case fs_node (blob_upload_session_part_path d) fs of
        None \<Rightarrow> bs = []
      | Some Dir \<Rightarrow> False
      | Some (File _) \<Rightarrow> fs_content (blob_upload_session_part_path d) fs = Some bs)"

definition on_disk ::
    "upload_env \<Rightarrow> string \<Rightarrow> nat \<Rightarrow> nat \<Rightarrow> nat \<Rightarrow> string option \<Rightarrow> nat \<Rightarrow> bytes \<Rightarrow> fs \<Rightarrow> bool" where
  "on_disk ue d raw stream chunk enc n bs fs \<longleftrightarrow>
     fs_node blob_upload_session_dir fs = Some Dir \<and> fs_node (session_temp ue d) fs = None
     \<and> fs_content (blob_upload_session_meta_path d) fs
         = Some (ue_enc_state ue (session_state d raw stream chunk enc n (length bs)))
     \<and> part_holds d bs fs \<and> (bs \<noteq> [] \<longrightarrow> 0 < n)"

text \<open>No session yet.\<close>

definition no_session :: "upload_env \<Rightarrow> string \<Rightarrow> fs \<Rightarrow> bool" where
  "no_session ue d fs \<longleftrightarrow>
     (fs_node blob_upload_session_dir fs = None \<or> fs_node blob_upload_session_dir fs = Some Dir)
     \<and> fs_node (session_temp ue d) fs = None \<and> fs_node (blob_upload_session_meta_path d) fs = None
     \<and> fs_node (blob_upload_session_part_path d) fs = None"

definition codec_ok :: "upload_env \<Rightarrow> bool" where
  "codec_ok ue \<longleftrightarrow> (\<forall>st. ue_dec_state ue (ue_enc_state ue st) = Inr st)"

lemmas session_path_defs = blob_upload_session_meta_path_def blob_upload_session_part_path_def
  session_temp_def blob_upload_session_dir_def

lemma session_paths_distinct:
  "session_temp ue d \<noteq> blob_upload_session_meta_path d" "session_temp ue d \<noteq> blob_upload_session_part_path d"
  "blob_upload_session_meta_path d \<noteq> blob_upload_session_part_path d"
  "blob_upload_session_dir \<noteq> session_temp ue d" "blob_upload_session_dir \<noteq> blob_upload_session_meta_path d"
  "blob_upload_session_dir \<noteq> blob_upload_session_part_path d"
  by (simp_all add: session_path_defs)

lemma session_paths_ne [simp]:
  "session_temp ue d \<noteq> []" "blob_upload_session_meta_path d \<noteq> []" "blob_upload_session_part_path d \<noteq> []"
  "blob_upload_session_dir \<noteq> []"
  "butlast (session_temp ue d) = blob_upload_session_dir"
  "butlast (blob_upload_session_meta_path d) = blob_upload_session_dir"
  "butlast (blob_upload_session_part_path d) = blob_upload_session_dir"
  by (simp_all add: session_path_defs)

lemma blob_not_session: "\<not> in_sessions (blob_file d)"
  by (simp add: store_files BLOB_UPLOAD_SESSION_SUBDIR_def)

lemma session_missing:
  assumes "fs_node blob_upload_session_dir fs = Some Dir"
  shows "missing_errno (blob_upload_session_meta_path d) fs = ENOENT"
    "missing_errno (blob_upload_session_part_path d) fs = ENOENT"
  using assms by (auto simp: missing_errno_def path_prefixes_def is_file_def session_path_defs)

lemma create_session_dir_there:
  "fs_node blob_upload_session_dir fs = Some Dir \<Longrightarrow> create_session_dir ue fs = (Inr (), fs)"
  by (simp add: create_session_dir_def in_context_eq fs_create_dir_all_def path_prefixes_def
      blob_upload_session_dir_def)

lemma create_session_dir_new:
  assumes "fs_node blob_upload_session_dir fs = None"
  shows "create_session_dir ue fs = (Inr (), fs\<lparr> fs_tree := hm_insert blob_upload_session_dir Dir (fs_tree fs) \<rparr>)"
  using assms by (simp add: create_session_dir_def in_context_eq fs_create_dir_all_def path_prefixes_def
      blob_upload_session_dir_def)

lemma load_session:
  "codec_ok ue \<Longrightarrow> fs_content (blob_upload_session_meta_path d) fs = Some (ue_enc_state ue st) \<Longrightarrow>
     load_blob_upload_state ue d fs = (Inr (Some st), fs)"
  "fs_node blob_upload_session_dir fs = Some Dir \<Longrightarrow> fs_node (blob_upload_session_meta_path d) fs = None \<Longrightarrow>
     load_blob_upload_state ue d fs = (Inr None, fs)"
  by (auto simp: load_blob_upload_state_def Let_def act_match_def fs_read_def fs_content_def act_return_def
      codec_ok_def session_missing is_not_found_error_def split: option.splits node.splits)

lemma part_length_eq:
  assumes "fs_node blob_upload_session_dir fs = Some Dir" "part_holds d bs fs"
  shows "part_length ue d fs = (Inr (length bs), fs)"
  using assms
  by (auto simp: part_length_def Let_def act_match_def fs_metadata_def part_holds_def fs_content_def act_return_def
      session_missing is_not_found_error_def split: option.splits node.splits)

lemma persist_session:
  assumes d: "fs_node blob_upload_session_dir fs = Some Dir" and t: "fs_node (session_temp ue (pu_digest st)) fs = None"
    and m: "fs_node (blob_upload_session_meta_path (pu_digest st)) fs \<noteq> Some Dir"
  obtains fs' where "persist_blob_upload_state ue st fs = (Inr (), fs')"
    "adds (blob_upload_session_meta_path (pu_digest st)) (ue_enc_state ue st) fs fs'"
proof -
  let ?t = "session_temp ue (pu_digest st)" and ?m = "blob_upload_session_meta_path (pu_digest st)"
  let ?bs = "ue_enc_state ue st"
  let ?fs1 = "fs_add ?t ?bs fs"
  let ?fs2 = "?fs1\<lparr> fs_tree := hm_insert ?m (File (fs_next fs)) (fs_tree fs) \<rparr>"
  have w: "fs_write ?t ?bs fs = (Inr (), ?fs1)" using d t by (simp add: fs_write_def)
  have gone: "hm_remove ?t (fs_tree ?fs1) = fs_tree fs"
    using t by (simp add: fs_add_def fs_node_def hm_remove_insert_new)
  have n1: "fs_node ?t ?fs1 = Some (File (fs_next fs))" "fs_node ?m ?fs1 = fs_node ?m fs"
    "fs_node blob_upload_session_dir ?fs1 = Some Dir"
    using d by (simp_all add: fs_node_add session_paths_distinct session_paths_distinct [symmetric])
  have r: "fs_rename ?t ?m ?fs1 = (Inr (), ?fs2)"
    using n1 m gone by (simp add: fs_rename_def)
  have "persist_blob_upload_state ue st fs = (Inr (), ?fs2)"
    using w r create_session_dir_there [OF d]
    by (simp add: persist_blob_upload_state_def Let_def act_bind_def in_context_eq session_temp_def)
  moreover have "adds ?m ?bs fs ?fs2"
    using d m by (auto simp: adds_def fs_add_def hm_wf_insert)
  ultimately show thesis using that by blast
qed

lemma not_dir_content: "fs_content p fs = Some bs \<Longrightarrow> fs_node p fs \<noteq> Some Dir"
  by (auto simp: fs_content_def)

lemma part_holds_cong:
  "fs_node (blob_upload_session_part_path d) fs' = fs_node (blob_upload_session_part_path d) fs \<Longrightarrow>
   fs_content (blob_upload_session_part_path d) fs' = fs_content (blob_upload_session_part_path d) fs \<Longrightarrow>
     part_holds d bs fs' \<longleftrightarrow> part_holds d bs fs"
  by (simp add: part_holds_def split: option.split node.split)

lemma on_disk_adds:
  assumes w: "fs_wf fs" and a: "adds (blob_upload_session_meta_path d)
      (ue_enc_state ue (session_state d raw stream chunk enc n (length bs))) fs fs'"
    and d: "fs_node blob_upload_session_dir fs = Some Dir" and t: "fs_node (session_temp ue d) fs = None"
    and p: "part_holds d bs fs" and pos: "bs \<noteq> [] \<longrightarrow> 0 < n"
  shows "on_disk ue d raw stream chunk enc n bs fs'"
proof -
  have n: "fs_node q fs' = fs_node q fs" if "q \<noteq> blob_upload_session_meta_path d" for q
    by (rule adds_node [OF a that])
  have c: "fs_content q fs' = fs_content q fs" if "q \<noteq> blob_upload_session_meta_path d" for q
    using adds_content [OF a w, of q] that by simp
  note dist = session_paths_distinct(1,5) session_paths_distinct(3) [symmetric]
  have "part_holds d bs fs'" using p part_holds_cong [OF n c, OF dist(3) dist(3)] by blast
  moreover have "fs_node blob_upload_session_dir fs' = Some Dir" using n [OF dist(2)] d by simp
  moreover have "fs_node (session_temp ue d) fs' = None" using n [OF dist(1)] t by simp
  ultimately show ?thesis
    using pos adds_content [OF a w, of "blob_upload_session_meta_path d"] unfolding on_disk_def by simp
qed

section \<open>Resuming\<close>

lemma resume_counters_ok:
  "received = 0 \<or> 0 < n \<Longrightarrow>
     resume_counters d received (session_state d raw stream chunk enc n received)
       = Inr (session_state d raw stream chunk enc n received)"
  by (auto simp: resume_counters_def session_state_def)

lemma session_mismatch_none: "session_mismatch d raw stream chunk enc (session_state d raw stream chunk enc n r) = None"
  by (simp add: session_mismatch_def session_state_def)

lemma prepare_resumes:
  assumes c: "codec_ok ue" and i: "upload_inv ue fs" and o: "on_disk ue d raw stream chunk enc n bs fs"
    and l: "length bs \<le> stream"
  obtains fs' where "prepare_blob_upload_session ue d raw stream chunk enc fs
      = (Inr (session_state d raw stream chunk enc n (length bs)), fs')"
    "on_disk ue d raw stream chunk enc n bs fs'" "upload_inv ue fs'"
    "adds (blob_upload_session_meta_path d) (ue_enc_state ue (session_state d raw stream chunk enc n (length bs))) fs fs'"
proof -
  let ?st = "session_state d raw stream chunk enc n (length bs)"
  have w: "fs_wf fs" using i by (simp add: upload_inv_def store_inv_def)
  have dir: "fs_node blob_upload_session_dir fs = Some Dir" and t: "fs_node (session_temp ue d) fs = None"
    and p: "part_holds d bs fs" and m: "fs_content (blob_upload_session_meta_path d) fs = Some (ue_enc_state ue ?st)"
    and n: "bs \<noteq> [] \<longrightarrow> 0 < n"
    using o by (simp_all add: on_disk_def)
  obtain fs' where per: "persist_blob_upload_state ue ?st fs = (Inr (), fs')"
    and a: "adds (blob_upload_session_meta_path d) (ue_enc_state ue ?st) fs fs'"
    using persist_session [of fs ue ?st] dir t not_dir_content [OF m] by (auto simp: session_state_def)
  have rc: "resume_counters d (length bs) ?st = Inr ?st" using n by (intro resume_counters_ok) auto
  have run: "prepare_blob_upload_session ue d raw stream chunk enc fs = (Inr ?st, fs')"
    using l by (simp add: prepare_blob_upload_session_def act_bind_def create_session_dir_there [OF dir]
        load_session(1) [OF c m] Let_def session_mismatch_none part_length_eq [OF dir p] rc per
        act_return_def)
  have i': "upload_inv ue fs'"
    using keeps_run [OF upload_laws.keeps_prepare run, of "ue_store ue"] i by (simp add: upload_inv_def)
  show thesis by (rule that [OF run on_disk_adds [OF w a dir t p n] i' a])
qed

lemma prepare_fresh:
  assumes i: "upload_inv ue fs" and no: "no_session ue d fs"
  obtains fs' where "prepare_blob_upload_session ue d raw stream chunk enc fs
      = (Inr (session_state d raw stream chunk enc 0 0), fs')"
    "on_disk ue d raw stream chunk enc 0 [] fs'" "upload_inv ue fs'"
    "fs_node (blob_upload_session_part_path d) fs' = None"
    "\<forall>q. \<not> in_sessions q \<longrightarrow> fs_node q fs' = fs_node q fs"
proof -
  let ?st = "session_state d raw stream chunk enc 0 0"
  obtain fs1 where dir1: "create_session_dir ue fs = (Inr (), fs1)" "fs_node blob_upload_session_dir fs1 = Some Dir"
    and same: "\<And>q. q \<noteq> blob_upload_session_dir \<Longrightarrow> fs_node q fs1 = fs_node q fs"
  proof (cases "fs_node blob_upload_session_dir fs")
    case None
    then show thesis by (intro that [OF create_session_dir_new [OF None, of ue]]) (auto simp: fs_node_def)
  next
    case (Some n)
    then have "fs_node blob_upload_session_dir fs = Some Dir" using no by (auto simp: no_session_def)
    then show thesis by (intro that [OF create_session_dir_there]) auto
  qed
  have w1: "fs_wf fs1"
    using keeps_run [OF upload_laws.keeps_create_session_dir dir1(1), of "ue_store ue"] i
    by (simp add: upload_inv_def store_inv_def)
  have n1: "fs_node (session_temp ue d) fs1 = None" "fs_node (blob_upload_session_meta_path d) fs1 = None"
    "fs_node (blob_upload_session_part_path d) fs1 = None"
    using no same session_paths_distinct(4-6) [symmetric] by (simp_all add: no_session_def)
  have p1: "part_holds d [] fs1" using n1 by (simp add: part_holds_def)
  obtain fs' where per: "persist_blob_upload_state ue ?st fs1 = (Inr (), fs')"
    and a: "adds (blob_upload_session_meta_path d) (ue_enc_state ue ?st) fs1 fs'"
    using persist_session [of fs1 ue ?st] dir1 n1 by (auto simp: session_state_def)
  have st: "?st = \<lparr> pu_digest = d, pu_raw_size_bytes = raw, pu_stream_size_bytes = stream,
             pu_chunk_size_bytes = chunk, pu_selected_encoding = enc, pu_next_sequence = 0,
             pu_next_offset_bytes = 0, pu_received_bytes = 0 \<rparr>" by (simp add: session_state_def)
  have rc: "resume_counters d 0 ?st = Inr ?st" by (intro resume_counters_ok) simp
  have run: "prepare_blob_upload_session ue d raw stream chunk enc fs = (Inr ?st, fs')"
    unfolding prepare_blob_upload_session_def st [symmetric]
    by (simp add: act_bind_def dir1(1) load_session(2) [OF dir1(2) n1(2)] Let_def session_mismatch_none
        part_length_eq [OF dir1(2) p1] rc per act_return_def)
  have i': "upload_inv ue fs'"
    using keeps_run [OF upload_laws.keeps_prepare run, of "ue_store ue"] i by (simp add: upload_inv_def)
  have o': "on_disk ue d raw stream chunk enc 0 [] fs'"
    by (rule on_disk_adds [OF w1 _ dir1(2) n1(1) p1]) (use a in simp_all)
  have np: "fs_node (blob_upload_session_part_path d) fs' = None"
    using adds_node [OF a session_paths_distinct(3) [symmetric]] n1(3) by simp
  have "fs_node q fs' = fs_node q fs" if "\<not> in_sessions q" for q
  proof -
    have "q \<noteq> blob_upload_session_dir" "q \<noteq> blob_upload_session_meta_path d"
      using that session_paths(1,3) by blast+
    then show ?thesis using adds_node [OF a] same by simp
  qed
  then have "\<forall>q. \<not> in_sessions q \<longrightarrow> fs_node q fs' = fs_node q fs" by blast
  then show thesis by (rule that [OF run o' i' np])
qed

section \<open>Appending\<close>

lemma act_bind_step: "m s = (Inr x, s') \<Longrightarrow> act_bind m f s = f x s'"
  by (simp add: act_bind_def)

lemma append_part:
  assumes w: "fs_wf fs" and dir: "fs_node blob_upload_session_dir fs = Some Dir" and p: "part_holds d bs fs"
    and own: "\<And>j. fs_node (blob_upload_session_part_path d) fs = Some (File j) \<Longrightarrow>
      fs_node q fs \<noteq> Some (File j)"
    and q: "q \<noteq> blob_upload_session_part_path d"
  obtains fs' where "fs_append (blob_upload_session_part_path d) payload fs = (Inr (), fs')"
    "part_holds d (bs @ payload) fs'" "fs_content q fs' = fs_content q fs"
    "\<forall>x. x \<noteq> blob_upload_session_part_path d \<longrightarrow> fs_node x fs' = fs_node x fs"
    "is_file (blob_upload_session_part_path d) fs'"
proof (cases "fs_node (blob_upload_session_part_path d) fs")
  case None
  let ?fs = "fs_add (blob_upload_session_part_path d) payload fs"
  have "fs_append (blob_upload_session_part_path d) payload fs = (Inr (), ?fs)"
    using None dir by (simp add: fs_append_def fs_write_def)
  moreover have "adds (blob_upload_session_part_path d) payload fs ?fs"
    using None dir by (auto simp: adds_def fs_add_def hm_wf_insert)
  then have c: "fs_content x ?fs = (if x = blob_upload_session_part_path d then Some payload else fs_content x fs)" for x
    using adds_content [OF _ w] by blast
  moreover have "part_holds d (bs @ payload) ?fs"
    using p None c by (simp add: part_holds_def fs_node_add)
  moreover have "fs_node x ?fs = fs_node x fs" if "x \<noteq> blob_upload_session_part_path d" for x
    using that by (simp add: fs_node_def fs_add_def)
  ultimately show thesis using that [of ?fs] q by (simp add: is_file_def fs_node_add)
next
  case (Some n)
  obtain j where j: "n = File j" "map_of (fs_inodes fs) j = Some bs"
    using p Some by (auto simp: part_holds_def fs_content_def split: node.splits)
  let ?fs = "fs\<lparr> fs_inodes := hm_insert j (bs @ payload) (fs_inodes fs) \<rparr>"
  have n: "fs_node x ?fs = fs_node x fs" for x by (simp add: fs_node_def)
  have "fs_append (blob_upload_session_part_path d) payload fs = (Inr (), ?fs)"
    using Some j by (simp add: fs_append_def fs_write_def)
  moreover have "part_holds d (bs @ payload) ?fs" using Some j by (simp add: part_holds_def n fs_content_def)
  moreover have "fs_content q ?fs = fs_content q fs"
    using own Some j by (auto simp: fs_content_def n split: option.split node.split)
  ultimately show thesis using that [of ?fs] n Some j by (simp add: is_file_def)
qed

lemma append_chunk:
  assumes c: "codec_ok ue" and i: "upload_inv ue fs" and o: "on_disk ue d raw stream chunk enc n bs fs"
    and ne: "payload \<noteq> []" and l: "length bs + length payload \<le> stream" and b: "stream < 2 ^ 64" "n < u64_max"
  obtains fs' where "append_blob_upload_chunk ue d raw stream chunk enc payload fs
      = (Inr (session_state d raw stream chunk enc (n + 1) (length (bs @ payload))), fs')"
    "on_disk ue d raw stream chunk enc (n + 1) (bs @ payload) fs'" "upload_inv ue fs'"
    "is_file (blob_upload_session_part_path d) fs'"
    "\<forall>q. \<not> in_sessions q \<longrightarrow> fs_node q fs' = fs_node q fs"
proof -
  let ?st = "session_state d raw stream chunk enc n (length bs)"
  let ?st' = "session_state d raw stream chunk enc (n + 1) (length (bs @ payload))"
  let ?m = "blob_upload_session_meta_path d" and ?p = "blob_upload_session_part_path d"
  have w: "fs_wf fs" using i by (simp add: upload_inv_def store_inv_def)
  have lb: "length bs \<le> stream" using l by simp
  obtain fs1 where prep: "prepare_blob_upload_session ue d raw stream chunk enc fs = (Inr ?st, fs1)"
    and o1: "on_disk ue d raw stream chunk enc n bs fs1" and i1: "upload_inv ue fs1"
    and a1: "adds ?m (ue_enc_state ue ?st) fs fs1"
    by (rule prepare_resumes [OF c i o lb])
  have w1: "fs_wf fs1" using i1 by (simp add: upload_inv_def store_inv_def)
  have dir1: "fs_node blob_upload_session_dir fs1 = Some Dir" and t1: "fs_node (session_temp ue d) fs1 = None"
    and p1: "part_holds d bs fs1" and m1: "fs_content ?m fs1 = Some (ue_enc_state ue ?st)"
    using o1 by (simp_all add: on_disk_def)
  have own: "fs_node ?m fs1 \<noteq> Some (File j)" if j: "fs_node ?p fs1 = Some (File j)" for j
  proof -
    have "map_of (fs_tree fs) ?p = Some (File j)"
      using j adds_node [OF a1 session_paths_distinct(3) [symmetric]] by (simp add: fs_node_def)
    then have "j < fs_next fs" by (rule fs_wfD(3) [OF w])
    then show ?thesis using a1 by (auto simp: adds_def fs_node_def)
  qed
  obtain fs2 where app: "fs_append ?p payload fs1 = (Inr (), fs2)" and p2: "part_holds d (bs @ payload) fs2"
    and m2: "fs_content ?m fs2 = fs_content ?m fs1" and n2: "\<forall>x. x \<noteq> ?p \<longrightarrow> fs_node x fs2 = fs_node x fs1"
    and f2: "is_file ?p fs2"
    by (rule append_part [OF w1 dir1 p1 own session_paths_distinct(3), where payload = payload])
  have d2: "fs_node blob_upload_session_dir fs2 = Some Dir" "fs_node (session_temp ue d) fs2 = None"
    using n2 dir1 t1 session_paths_distinct by simp_all
  have w2: "fs_wf fs2"
    using keeps_run [OF upload_laws.keeps_session_append [OF session_paths(2)] app, of "ue_store ue"] i1
    by (simp add: upload_inv_def store_inv_def)
  have dg: "pu_digest ?st' = d" by (simp add: session_state_def)
  obtain fs' where per: "persist_blob_upload_state ue ?st' fs2 = (Inr (), fs')"
    and a: "adds ?m (ue_enc_state ue ?st') fs2 fs'"
    by (rule persist_session [of fs2 ue ?st', unfolded dg, OF d2 not_dir_content [OF m2 [unfolded m1]]])
  have next_r: "(length bs + length payload) mod 2 ^ 64 = length bs + length payload"
    using l b(1) by (intro mod_less) linarith
  have st: "?st\<lparr> pu_received_bytes := length bs + length payload, pu_next_offset_bytes := length bs + length payload,
      pu_next_sequence := saturating_add n 1 \<rparr> = ?st'"
    using b(2) by (simp add: session_state_def saturating_add_def)
  have got: "pu_received_bytes ?st = length bs" "pu_next_sequence ?st = n" by (simp_all add: session_state_def)
  have run: "append_blob_upload_chunk ue d raw stream chunk enc payload fs = (Inr ?st', fs')"
  proof -
    have small: "\<not> length bs + length payload > stream" using l by simp
    have "in_context c (fs_append ?p payload) fs1 = (Inr (), fs2)" for c by (simp add: in_context_eq app)
    note steps = act_bind_step [of "prepare_blob_upload_session ue d raw stream chunk enc" fs, OF prep]
      act_bind_step [of "in_context c (fs_append ?p payload)" fs1 for c, OF this]
      act_bind_step [of "persist_blob_upload_state ue ?st'" fs2, OF per]
    show ?thesis
      by (simp only: append_blob_upload_chunk_def steps Let_def got next_r st small ne if_False simp_thms
          act_return_def)
  qed
  have i': "upload_inv ue fs'"
    using keeps_run [OF upload_laws.keeps_append run, of "ue_store ue"] i by (simp add: upload_inv_def)
  have o': "on_disk ue d raw stream chunk enc (n + 1) (bs @ payload) fs'"
    by (rule on_disk_adds [OF w2 a d2 p2]) simp
  have f': "is_file ?p fs'"
    using f2 adds_node [OF a session_paths_distinct(3) [symmetric]] by (simp add: is_file_def)
  have "fs_node q fs' = fs_node q fs" if "\<not> in_sessions q" for q
  proof -
    have "q \<noteq> ?p" "q \<noteq> ?m" using that session_paths(1,2) by blast+
    then show ?thesis using adds_node [OF a] adds_node [OF a1] n2 by simp
  qed
  then have "\<forall>q. \<not> in_sessions q \<longrightarrow> fs_node q fs' = fs_node q fs" by blast
  then show thesis by (rule that [OF run o' i' f'])
qed

section \<open>Finalising\<close>

text \<open>A session is spoiled when its bytes are complete and cannot become the blob.\<close>

definition spoiled :: "upload_env \<Rightarrow> string \<Rightarrow> nat \<Rightarrow> string option \<Rightarrow> bytes \<Rightarrow> fs \<Rightarrow> bool" where
  "spoiled ue d raw enc bs fs \<longleftrightarrow>
     (if is_file (blob_upload_session_part_path d) fs
      then (case decode_stream ue enc bs of
              Inl _ \<Rightarrow> True
            | Inr raw_bytes \<Rightarrow> length raw_bytes \<noteq> raw \<or> se_sha256 (ue_store ue) raw_bytes \<noteq> d)
      else bs = [])"

lemma finalize_start:
  assumes c: "codec_ok ue" and o: "on_disk ue d raw (length bs) chunk enc n bs fs"
  shows "finalize_blob_upload_session ue now d fs =
    act_bind (in_context (''Failed to read '' @ display_path (ue_store ue) (blob_upload_session_part_path d))
        (fs_read (blob_upload_session_part_path d))) (\<lambda>stream_bytes.
      act_bind (act_lift (decode_stream ue enc stream_bytes)) (\<lambda>raw_bytes.
      if length raw_bytes \<noteq> raw
      then act_fail (bail (''Upload session for '' @ d @ '' decoded to ''
             @ show_nat (length raw_bytes) @ '' raw bytes, expected '' @ show_nat raw))
      else
        act_bind (store_blob_for_digest (ue_store ue) now d raw_bytes) (\<lambda>stored.
        act_bind
          (if enc = Some SNAPSHOT_BLOB_ENCODING_ZSTD
           then act_bind (store_encoded_blob_variant (ue_store ue) now d raw Zstd stream_bytes) (\<lambda>_. act_return ())
           else act_return ()) (\<lambda>_.
        act_bind (remove_blob_upload_state ue d) (\<lambda>_.
        act_return stored))))) fs"
proof -
  let ?st = "session_state d raw (length bs) chunk enc n (length bs)"
  have dir: "fs_node blob_upload_session_dir fs = Some Dir" and p: "part_holds d bs fs"
    and m: "fs_content (blob_upload_session_meta_path d) fs = Some (ue_enc_state ue ?st)"
    using o by (simp_all add: on_disk_def)
  have got: "pu_raw_size_bytes ?st = raw" "pu_stream_size_bytes ?st = length bs" "pu_selected_encoding ?st = enc"
    by (simp_all add: session_state_def)
  note steps = act_bind_step [of "load_blob_upload_state ue d" fs, OF load_session(1) [OF c m]]
    act_bind_step [of "part_length ue d" fs, OF part_length_eq [OF dir p]]
  show ?thesis
    by (simp only: finalize_blob_upload_session_def steps Let_def got option.case if_False simp_thms)
qed

lemma read_part:
  assumes "on_disk ue d raw stream chunk enc n bs fs"
  shows "fs_read (blob_upload_session_part_path d) fs
    = (if is_file (blob_upload_session_part_path d) fs then Inr bs else Inl (os_error ENOENT), fs)"
  using assms
  by (auto simp: on_disk_def part_holds_def fs_read_def is_file_def fs_content_def session_missing
      split: option.splits node.splits)

lemma finalize_spoiled:
  assumes c: "codec_ok ue" and o: "on_disk ue d raw (length bs) chunk enc n bs fs" and d: "digest_ok d"
    and s: "spoiled ue d raw enc bs fs"
  shows "\<exists>e. finalize_blob_upload_session ue now d fs = (Inl e, fs)"
proof (cases "is_file (blob_upload_session_part_path d) fs")
  case False
  then show ?thesis
    by (auto simp: finalize_start [OF c o] act_bind_def in_context_eq read_part [OF o])
next
  case True
  have r: "in_context t (fs_read (blob_upload_session_part_path d)) fs = (Inr bs, fs)" for t
    using True by (simp add: in_context_eq read_part [OF o])
  consider e where "decode_stream ue enc bs = Inl e"
    | x where "decode_stream ue enc bs = Inr x" "length x \<noteq> raw"
    | x where "decode_stream ue enc bs = Inr x" "length x = raw" "se_sha256 (ue_store ue) x \<noteq> d"
    using s True by (auto simp: spoiled_def split: sum.splits)
  then show ?thesis
  proof cases
    case 3
    then show ?thesis
      by (simp add: finalize_start [OF c o] r act_bind_def act_lift_def store_blob_for_digest_refused(2) [OF d])
  qed (simp_all add: finalize_start [OF c o] r act_bind_def act_lift_def act_fail_def)
qed

lemma finish_upload_fails:
  assumes "finalize_blob_upload_session ue now d (cn_store cn) = (Inl e, cn_store cn)" "ue_sends ue = (\<lambda>_. True)"
  shows "cn_store (finish_upload ue now w d raw cn) = cn_store cn"
    "cn_sent (finish_upload ue now w d raw cn) = cn_sent cn
       @ [Control (UploadError SNAPSHOT_BLOB_PROTOCOL_VERSION (Some w) (Some d) ''store_failed'' (anyhow_display e)), CloseFrame]"
proof -
  have "on_store (finalize_blob_upload_session ue now d) cn = (Inl e, cn)"
    using assms(1) by (simp add: on_store_run)
  then show "cn_store (finish_upload ue now w d raw cn) = cn_store cn"
    "cn_sent (finish_upload ue now w d raw cn) = cn_sent cn
       @ [Control (UploadError SNAPSHOT_BLOB_PROTOCOL_VERSION (Some w) (Some d) ''store_failed'' (anyhow_display e)), CloseFrame]"
    using assms(2)
    by (simp_all add: finish_upload_def send_blob_upload_error_def send_and_close_def ws_send_def)
qed

text \<open>A request that passes the checks of the handler, for a blob the store does not have.\<close>

definition acceptable :: "upload_init \<Rightarrow> string option \<Rightarrow> nat \<Rightarrow> fs \<Rightarrow> bool" where
  "acceptable init enc stream fs \<longleftrightarrow>
     ui_version init = SNAPSHOT_BLOB_PROTOCOL_VERSION
     \<and> ui_chunk_size_bytes init = SNAPSHOT_BLOB_DEFAULT_CHUNK_SIZE_BYTES
     \<and> select_upload_encoding (ui_total_size_bytes init) (ui_capability_flags init) (ui_offered_encodings init)
         = Inr (enc, stream)
     \<and> digest_ok (ui_digest init) \<and> fs_node (blob_file (ui_digest init)) fs = None"

lemma start_upload_acceptable:
  assumes "acceptable init enc stream (cn_store cn)"
  shows "start_upload ue now init ms cn = start_session ue now init enc stream ms cn"
proof -
  have "on_store (has_blob (ui_digest init)) cn = (Inr False, cn)"
    using assms by (simp add: acceptable_def on_store_run has_blob_def store_paths exists_at_def act_get_def)
  then show ?thesis using assms by (simp add: acceptable_def start_upload_def Let_def)
qed

abbreviation session_of :: "upload_env \<Rightarrow> upload_init \<Rightarrow> string option \<Rightarrow> nat \<Rightarrow> nat \<Rightarrow> bytes \<Rightarrow> fs \<Rightarrow> bool" where
  "session_of ue init enc stream n bs fs \<equiv>
     on_disk ue (ui_digest init) (ui_total_size_bytes init) stream (ui_chunk_size_bytes init) enc n bs fs"

text \<open>C20: a session whose part file has the declared length but does not hash to the digest is never
  given up.  Every later attempt to upload that blob with the same sizes, whatever it would send,
  is answered with a failure before a chunk is taken, and leaves the session as it was.\<close>

theorem spoiled_session_refuses_forever:
  assumes c: "codec_ok ue" and sends: "ue_sends ue = (\<lambda>_. True)" and i: "upload_inv ue (cn_store cn)"
    and a: "acceptable init enc (length bs) (cn_store cn)"
    and o: "session_of ue init enc (length bs) n bs (cn_store cn)"
    and s: "spoiled ue (ui_digest init) (ui_total_size_bytes init) enc bs (cn_store cn)"
    and run: "start_upload ue now init ms cn = cn'"
  shows "(\<exists>e. cn_sent cn' = cn_sent cn @ [Control (UploadError SNAPSHOT_BLOB_PROTOCOL_VERSION
              (Some (ui_workorder_id init)) (Some (ui_digest init)) ''store_failed'' e), CloseFrame])
    \<and> upload_inv ue (cn_store cn') \<and> acceptable init enc (length bs) (cn_store cn')
    \<and> session_of ue init enc (length bs) n bs (cn_store cn')
    \<and> spoiled ue (ui_digest init) (ui_total_size_bytes init) enc bs (cn_store cn')"
proof -
  let ?d = "ui_digest init" and ?m = "blob_upload_session_meta_path (ui_digest init)"
  obtain fs1 where prep: "prepare_blob_upload_session ue ?d (ui_total_size_bytes init) (length bs)
        (ui_chunk_size_bytes init) enc (cn_store cn)
      = (Inr (session_state ?d (ui_total_size_bytes init) (length bs) (ui_chunk_size_bytes init) enc n (length bs)), fs1)"
    and o1: "session_of ue init enc (length bs) n bs fs1" and i1: "upload_inv ue fs1"
    and a1: "adds ?m (ue_enc_state ue (session_state ?d (ui_total_size_bytes init) (length bs)
        (ui_chunk_size_bytes init) enc n (length bs))) (cn_store cn) fs1"
    by (rule prepare_resumes [OF c i o order_refl])
  let ?cn1 = "cn\<lparr> cn_store := fs1 \<rparr>"
  have other: "fs_node q fs1 = fs_node q (cn_store cn)" if "q \<noteq> ?m" for q by (rule adds_node [OF a1 that])
  have s1: "spoiled ue ?d (ui_total_size_bytes init) enc bs fs1"
    using s other [OF session_paths_distinct(3) [symmetric]] by (simp add: spoiled_def is_file_def)
  have "blob_file ?d \<noteq> ?m" using blob_not_session session_paths(1) by metis
  then have acc1: "acceptable init enc (length bs) fs1" using a other by (simp add: acceptable_def)
  have d: "digest_ok ?d" using a by (simp add: acceptable_def)
  obtain e where fin: "finalize_blob_upload_session ue now ?d (cn_store ?cn1) = (Inl e, cn_store ?cn1)"
    using finalize_spoiled [OF c o1 d s1] by auto
  have "cn' = finish_upload ue now (ui_workorder_id init) ?d (ui_total_size_bytes init) ?cn1"
    using prep by (simp add: run [symmetric] start_upload_acceptable [OF a] start_session_def on_store_def
        session_state_def)
  then have "cn_sent cn' = cn_sent cn @ [Control (UploadError SNAPSHOT_BLOB_PROTOCOL_VERSION
        (Some (ui_workorder_id init)) (Some ?d) ''store_failed'' (anyhow_display e)), CloseFrame]"
    "cn_store cn' = fs1"
    using finish_upload_fails [OF fin sends] by simp_all
  then show ?thesis using i1 acc1 o1 s1 by blast
qed

text \<open>C21: a blob without bytes cannot be uploaded over the socket: an upload of length 0 writes no part
  file, and finalising fails because it reads one; the session it leaves is spoiled.\<close>

theorem empty_blob_upload_fails:
  assumes c: "codec_ok ue" and sends: "ue_sends ue = (\<lambda>_. True)" and i: "upload_inv ue (cn_store cn)"
    and a: "acceptable init enc 0 (cn_store cn)" and no: "no_session ue (ui_digest init) (cn_store cn)"
    and run: "start_upload ue now init ms cn = cn'"
  shows "(\<exists>e. cn_sent cn' = cn_sent cn @ [Control (UploadError SNAPSHOT_BLOB_PROTOCOL_VERSION
              (Some (ui_workorder_id init)) (Some (ui_digest init)) ''store_failed'' e), CloseFrame])
    \<and> fs_node (blob_file (ui_digest init)) (cn_store cn') = None
    \<and> session_of ue init enc 0 0 [] (cn_store cn')
    \<and> spoiled ue (ui_digest init) (ui_total_size_bytes init) enc [] (cn_store cn')"
proof -
  let ?d = "ui_digest init"
  obtain fs1 where prep: "prepare_blob_upload_session ue ?d (ui_total_size_bytes init) 0
        (ui_chunk_size_bytes init) enc (cn_store cn)
      = (Inr (session_state ?d (ui_total_size_bytes init) 0 (ui_chunk_size_bytes init) enc 0 0), fs1)"
    and o1: "session_of ue init enc 0 0 [] fs1" and i1: "upload_inv ue fs1"
    and part: "fs_node (blob_upload_session_part_path ?d) fs1 = None"
    and same: "\<forall>q. \<not> in_sessions q \<longrightarrow> fs_node q fs1 = fs_node q (cn_store cn)"
    by (rule prepare_fresh [OF i no])
  let ?cn1 = "cn\<lparr> cn_store := fs1 \<rparr>"
  have s1: "spoiled ue ?d (ui_total_size_bytes init) enc [] fs1" using part by (simp add: spoiled_def is_file_def)
  have d: "digest_ok ?d" "fs_node (blob_file ?d) (cn_store cn) = None" using a by (simp_all add: acceptable_def)
  obtain e where fin: "finalize_blob_upload_session ue now ?d (cn_store ?cn1) = (Inl e, cn_store ?cn1)"
    using finalize_spoiled [OF c _ d(1) s1, where now = now and n = 0 and chunk = "ui_chunk_size_bytes init"] o1
    by auto
  have "cn' = finish_upload ue now (ui_workorder_id init) ?d (ui_total_size_bytes init) ?cn1"
    using prep by (simp add: run [symmetric] start_upload_acceptable [OF a] start_session_def on_store_def
        session_state_def)
  then have "cn_sent cn' = cn_sent cn @ [Control (UploadError SNAPSHOT_BLOB_PROTOCOL_VERSION
        (Some (ui_workorder_id init)) (Some ?d) ''store_failed'' (anyhow_display e)), CloseFrame]"
    "cn_store cn' = fs1"
    using finish_upload_fails [OF fin sends] by simp_all
  moreover have "fs_node (blob_file ?d) fs1 = None"
    using same [rule_format, OF blob_not_session] d(2) by simp
  ultimately show ?thesis using o1 s1 by blast
qed

section \<open>A sample session\<close>

lemma sample_codec_ok: "codec_ok sample_upload_env"
  unfolding codec_ok_def
proof
  fix st
  show "ue_dec_state sample_upload_env (ue_enc_state sample_upload_env st) = Inr st"
    by (cases "pu_selected_encoding st") (simp_all add: sample_upload_env_def sample_enc_state_def
        sample_dec_state_def ok_or_def)
qed

text \<open>A session whose two bytes are not those of the digest, which has one.\<close>

definition sample_digest1 :: string where
  "sample_digest1 = sample_sha256 [1]"

definition sample_session_fs :: fs where
  "sample_session_fs =
     \<lparr> fs_tree = [(blob_upload_session_dir, Dir), (blob_upload_session_meta_path sample_digest1, File 0),
         (blob_upload_session_part_path sample_digest1, File 1)],
       fs_inodes = [(0, sample_enc_state (session_state sample_digest1 2 2
         SNAPSHOT_BLOB_DEFAULT_CHUNK_SIZE_BYTES None 1 2)), (1, [1, 2])],
       fs_next = 2 \<rparr>"

lemma sample_session_inv: "upload_inv sample_upload_env sample_session_fs"
proof -
  have out: "\<not> in_store p" if "map_of (fs_tree sample_session_fs) p = Some n" for p n
    using that session_not_store [OF session_paths(1)] session_not_store [OF session_paths(2)]
      session_not_store [OF session_paths(3)]
    by (auto simp: sample_session_fs_def split: if_splits)
  have w: "fs_wf sample_session_fs"
    by (rule fs_wfI) (auto simp: sample_session_fs_def hm_wf_def fs_node_def session_path_defs split: if_splits)
  have none: "map_of (fs_tree sample_session_fs) p = None" if "in_store p" for p
    using out [of p] that by (cases "map_of (fs_tree sample_session_fs) p") auto
  have "map_of (fs_tree sample_session_fs) (blob_file d) = None" "map_of (fs_tree sample_session_fs) (tree_file d) = None" for d
    by (rule none, simp add: store_files)+
  then have i: "integrity env sample_session_fs" for env
    by (simp add: integrity_def fs_content_def fs_node_def)
  have "store_inv sample_store_env sample_session_fs"
    unfolding store_inv_def temp_free_def unshared_def shallow_def store_dir_def using w i out by blast
  moreover have "apart sample_session_fs" using out by (intro apartI) blast
  ultimately show ?thesis by (simp add: upload_inv_def sample_upload_env_def)
qed

theorem spoiled_session_refuses_forever_witness:
  "\<exists>e. cn_sent (start_upload sample_upload_env 0 (sample_init sample_digest1 2) [WsBinary []]
          (sample_connection sample_session_fs))
     = [Control (UploadError SNAPSHOT_BLOB_PROTOCOL_VERSION (Some 7) (Some sample_digest1) ''store_failed'' e),
        CloseFrame]"
proof -
  have a: "acceptable (sample_init sample_digest1 2) None (length [1 :: byte, 2]) sample_session_fs"
    by code_simp
  have o: "session_of sample_upload_env (sample_init sample_digest1 2) None (length [1 :: byte, 2]) 1 [1, 2] sample_session_fs"
    by code_simp
  have s: "spoiled sample_upload_env (ui_digest (sample_init sample_digest1 2)) 2 None [1, 2] sample_session_fs"
    by code_simp
  show ?thesis
    using spoiled_session_refuses_forever [OF sample_codec_ok _ _ _ _ _ refl, where cn = "sample_connection sample_session_fs"
        and init = "sample_init sample_digest1 2" and bs = "[1, 2]" and enc = None and n = 1 and ms = "[WsBinary []]"
        and now = 0] sample_session_inv a o s
    by (simp add: sample_connection_def sample_upload_env_def sample_init_def)
qed

theorem empty_blob_upload_fails_witness:
  "fs_node (blob_file (sample_sha256 [])) (cn_store (start_upload sample_upload_env 0
     (sample_init (sample_sha256 []) 0) [] (sample_connection empty_fs))) = None"
proof -
  have a: "acceptable (sample_init (sample_sha256 []) 0) None 0 empty_fs" by code_simp
  have n: "no_session sample_upload_env (sample_sha256 []) empty_fs" by code_simp
  have i: "upload_inv sample_upload_env empty_fs"
    using store_inv_empty by (simp add: upload_inv_def apart_def) (simp add: empty_fs_def)
  show ?thesis
    using empty_blob_upload_fails [OF sample_codec_ok _ _ _ _ refl, where cn = "sample_connection empty_fs"
        and init = "sample_init (sample_sha256 []) 0" and enc = None and ms = "[]" and now = 0] a n i
    by (simp add: sample_connection_def sample_upload_env_def sample_init_def)
qed

end
