(* ===== verification/Worker_Setup.thy ===== *)
theory Worker_Setup
  imports Snapshot_Runtime Text_Lines
begin

text \<open>How the worker writes a client's configuration into its container
  (\<open>crates/worker/src/portage_setup.rs\<close>): the contents of \<open>make.conf\<close> and of the files of
  \<open>/etc/portage\<close>, and the changes to \<open>repos.conf\<close>.  The container's file system is that of
  \<open>File_System\<close>, with absolute paths as lists of names; symbolic links are results the functions
  return.  A string is the list of its bytes.\<close>

text \<open>The continuation bytes of UTF-8, and the sequences \<open>String::from_utf8\<close> accepts.\<close>

definition is_cont :: "8 word \<Rightarrow> bool" where
  "is_cont b \<longleftrightarrow> 0x80 \<le> b \<and> b \<le> 0xBF"

fun utf8_valid :: "bytes \<Rightarrow> bool" where
  "utf8_valid [] = True"
| "utf8_valid (a # bs) =
     (if a < 0x80 then utf8_valid bs
      else case bs of
        [] \<Rightarrow> False
      | b # cs \<Rightarrow>
          if 0xC2 \<le> a \<and> a \<le> 0xDF then is_cont b \<and> utf8_valid cs
          else case cs of
            [] \<Rightarrow> False
          | c # ds \<Rightarrow>
              if 0xE0 \<le> a \<and> a \<le> 0xEF
              then is_cont b \<and> (a = 0xE0 \<longrightarrow> 0xA0 \<le> b) \<and> (a = 0xED \<longrightarrow> b \<le> 0x9F) \<and> is_cont c \<and> utf8_valid ds
              else case ds of
                [] \<Rightarrow> False
              | d # es \<Rightarrow>
                  0xF0 \<le> a \<and> a \<le> 0xF4 \<and> is_cont b \<and> (a = 0xF0 \<longrightarrow> 0x90 \<le> b) \<and> (a = 0xF4 \<longrightarrow> b \<le> 0x8F)
                  \<and> is_cont c \<and> is_cont d \<and> utf8_valid es)"

definition from_utf8 :: "bytes \<Rightarrow> string option" where
  "from_utf8 bs = (if utf8_valid bs then Some (map (\<lambda>b. char_of (unat b)) bs) else None)"

definition fs_read_to_string :: "path \<Rightarrow> string fs_action" where
  "fs_read_to_string p =
     act_bind (fs_read p) (\<lambda>bs.
     case from_utf8 bs of
       None \<Rightarrow> act_fail (bail ''stream did not contain valid UTF-8'')
     | Some s \<Rightarrow> act_return s)"

definition absolute_path :: "path \<Rightarrow> string" where
  "absolute_path p = ''/'' @ join_with ''/'' p"

definition double_quote :: char where
  "double_quote = CHR 0x22"

section \<open>The contents of make.conf\<close>

text \<open>A line \<open>KEY="value"\<close>.\<close>

definition assignment :: "string \<Rightarrow> string \<Rightarrow> string" where
  "assignment key value = key @ ''='' @ [double_quote] @ value @ [double_quote, newline]"

definition build_makeopts_inner :: "string \<Rightarrow> string option \<Rightarrow> string option \<Rightarrow> string" where
  "build_makeopts_inner client_makeopts server_jobs server_load =
     (if server_jobs = None \<and> server_load = None then client_makeopts
      else
        let parts = filter (\<lambda>tok. \<not> starts_with ''-j'' tok \<and> \<not> starts_with ''-l'' tok
              \<and> \<not> starts_with ''--jobs'' tok \<and> \<not> starts_with ''--load-average'' tok)
              (split_whitespace client_makeopts);
            parts = parts @ (case server_jobs of None \<Rightarrow> [] | Some jobs \<Rightarrow> [''-j'' @ jobs]);
            parts = parts @ (case server_load of None \<Rightarrow> [] | Some load \<Rightarrow> [''-l'' @ load])
        in join_with '' '' parts)"

definition push_missing :: "string \<Rightarrow> string list \<Rightarrow> string list" where
  "push_missing x xs = (if x \<in> set xs then xs else xs @ [x])"

definition make_features :: "string list \<Rightarrow> bool \<Rightarrow> string list" where
  "make_features features signing =
     (let features1 = (if features \<noteq> [] then push_missing ''buildpkg'' features else [''buildpkg'', ''noclean'']);
          features2 = (if signing
                       then push_missing ''gpg-keepalive'' (push_missing ''binpkg-signing'' features1) else features1)
      in filter (\<lambda>f. f \<noteq> ''ccache'' \<and> f \<noteq> ''distcc'') features2)"

definition valid_extra_key :: "string \<Rightarrow> bool" where
  "valid_extra_key key \<longleftrightarrow> key \<noteq> [] \<and> list_all (\<lambda>c. is_alphanumeric c \<or> c = CHR ''_'') key \<and> \<not> is_digit (hd key)"

definition unsafe_value_chars :: "char list" where
  "unsafe_value_chars = [CHR 0x60, CHR ''$'', CHR 0x5C, double_quote, newline, carriage_return, CHR 0x00]"

definition safe_extra_value :: "string \<Rightarrow> bool" where
  "safe_extra_value value \<longleftrightarrow> list_all (\<lambda>c. c \<notin> set unsafe_value_chars) value"

definition extra_lines :: "(string, string) btree_map \<Rightarrow> string" where
  "extra_lines extra =
     concat (map (\<lambda>(key, value). if valid_extra_key key \<and> safe_extra_value value then assignment key value else [])
       extra)"

definition arch_of :: "string \<Rightarrow> string" where
  "arch_of chost = hd (split_on (CHR ''-'') chost)"

definition make_conf_header :: string where
  "make_conf_header = ''# Generated by remerge-worker '' @ [CHR 0xE2, CHR 0x80, CHR 0x94]
     @ '' do not edit.'' @ [newline, newline]"

text \<open>The environment of the worker gives the job count and the load average.\<close>

record worker_env =
  we_parallel_jobs :: "string option"
  we_load_average :: "string option"
  we_skip_sync :: bool

definition make_conf_content ::
    "worker_env \<Rightarrow> make_conf \<Rightarrow> string \<Rightarrow> string option \<Rightarrow> string option \<Rightarrow> string" where
  "make_conf_content we mc worker_chost gpg_key gpg_home =
     make_conf_header
     @ assignment ''CHOST'' (mc_chost mc)
     @ (if arch_of (mc_chost mc) \<noteq> arch_of worker_chost then assignment ''CBUILD'' worker_chost else [])
     @ [newline]
     @ assignment ''CFLAGS'' (mc_cflags mc)
     @ assignment ''CXXFLAGS'' (mc_cxxflags mc)
     @ assignment ''LDFLAGS'' (mc_ldflags mc)
     @ assignment ''MAKEOPTS'' (build_makeopts_inner (mc_makeopts mc) (we_parallel_jobs we) (we_load_average we))
     @ (if mc_use_flags mc = [] then []
        else if mc_use_flags_resolved mc then assignment ''USE'' (''-* '' @ join_with '' '' (mc_use_flags mc))
        else assignment ''USE'' (join_with '' '' (mc_use_flags mc)))
     @ assignment ''ACCEPT_LICENSE'' (mc_accept_license mc)
     @ assignment ''ACCEPT_KEYWORDS'' (mc_accept_keywords mc)
     @ assignment ''FEATURES'' (join_with '' '' (make_features (mc_features mc) (gpg_key \<noteq> None \<and> gpg_home \<noteq> None)))
     @ (if mc_emerge_default_opts mc = [] then []
        else assignment ''EMERGE_DEFAULT_OPTS'' (mc_emerge_default_opts mc))
     @ (case mc_cpu_flags mc of None \<Rightarrow> [] | Some (var, flags) \<Rightarrow> assignment var (join_with '' '' flags))
     @ concat (map (\<lambda>(key, values). assignment key (join_with '' '' values)) (mc_use_expand mc))
     @ extra_lines (mc_extra mc)
     @ [newline] @ ''# remerge: output directory for binpkgs'' @ [newline]
     @ assignment ''PKGDIR'' ''/var/cache/binpkgs''
     @ (case (gpg_key, gpg_home) of
          (Some key, Some home) \<Rightarrow>
            [newline] @ ''# Binary package OpenPGP signing (injected by remerge-server)'' @ [newline]
            @ assignment ''BINPKG_FORMAT'' ''gpkg''
            @ assignment ''BINPKG_GPG_SIGNING_KEY'' key
            @ assignment ''BINPKG_GPG_SIGNING_GPG_HOME'' home
        | _ \<Rightarrow> [])"

definition write_make_conf_inner ::
    "worker_env \<Rightarrow> path \<Rightarrow> portage_config \<Rightarrow> string \<Rightarrow> string option \<Rightarrow> string option \<Rightarrow> unit fs_action" where
  "write_make_conf_inner we base config worker_chost gpg_key gpg_home =
     in_context ''Failed to write make.conf''
       (fs_write (base @ [''make.conf''])
         (string_bytes (make_conf_content we (pc_make_conf config) worker_chost gpg_key gpg_home)))"

section \<open>The files of one line per package\<close>

definition package_line :: "string \<Rightarrow> string list \<Rightarrow> string" where
  "package_line atom words = atom @ '' '' @ join_with '' '' words @ [newline]"

definition package_use_content :: "package_use_entry list \<Rightarrow> string" where
  "package_use_content entries = concat (map (\<lambda>e. package_line (pu_atom e) (pu_flags e)) entries)"

definition package_accept_keywords_content :: "package_keyword_entry list \<Rightarrow> string" where
  "package_accept_keywords_content entries = concat (map (\<lambda>e. package_line (pk_atom e) (pk_keywords e)) entries)"

definition package_license_content :: "package_license_entry list \<Rightarrow> string" where
  "package_license_content entries = concat (map (\<lambda>e. package_line (pl_atom e) (pl_licenses e)) entries)"

definition atom_lines :: "string list \<Rightarrow> string" where
  "atom_lines atoms = concat (map (\<lambda>atom. atom @ [newline]) atoms)"

definition valid_file_name :: "string \<Rightarrow> bool" where
  "valid_file_name f \<longleftrightarrow> trim f \<noteq> [] \<and> CHR ''/'' \<notin> set f \<and> \<not> contains_str ''..'' f"

definition package_env_content :: "package_env_entry list \<Rightarrow> string" where
  "package_env_content entries =
     concat (map (\<lambda>e. pe_atom e @ '' '' @ pe_env_file e @ [newline])
       (filter (\<lambda>e. valid_file_name (pe_env_file e)) entries))"

text \<open>A file \<open>remerge\<close> in a directory of its own; nothing when there are no entries.\<close>

definition write_package_file :: "path \<Rightarrow> string \<Rightarrow> bool \<Rightarrow> string \<Rightarrow> unit fs_action" where
  "write_package_file base name no_entries content =
     (if no_entries then act_return ()
      else
        act_bind (fs_create_dir_all (base @ [name])) (\<lambda>_.
        in_context (''Failed to write '' @ name) (fs_write (base @ [name, ''remerge'']) (string_bytes content))))"

definition write_package_use_inner :: "path \<Rightarrow> portage_config \<Rightarrow> unit fs_action" where
  "write_package_use_inner base config =
     write_package_file base ''package.use'' (pc_package_use config = []) (package_use_content (pc_package_use config))"

definition write_package_accept_keywords_inner :: "path \<Rightarrow> portage_config \<Rightarrow> unit fs_action" where
  "write_package_accept_keywords_inner base config =
     write_package_file base ''package.accept_keywords'' (pc_package_accept_keywords config = [])
       (package_accept_keywords_content (pc_package_accept_keywords config))"

definition write_package_license_inner :: "path \<Rightarrow> portage_config \<Rightarrow> unit fs_action" where
  "write_package_license_inner base config =
     write_package_file base ''package.license'' (pc_package_license config = [])
       (package_license_content (pc_package_license config))"

definition write_package_mask_inner :: "path \<Rightarrow> portage_config \<Rightarrow> unit fs_action" where
  "write_package_mask_inner base config =
     write_package_file base ''package.mask'' (pc_package_mask config = []) (atom_lines (pc_package_mask config))"

definition write_package_unmask_inner :: "path \<Rightarrow> portage_config \<Rightarrow> unit fs_action" where
  "write_package_unmask_inner base config =
     write_package_file base ''package.unmask'' (pc_package_unmask config = []) (atom_lines (pc_package_unmask config))"

definition write_package_env_inner :: "path \<Rightarrow> portage_config \<Rightarrow> unit fs_action" where
  "write_package_env_inner base config =
     write_package_file base ''package.env'' (pc_package_env config = []) (package_env_content (pc_package_env config))"

section \<open>Files the client sends by name\<close>

text \<open>The name \<open>.\<close> passes the check; it is the directory itself.\<close>

definition join_name :: "path \<Rightarrow> string \<Rightarrow> path" where
  "join_name dir f = (if f = ''.'' then dir else dir @ [f])"

definition write_named_file :: "path \<Rightarrow> string \<times> string \<Rightarrow> unit fs_action" where
  "write_named_file dir file =
     (case file of (f, content) \<Rightarrow>
        if \<not> valid_file_name f then act_return ()
        else in_context (''Failed to write '' @ absolute_path dir @ ''/'' @ f)
               (fs_write (join_name dir f) (string_bytes content)))"

definition write_named_files :: "path \<Rightarrow> (string, string) btree_map \<Rightarrow> unit fs_action" where
  "write_named_files dir files =
     (if files = [] then act_return ()
      else act_bind (fs_create_dir_all dir) (\<lambda>_. act_each (write_named_file dir) files))"

definition write_env_files_inner :: "path \<Rightarrow> portage_config \<Rightarrow> unit fs_action" where
  "write_env_files_inner base config = write_named_files (base @ [''env'']) (pc_env_files config)"

definition write_repos_conf_inner :: "path \<Rightarrow> portage_config \<Rightarrow> unit fs_action" where
  "write_repos_conf_inner base config = write_named_files (base @ [''repos.conf'']) (pc_repos_conf config)"

text \<open>A path below a directory.  One that ends in a slash or in a dot names a directory, and the
  operating system refuses to write it.\<close>

definition relative_names :: "string \<Rightarrow> string list option" where
  "relative_names rel = (if rel = [] then None else normal_names (path_components rel))"

definition names_directory :: "string \<Rightarrow> bool" where
  "names_directory rel \<longleftrightarrow> ends_with ''/'' rel \<or> ends_with ''/.'' rel"

definition write_directory_name :: "string \<Rightarrow> path \<Rightarrow> unit fs_action" where
  "write_directory_name rel p fs =
     (Inl (os_error (case fs_node p fs of
        Some (File _) \<Rightarrow> ENOTDIR
      | Some Dir \<Rightarrow> EISDIR
      | None \<Rightarrow> if ends_with ''/.'' rel then ENOENT else EISDIR)), fs)"

definition write_tree_file :: "string \<Rightarrow> path \<Rightarrow> string \<times> string \<Rightarrow> unit fs_action" where
  "write_tree_file what base file =
     (case file of (rel, content) \<Rightarrow>
        (case relative_names rel of
           None \<Rightarrow> act_return ()
         | Some names \<Rightarrow>
             (let full = base @ names; shown = absolute_path base @ ''/'' @ rel in
              act_bind (in_context (''Failed to create parent dir for '' @ what @ '' '' @ shown)
                (fs_create_dir_all (butlast full))) (\<lambda>_.
              in_context (''Failed to write '' @ what @ '' '' @ shown)
                (if names_directory rel then write_directory_name rel full
                 else fs_write full (string_bytes content))))))"

definition write_profile_overlay_inner :: "path \<Rightarrow> portage_config \<Rightarrow> unit fs_action" where
  "write_profile_overlay_inner base config = act_each (write_tree_file ''profile overlay'' base) (pc_profile_overlay config)"

definition write_patches_inner :: "path \<Rightarrow> portage_config \<Rightarrow> unit fs_action" where
  "write_patches_inner base config = act_each (write_tree_file ''patch'' base) (pc_patches config)"

section \<open>repos.conf\<close>

record repo_section =
  rs_name :: string
  rs_location :: string
  rs_sync_uri :: "string option"

text \<open>What the parser has of the section it is in, and the sections it has finished.\<close>

record section_state =
  ss_name :: string
  ss_location :: "string option"
  ss_sync_uri :: "string option"
  ss_repos :: "repo_section list"

definition flush_section :: "section_state \<Rightarrow> section_state" where
  "flush_section st =
     (case ss_location st of
        Some loc \<Rightarrow>
          if ss_name st \<noteq> [] \<and> \<not> eq_ignore_ascii_case (ss_name st) ''DEFAULT''
          then st\<lparr> ss_repos := ss_repos st @ [\<lparr> rs_name = ss_name st, rs_location = loc,
                      rs_sync_uri = ss_sync_uri st \<rparr>], ss_location := None, ss_sync_uri := None \<rparr>
          else st\<lparr> ss_location := None, ss_sync_uri := None \<rparr>
      | None \<Rightarrow> st\<lparr> ss_location := None, ss_sync_uri := None \<rparr>)"

definition is_section_line :: "string \<Rightarrow> bool" where
  "is_section_line trimmed \<longleftrightarrow> starts_with ''['' trimmed \<and> ends_with '']'' trimmed"

text \<open>A line of one bracket alone is \<open>[\<close> and \<open>]\<close> of nothing only when it has two characters.\<close>

definition section_line :: "string \<Rightarrow> section_state \<Rightarrow> section_state" where
  "section_line line st =
     (let trimmed = trim line in
      if is_section_line trimmed
      then (flush_section st)\<lparr> ss_name := tl (butlast trimmed) \<rparr>
      else case split_once (CHR ''='') trimmed of
          None \<Rightarrow> st
        | Some (key, value) \<Rightarrow>
            if eq_ignore_ascii_case (trim key) ''location'' then st\<lparr> ss_location := Some (trim value) \<rparr>
            else if eq_ignore_ascii_case (trim key) ''sync-uri'' then st\<lparr> ss_sync_uri := Some (trim value) \<rparr>
            else st)"

definition parse_repo_sections_full :: "string \<Rightarrow> repo_section list" where
  "parse_repo_sections_full content =
     ss_repos (flush_section (fold section_line (str_lines content)
       \<lparr> ss_name = [], ss_location = None, ss_sync_uri = None, ss_repos = [] \<rparr>))"

definition parse_repo_sections :: "string \<Rightarrow> (string \<times> string) list" where
  "parse_repo_sections content = map (\<lambda>r. (rs_name r, rs_location r)) (parse_repo_sections_full content)"

definition rewrite_line :: "string \<Rightarrow> string \<Rightarrow> string \<Rightarrow> string" where
  "rewrite_line old_loc new_loc line =
     (case split_once (CHR ''='') (trim line) of
        Some (key, value) \<Rightarrow>
          if eq_ignore_ascii_case (trim key) ''location'' \<and> trim value = old_loc
          then ''location = '' @ new_loc @ [newline] else line @ [newline]
      | None \<Rightarrow> line @ [newline])"

definition rewritten_content :: "string \<Rightarrow> string \<Rightarrow> string \<Rightarrow> string" where
  "rewritten_content old_loc new_loc content = concat (map (rewrite_line old_loc new_loc) (str_lines content))"

definition rewrite_repo_location_inner :: "path \<Rightarrow> string \<Rightarrow> string \<Rightarrow> string \<Rightarrow> unit fs_action" where
  "rewrite_repo_location_inner repos_conf_base filename old_loc new_loc =
     (let p = join_name repos_conf_base filename; shown = absolute_path repos_conf_base @ ''/'' @ filename in
      act_bind (in_context (''Failed to read '' @ shown @ '' for location rewrite'') (fs_read_to_string p)) (\<lambda>content.
      in_context (''Failed to rewrite '' @ shown)
        (fs_write p (string_bytes (rewritten_content old_loc new_loc content)))))"

section \<open>The locations of the repositories\<close>

text \<open>What the operating system says of a location: nothing there, a directory, a link to one, or
  something else; and whether the directory of the same name under the mounted repositories exists.\<close>

datatype location_stat = Absent | RealDirectory | LinkToDirectory | NotDirectory

record location_probe =
  lp_stat :: location_stat
  lp_bind_is_dir :: bool

text \<open>What is done with a location: the file in its place is removed first when the flag says so.\<close>

datatype location_step =
    KeepLocation
  | RemapLocation bool
  | LinkLocation bool
  | CreateLocation bool

definition valid_location :: "string \<Rightarrow> bool" where
  "valid_location location \<longleftrightarrow>
     (case path_components location of RootDir # cs \<Rightarrow> normal_names cs \<noteq> None | _ \<Rightarrow> False)"

definition choose_step :: "bool \<Rightarrow> string \<Rightarrow> string \<Rightarrow> location_probe \<Rightarrow> location_step" where
  "choose_step repos_mounted_ro repos_base location probe =
     (let needs_remap = repos_mounted_ro \<and> starts_with (repos_base @ ''/'') location \<and> \<not> lp_bind_is_dir probe;
          is_directory = lp_stat probe \<in> {RealDirectory, LinkToDirectory};
          removed = (lp_stat probe = NotDirectory)
      in if is_directory then (if needs_remap then RemapLocation False else KeepLocation)
         else if lp_bind_is_dir probe then LinkLocation removed
         else if needs_remap then RemapLocation removed
         else CreateLocation removed)"

text \<open>The step for one section.  \<open>probe\<close> is what the operating system says at that moment, given
  the links made so far; \<open>follow\<close> is where it takes a path.  Unlinking removes a name, be it a file's or
  a dangling link's.  The result is the link made, if any.\<close>

text \<open>\<open>Path::join\<close>: an absolute name replaces the base.\<close>

definition join_str :: "string \<Rightarrow> string \<Rightarrow> string" where
  "join_str base name = (if starts_with ''/'' name then name else base @ ''/'' @ name)"

type_synonym repo_links = "(string \<times> string) list"

definition unlink_name :: "path \<Rightarrow> unit fs_action" where
  "unlink_name p fs = (Inr (), fs\<lparr> fs_tree := hm_remove p (fs_tree fs) \<rparr>)"

definition remap_location :: "(string \<Rightarrow> path) \<Rightarrow> path \<Rightarrow> string \<Rightarrow> string \<Rightarrow> string \<Rightarrow> string \<Rightarrow> unit fs_action" where
  "remap_location follow repos_conf_base remap_base filename name location =
     (let alt = join_str remap_base name in
      act_bind (in_context (''Failed to create writable repo dir '' @ alt) (fs_create_dir_all (follow alt))) (\<lambda>_.
      rewrite_repo_location_inner repos_conf_base filename location alt))"

definition removes_first :: "location_step \<Rightarrow> bool" where
  "removes_first step = (case step of KeepLocation \<Rightarrow> False | RemapLocation b \<Rightarrow> b | LinkLocation b \<Rightarrow> b | CreateLocation b \<Rightarrow> b)"

definition settle_location ::
    "(string \<Rightarrow> path) \<Rightarrow> string \<Rightarrow> path \<Rightarrow> string \<Rightarrow> string \<Rightarrow> string \<Rightarrow> string \<Rightarrow> location_step \<Rightarrow> repo_links \<Rightarrow>
     repo_links fs_action" where
  "settle_location follow repos_base repos_conf_base remap_base filename name location step links =
     act_bind (if removes_first step then unlink_name (follow location) else act_return ()) (\<lambda>_.
     case step of
       KeepLocation \<Rightarrow> act_return links
     | RemapLocation _ \<Rightarrow>
         act_bind (remap_location follow repos_conf_base remap_base filename name location) (\<lambda>_. act_return links)
     | LinkLocation _ \<Rightarrow>
         act_bind (in_context (''Failed to create parent dir for '' @ location)
           (fs_create_dir_all (butlast (follow location)))) (\<lambda>_.
         act_return ((location, join_str repos_base name) # links))
     | CreateLocation _ \<Rightarrow>
         act_bind (in_context (''Failed to create repo directory '' @ location) (fs_create_dir_all (follow location)))
           (\<lambda>_. act_return links))"

definition ensure_repo_locations_inner ::
    "worker_env \<Rightarrow> (repo_links \<Rightarrow> fs \<Rightarrow> string \<Rightarrow> string \<Rightarrow> location_probe) \<Rightarrow> (string \<Rightarrow> path) \<Rightarrow> portage_config \<Rightarrow> string \<Rightarrow>
     path \<Rightarrow> string \<Rightarrow> repo_links fs_action" where
  "ensure_repo_locations_inner we probe follow config repos_base repos_conf_base remap_base =
     act_fold (\<lambda>(filename, name, location) links.
         if \<not> valid_location location
         then act_fail (bail (''Repo '' @ quoted name @ '' has invalid location '' @ quoted location
           @ '': must be an absolute path with no traversal components''))
         else
           act_bind (act_get (\<lambda>fs. choose_step (we_skip_sync we) repos_base location (probe links fs name location)))
             (\<lambda>step. settle_location follow repos_base repos_conf_base remap_base filename name location step links))
       (concat (map (\<lambda>(filename, content). map (Pair filename) (parse_repo_sections content)) (pc_repos_conf config))) []"

section \<open>Restoring the snapshots\<close>

definition is_valid_distfile_basename :: "string \<Rightarrow> bool" where
  "is_valid_distfile_basename filename \<longleftrightarrow> trim filename \<noteq> [] \<and> single_normal filename \<noteq> None"

definition insert_sections :: "string \<Rightarrow> (string, string) btree_map \<Rightarrow> (string, string) btree_map" where
  "insert_sections content locations =
     fold (\<lambda>sec. bm_insert (rs_name sec) (rs_location sec)) (parse_repo_sections_full content) locations"

text \<open>A directory or a file that cannot be read contributes nothing.\<close>

definition read_repo_locations :: "path \<Rightarrow> ((string, string) btree_map) fs_action" where
  "read_repo_locations repos_conf_base =
     act_match (fs_read_dir repos_conf_base) (\<lambda>r. case r of
         Inl _ \<Rightarrow> act_return []
       | Inr entries \<Rightarrow>
           act_fold (\<lambda>(name, node) locations.
             case node of
               Dir \<Rightarrow> act_return locations
             | File _ \<Rightarrow>
                 act_match (fs_read_to_string (repos_conf_base @ [name])) (\<lambda>r. case r of
                     Inl _ \<Rightarrow> act_return locations
                   | Inr content \<Rightarrow> act_return (insert_sections content locations)))
             entries [])"

text \<open>The argument says where the operating system takes a location, links followed.\<close>

definition restore_repo_file :: "path \<Rightarrow> string \<times> string \<Rightarrow> unit fs_action" where
  "restore_repo_file repo_root = write_tree_file ''repo snapshot'' repo_root"

definition restore_distfile :: "path \<Rightarrow> string \<times> bytes \<Rightarrow> unit fs_action" where
  "restore_distfile distfiles_base file =
     (case file of (filename, bytes) \<Rightarrow>
        if \<not> is_valid_distfile_basename filename then act_return ()
        else case single_normal filename of
            None \<Rightarrow> act_return ()
          | Some name \<Rightarrow>
              in_context (''Failed to write distfile snapshot '' @ absolute_path distfiles_base @ ''/'' @ filename)
                (if names_directory filename then write_directory_name filename (distfiles_base @ [name])
                 else fs_write (distfiles_base @ [name]) bytes))"

definition restore_snapshots_inner ::
    "(string \<Rightarrow> path) \<Rightarrow> portage_config \<Rightarrow> path \<Rightarrow> path \<Rightarrow> unit fs_action" where
  "restore_snapshots_inner follow config repos_conf_base distfiles_base =
     act_bind (read_repo_locations repos_conf_base) (\<lambda>locations.
     act_bind (act_each (\<lambda>(repo_name, snapshot).
         case map_of locations repo_name of
           None \<Rightarrow> act_return ()
         | Some location \<Rightarrow> act_each (restore_repo_file (follow location)) snapshot)
       (pc_repo_snapshots config)) (\<lambda>_.
     act_bind (if pc_distfile_snapshots config = [] then act_return ()
       else in_context (''Failed to create distfiles dir '' @ absolute_path distfiles_base)
              (fs_create_dir_all distfiles_base)) (\<lambda>_.
     act_each (restore_distfile distfiles_base) (pc_distfile_snapshots config))))"

section \<open>The profile\<close>

text \<open>What is at the place of the link \<open>make.profile\<close>.\<close>

datatype link_stat = LinkAbsent | LinkRealDirectory | LinkOther

text \<open>The target of the new link; None when the link stays as it is.\<close>

definition set_profile_inner ::
    "(string \<Rightarrow> bool) \<Rightarrow> string \<Rightarrow> string list \<Rightarrow> link_stat \<Rightarrow> string option" where
  "set_profile_inner is_dir profile repo_locations link =
     (if profile = [] \<or> profile = ''unknown'' then None
      else
        let target = unwrap_or (''/var/db/repos/gentoo/profiles/'' @ profile)
              (find is_dir (map (\<lambda>loc. loc @ ''/profiles/'' @ profile) repo_locations))
        in if \<not> is_dir target then None
           else if link = LinkRealDirectory then None
           else Some target)"

section \<open>The whole configuration\<close>

definition config_repo_locations :: "portage_config \<Rightarrow> string list" where
  "config_repo_locations config =
     map snd (concat (map (\<lambda>(filename, content). parse_repo_sections content) (pc_repos_conf config)))"

text \<open>The files below \<open>base\<close>, and the target of the profile link.\<close>

definition apply_config_inner ::
    "worker_env \<Rightarrow> (fs \<Rightarrow> string \<Rightarrow> bool) \<Rightarrow> link_stat \<Rightarrow> path \<Rightarrow> portage_config \<Rightarrow> string \<Rightarrow>
     string option \<Rightarrow> string option \<Rightarrow> (string option) fs_action" where
  "apply_config_inner we is_dir link base config worker_chost gpg_key gpg_home =
     act_bind (write_make_conf_inner we base config worker_chost gpg_key gpg_home) (\<lambda>_.
     act_bind (write_package_use_inner base config) (\<lambda>_.
     act_bind (write_package_accept_keywords_inner base config) (\<lambda>_.
     act_bind (write_package_license_inner base config) (\<lambda>_.
     act_bind (write_package_mask_inner base config) (\<lambda>_.
     act_bind (write_package_unmask_inner base config) (\<lambda>_.
     act_bind (write_package_env_inner base config) (\<lambda>_.
     act_bind (write_env_files_inner base config) (\<lambda>_.
     act_bind (write_repos_conf_inner base config) (\<lambda>_.
     act_bind (write_profile_overlay_inner (base @ [''profile'']) config) (\<lambda>_.
     act_bind (write_patches_inner (base @ [''patches'']) config) (\<lambda>_.
     act_get (\<lambda>fs. set_profile_inner (is_dir fs) (pc_profile config) (config_repo_locations config) link))))))))))))"

section \<open>The sections a repos.conf file has\<close>

text \<open>The parser looks at a line through its trimmed text.\<close>

lemma section_line_trim: "section_line (trim line) = section_line line"
  by (rule ext) (simp add: section_line_def)

lemma parse_sections_trimmed:
  "parse_repo_sections_full content =
     ss_repos (flush_section (fold section_line (map trim (str_lines content))
       \<lparr> ss_name = [], ss_location = None, ss_sync_uri = None, ss_repos = [] \<rparr>))"
  by (simp add: parse_repo_sections_full_def fold_map comp_def section_line_trim)

definition repo_section_wf :: "repo_section \<Rightarrow> bool" where
  "repo_section_wf r \<longleftrightarrow>
     rs_name r \<noteq> [] \<and> \<not> eq_ignore_ascii_case (rs_name r) ''DEFAULT'' \<and> newline \<notin> set (rs_name r)
     \<and> trim (rs_location r) = rs_location r \<and> newline \<notin> set (rs_location r)
     \<and> (\<forall>uri. rs_sync_uri r = Some uri \<longrightarrow> trim uri = uri \<and> newline \<notin> set uri)"

definition clean_value :: "string option \<Rightarrow> bool" where
  "clean_value v \<longleftrightarrow> (\<forall>x. v = Some x \<longrightarrow> trim x = x \<and> newline \<notin> set x)"

definition section_state_wf :: "section_state \<Rightarrow> bool" where
  "section_state_wf st \<longleftrightarrow>
     newline \<notin> set (ss_name st) \<and> clean_value (ss_location st) \<and> clean_value (ss_sync_uri st)
     \<and> list_all repo_section_wf (ss_repos st)"

lemma flush_section_wf: "section_state_wf st \<Longrightarrow> section_state_wf (flush_section st)"
  by (auto simp: section_state_wf_def flush_section_def clean_value_def repo_section_wf_def list_all_iff
      split: option.splits)

lemma section_line_wf:
  assumes wf: "section_state_wf st" and line: "newline \<notin> set line"
  shows "section_state_wf (section_line line st)"
proof (cases "is_section_line (trim line)")
  case True
  have "set (tl (butlast (trim line))) \<subseteq> set (trim line)"
    using in_set_butlastD [of _ "trim line"] by (cases "butlast (trim line)") auto
  then have "set (tl (butlast (trim line))) \<subseteq> set line"
    using set_trim by (rule subset_trans)
  with True line flush_section_wf [OF wf] show ?thesis
    by (auto simp: section_line_def section_state_wf_def)
next
  case False
  have "newline \<notin> set (trim v)" if "split_once (CHR ''='') (trim line) = Some (k, v)" for k v
    using that line set_trim [of line] set_trim [of v] by (auto simp: split_once_Some_iff)
  then show ?thesis
    using False wf
    by (auto simp: section_line_def section_state_wf_def clean_value_def split: option.splits)
qed

lemma section_lines_wf:
  assumes "section_state_wf st" and "\<forall>l \<in> set ls. newline \<notin> set l"
  shows "section_state_wf (fold section_line ls st)"
  using assms by (induction ls arbitrary: st) (simp_all add: section_line_wf)

text \<open>C28: every section that the parser returns has a name, which is not the name of the defaults,
  and a location; location and sync URI have no white space around them and no line break.\<close>

theorem parsed_sections_wf: "list_all repo_section_wf (parse_repo_sections_full content)"
proof -
  let ?start = "\<lparr> ss_name = [], ss_location = None, ss_sync_uri = None, ss_repos = [] \<rparr>"
  have "section_state_wf (fold section_line (str_lines content) ?start)"
    by (rule section_lines_wf) (simp_all add: section_state_wf_def clean_value_def line_no_newline)
  from flush_section_wf [OF this] show ?thesis
    by (simp add: parse_repo_sections_full_def section_state_wf_def)
qed

section \<open>Rewriting a location\<close>

definition relocated :: "string \<Rightarrow> string \<Rightarrow> string \<Rightarrow> string" where
  "relocated old_loc new_loc loc = (if loc = old_loc then trim new_loc else loc)"

definition relocate_section :: "string \<Rightarrow> string \<Rightarrow> repo_section \<Rightarrow> repo_section" where
  "relocate_section old_loc new_loc r = r\<lparr> rs_location := relocated old_loc new_loc (rs_location r) \<rparr>"

definition relocate_state :: "string \<Rightarrow> string \<Rightarrow> section_state \<Rightarrow> section_state" where
  "relocate_state old_loc new_loc st =
     st\<lparr> ss_location := map_option (relocated old_loc new_loc) (ss_location st),
        ss_repos := map (relocate_section old_loc new_loc) (ss_repos st) \<rparr>"

lemma flush_relocated: "flush_section (relocate_state a b st) = relocate_state a b (flush_section st)"
  by (auto simp: flush_section_def relocate_state_def relocate_section_def split: option.splits)

lemma location_key_not_section:
  assumes "split_once (CHR ''='') t = Some (key, value)" and "eq_ignore_ascii_case (trim key) ''location''"
  shows "\<not> is_section_line t"
proof
  assume "is_section_line t"
  with assms(1) have "hd key = CHR ''[''" and "key \<noteq> []"
    by (auto simp: is_section_line_def starts_with_iff split_once_Some_iff append_eq_Cons_conv)
  then obtain rest where "trim key = CHR ''['' # rest"
    by (cases key) (auto simp: trim_Cons is_whitespace_def)
  with assms(2) show False
    by (simp add: eq_ignore_ascii_case_def to_lower_def is_upper_def)
qed

lemma trim_location_line:
  "section_line (''location = '' @ new_loc) st = st\<lparr> ss_location := Some (trim new_loc) \<rparr>"
proof -
  have line: "trim (''location = '' @ new_loc) = ''location '' @ CHR ''='' # trim_end (CHR '' '' # new_loc)"
    using trim_mid [of "''location ''" "CHR ''=''" "CHR '' '' # new_loc"] by (simp add: is_whitespace_def)
  have parts: "split_once (CHR ''='') (''location '' @ CHR ''='' # v) = Some (''location '', v)" for v
    by (simp only: split_once_Some_iff) simp
  have key: "trim ''location '' = ''location''"
    by (simp add: trim_def trim_start_def trim_end_def is_whitespace_def)
  have plain: "\<not> is_section_line (''location '' @ v)" for v
    by (simp add: is_section_line_def starts_with_def)
  have "trim (trim_end (CHR '' '' # new_loc)) = trim new_loc"
    by (simp add: trim_Cons)
  moreover have "eq_ignore_ascii_case ''location'' ''location''"
    by (simp add: eq_ignore_ascii_case_def)
  ultimately show ?thesis
    unfolding section_line_def Let_def line parts by (simp only: plain option.case prod.case key if_True if_False)
qed


lemma section_line_plain_relocated:
  assumes "\<And>key value. split_once (CHR ''='') (trim line) = Some (key, value) \<Longrightarrow>
      eq_ignore_ascii_case (trim key) ''location'' \<Longrightarrow> trim value \<noteq> old_loc"
  shows "section_line line (relocate_state old_loc new_loc st) = relocate_state old_loc new_loc (section_line line st)"
proof (cases "is_section_line (trim line)")
  case True
  have "relocate_state old_loc new_loc st'\<lparr>ss_name := n\<rparr> = relocate_state old_loc new_loc (st'\<lparr>ss_name := n\<rparr>)" for st' n
    by (simp add: relocate_state_def)
  with True show ?thesis
    by (simp add: section_line_def flush_relocated)
next
  case False
  with assms show ?thesis
    by (auto simp: section_line_def relocate_state_def relocated_def split: option.splits)
qed

lemma section_line_relocated:
  "section_line (trim (rewrite_line old_loc new_loc line)) (relocate_state old_loc new_loc st)
     = relocate_state old_loc new_loc (section_line line st)"
proof (cases "\<exists>key value. split_once (CHR ''='') (trim line) = Some (key, value)
    \<and> eq_ignore_ascii_case (trim key) ''location'' \<and> trim value = old_loc")
  case True
  then obtain key val where parts: "split_once (CHR ''='') (trim line) = Some (key, val)"
    and key: "eq_ignore_ascii_case (trim key) ''location''" and old: "trim val = old_loc"
    by (elim exE conjE) (rule that)
  have "rewrite_line old_loc new_loc line = (''location = '' @ new_loc) @ [newline]"
    using key old by (simp add: rewrite_line_def parts)
  then have "section_line (trim (rewrite_line old_loc new_loc line)) st' = st'\<lparr> ss_location := Some (trim new_loc) \<rparr>" for st'
    by (simp only: trim_snoc_space whitespace_chars section_line_trim trim_location_line)
  moreover have "section_line line st = st\<lparr> ss_location := Some old_loc \<rparr>"
    using location_key_not_section [OF parts key] key old by (simp add: section_line_def parts)
  ultimately show ?thesis
    by (simp add: relocate_state_def relocated_def)
next
  case False
  then have "rewrite_line old_loc new_loc line = line @ [newline]"
    by (auto simp: rewrite_line_def split: option.splits)
  with False show ?thesis
    by (simp add: trim_snoc_space section_line_trim section_line_plain_relocated)
qed

lemma section_lines_relocated:
  "fold section_line (map trim (map (rewrite_line old_loc new_loc) ls)) (relocate_state old_loc new_loc st)
     = relocate_state old_loc new_loc (fold section_line ls st)"
  by (induction ls arbitrary: st) (simp_all add: section_line_relocated)

lemma rewrite_line_line:
  assumes "newline \<notin> set line" and "newline \<notin> set new_loc"
  shows "\<exists>l. rewrite_line old_loc new_loc line = l @ [newline] \<and> newline \<notin> set l"
proof -
  have "newline \<notin> set ''location = ''"
    by (simp add: newline_def)
  then have "newline \<notin> set (''location = '' @ new_loc)"
    using assms(2) by simp
  then show ?thesis
    using assms(1) by (auto simp: rewrite_line_def simp del: append_Cons split: option.splits intro!: exI)
qed

lemma rewritten_lines:
  assumes new: "newline \<notin> set new_loc" and ls: "\<forall>l \<in> set ls. newline \<notin> set l"
  shows "map trim (str_lines (concat (map (rewrite_line old_loc new_loc) ls)))
    = map trim (map (rewrite_line old_loc new_loc) ls)"
proof -
  let ?rw = "rewrite_line old_loc new_loc"
  have shape: "?rw l = butlast (?rw l) @ [newline] \<and> newline \<notin> set (butlast (?rw l))" if "l \<in> set ls" for l
    using rewrite_line_line [OF ls [rule_format, OF that] new, of old_loc] by auto
  then have built: "map ?rw ls = map (\<lambda>l. l @ [newline]) (map (\<lambda>l. butlast (?rw l)) ls)"
    by (simp add: comp_def)
  have "map trim (str_lines (concat (map ?rw ls)))
      = map trim (str_lines (concat (map (\<lambda>l. l @ [newline]) (map (\<lambda>l. butlast (?rw l)) ls))))"
    by (simp only: built)
  also have "\<dots> = map trim (map (\<lambda>l. butlast (?rw l)) ls)"
    by (rule trimmed_lines_concat) (use shape in auto)
  also have "\<dots> = map trim (map ?rw ls)"
    using shape trim_snoc_space [of newline] by (auto simp del: append_butlast_last_id) metis
  finally show ?thesis .
qed

text \<open>C25: rewriting a location in a repos.conf file changes exactly that: the file read back has the
  same sections with the same names and sync URIs, in the same order; those at the old location are at
  the new one, the others where they were.\<close>

theorem rewrite_relocates_sections:
  assumes "newline \<notin> set new_loc"
  shows "parse_repo_sections_full (rewritten_content old_loc new_loc content)
    = map (relocate_section old_loc new_loc) (parse_repo_sections_full content)"
proof -
  let ?start = "\<lparr> ss_name = [], ss_location = None, ss_sync_uri = None, ss_repos = [] \<rparr>"
  have start: "?start = relocate_state old_loc new_loc ?start"
    by (simp add: relocate_state_def)
  have "parse_repo_sections_full (rewritten_content old_loc new_loc content)
      = ss_repos (flush_section (fold section_line
          (map trim (map (rewrite_line old_loc new_loc) (str_lines content))) ?start))"
    unfolding parse_sections_trimmed rewritten_content_def
    using rewritten_lines [OF assms] line_no_newline by simp
  also have "\<dots> = ss_repos (relocate_state old_loc new_loc (flush_section (fold section_line (str_lines content) ?start)))"
    by (subst start) (simp only: section_lines_relocated flush_relocated)
  finally show ?thesis
    by (simp add: relocate_state_def parse_repo_sections_full_def)
qed

theorem rewrite_relocates_sections_witness:
  "newline \<notin> set ''/tmp/b'' \<and>
   parse_repo_sections_full (rewritten_content ''/a'' ''/tmp/b''
       (''[x]'' @ [newline] @ ''Location= /a'' @ [newline] @ ''[y]'' @ [newline] @ ''location = /c''))
     = map (relocate_section ''/a'' ''/tmp/b'')
         [\<lparr> rs_name = ''x'', rs_location = ''/a'', rs_sync_uri = None \<rparr>,
          \<lparr> rs_name = ''y'', rs_location = ''/c'', rs_sync_uri = None \<rparr>]"
proof -
  have new: "newline \<notin> set ''/tmp/b''"
    by (simp add: newline_def)
  have "parse_repo_sections_full
        (''[x]'' @ [newline] @ ''Location= /a'' @ [newline] @ ''[y]'' @ [newline] @ ''location = /c'')
      = [\<lparr> rs_name = ''x'', rs_location = ''/a'', rs_sync_uri = None \<rparr>,
          \<lparr> rs_name = ''y'', rs_location = ''/c'', rs_sync_uri = None \<rparr>]"
    by code_simp
  then show ?thesis
    using new rewrite_relocates_sections [OF new, of "''/a''"
      "''[x]'' @ [newline] @ ''Location= /a'' @ [newline] @ ''[y]'' @ [newline] @ ''location = /c''"] by simp
qed

end
