(* ===== verification/Worker_Confinement.thy ===== *)
theory Worker_Confinement
  imports Worker_Setup
begin

text \<open>Where the worker writes a client's configuration: whatever names and paths the client sends,
  nothing outside the directory it is applied to changes, also when a write fails on the way.\<close>

section \<open>The frame of a directory\<close>

text \<open>No inode has a name below the directory and a name outside it.\<close>

definition separate :: "path \<Rightarrow> fs \<Rightarrow> bool" where
  "separate base fs \<longleftrightarrow>
     (\<forall>p q i. under base p \<longrightarrow> \<not> under base q \<longrightarrow> fs_node p fs = Some (File i) \<longrightarrow> fs_node q fs \<noteq> Some (File i))"

definition same_outside :: "path \<Rightarrow> fs \<Rightarrow> fs \<Rightarrow> bool" where
  "same_outside base fs fs' \<longleftrightarrow>
     (\<forall>q. \<not> under base q \<longrightarrow> fs_node q fs' = fs_node q fs \<and> fs_content q fs' = fs_content q fs)"

definition confined :: "path \<Rightarrow> fs \<Rightarrow> fs \<Rightarrow> bool" where
  "confined base fs0 fs \<longleftrightarrow>
     fs_wf fs \<and> fs_node base fs = Some Dir \<and> separate base fs \<and> same_outside base fs0 fs"

lemma separateD:
  "separate base fs \<Longrightarrow> under base p \<Longrightarrow> \<not> under base q \<Longrightarrow> fs_node p fs = Some (File i) \<Longrightarrow> fs_node q fs \<noteq> Some (File i)"
  unfolding separate_def by (elim allE impE) assumption

lemma same_outsideD:
  assumes "same_outside base fs fs'" "\<not> under base q"
  shows "fs_node q fs' = fs_node q fs" "fs_content q fs' = fs_content q fs"
  using assms unfolding same_outside_def by simp_all

lemma same_outside_trans: "same_outside base a b \<Longrightarrow> same_outside base b c \<Longrightarrow> same_outside base a c"
  unfolding same_outside_def by simp

lemma confinedI:
  assumes "confined base fs0 fs" and "fs_wf fs'" and "fs_node base fs' = Some Dir"
    and "separate base fs'" and "same_outside base fs fs'"
  shows "confined base fs0 fs'"
  using assms same_outside_trans unfolding confined_def by (elim conjE) (intro conjI; assumption?; rule)

lemma dir_prefixes:
  assumes "fs_wf fs" and "fs_node p fs = Some Dir"
  shows "fs_node (take n p) fs = Some Dir"
proof (induction "length p - n" arbitrary: n)
  case (Suc m)
  then have "fs_node (take (Suc n) p) fs = Some Dir"
    by simp
  moreover have "butlast (take (Suc n) p) = take n p" and "take (Suc n) p \<noteq> []"
    using Suc.hyps(2) by (auto simp: butlast_take)
  ultimately show ?case
    using fs_wfD(5) [OF assms(1), of "take (Suc n) p"] by (simp add: fs_node_def)
qed (use assms(2) in simp)

lemma under_take: "under base p \<Longrightarrow> \<not> under base (take n p) \<Longrightarrow> take n p = take n base"
  by (metis append_take_drop_id length_take min.cobounded2 nle_le take_all_iff take_append take_take under_def min_def)

lemma confined_create_dir_all:
  assumes "under base p"
  shows "keeps (confined base fs0) (fs_create_dir_all p)"
proof (rule keepsI)
  fix fs
  assume c: "confined base fs0 fs"
  let ?fs = "snd (fs_create_dir_all p fs)"
  have g: "grows fs ?fs"
    by (rule create_dir_all_grows)
  have wf: "fs_wf fs" and dir: "fs_node base fs = Some Dir" and sep: "separate base fs"
    using c by (simp_all add: confined_def)
  have out: "fs_node q ?fs = fs_node q fs" if q: "\<not> under base q" for q
  proof (rule growsD [OF g, of q])
    assume new: "fs_node q fs = None" "fs_node q ?fs = Some Dir"
    with create_dir_all_new [OF new(2)] obtain n where n: "q = take n p"
      by auto
    then have "q = take n base"
      using under_take [OF assms] q by simp
    then show ?thesis
      using dir_prefixes [OF wf dir, of n] new(1) by simp
  qed
  have "separate base ?fs"
    using sep unfolding separate_def grows_file [OF g] .
  moreover have "same_outside base fs ?fs"
    using out grows_content [OF g] by (simp add: same_outside_def)
  moreover have "fs_node base ?fs = Some Dir"
    by (rule growsD [OF g, of base]) (simp_all add: dir)
  ultimately show "confined base fs0 ?fs"
    using confinedI [OF c] create_dir_all_wf [OF wf] by blast
qed

lemma fs_add_adds:
  assumes "fs_wf fs" and "p \<noteq> []" and "fs_node p fs = None" and "fs_node (butlast p) fs = Some Dir"
  shows "adds p bs fs (fs_add p bs fs)"
  using assms fs_wfD(1) [OF assms(1)] by (auto simp: adds_def fs_add_def hm_wf_insert fun_eq_iff)

lemma adds_file:
  assumes "adds p bs fs fs'" and "fs_wf fs" and "fs_node q fs' = Some (File i)"
  shows "q = p \<and> fs_next fs \<le> i \<or> q \<noteq> p \<and> fs_node q fs = Some (File i) \<and> i < fs_next fs"
proof (cases "q = p")
  case True
  then show ?thesis
    using assms(1,3) by (auto simp: adds_def fs_node_def)
next
  case False
  then have "fs_node q fs = Some (File i)"
    using adds_node [OF assms(1) False] assms(3) by simp
  then show ?thesis
    using False fs_wfD(3) [OF assms(2), of q i] by (auto simp: fs_node_def split: if_splits)
qed

lemma confined_adds:
  assumes c: "confined base fs0 fs" and a: "adds p bs fs fs'" and p: "under base p"
  shows "confined base fs0 fs'"
proof (rule confinedI [OF c])
  have wf: "fs_wf fs" and dir: "fs_node base fs = Some Dir" and sep: "separate base fs"
    using c by (simp_all add: confined_def)
  show "fs_wf fs'" and "fs_node base fs' = Some Dir"
    using adds_wf [OF a wf] adds_dir [OF a dir] .
  show "same_outside base fs fs'"
    unfolding same_outside_def using adds_node [OF a] adds_content [OF a wf] p by auto
  show "separate base fs'"
    unfolding separate_def
  proof (intro allI impI notI)
    fix r q i
    assume r: "under base r" and q: "\<not> under base q"
      and nr: "fs_node r fs' = Some (File i)" and nq: "fs_node q fs' = Some (File i)"
    have "q \<noteq> p"
      using p q by auto
    then have "fs_node q fs = Some (File i)" and "i < fs_next fs"
      using adds_file [OF a wf nq] by auto
    moreover then have "fs_node r fs = Some (File i)"
      using adds_file [OF a wf nr] by auto
    ultimately show False
      using separateD [OF sep r q] by simp
  qed
qed

lemma confined_overwrite:
  assumes c: "confined base fs0 fs" and p: "under base p" and node: "fs_node p fs = Some (File i)"
  shows "confined base fs0 (fs\<lparr> fs_inodes := hm_insert i bs (fs_inodes fs) \<rparr>)"
proof (rule confinedI [OF c])
  let ?fs = "fs\<lparr> fs_inodes := hm_insert i bs (fs_inodes fs) \<rparr>"
  have wf: "fs_wf fs" and dir: "fs_node base fs = Some Dir" and sep: "separate base fs"
    using c by (simp_all add: confined_def)
  have nodes: "fs_node q ?fs = fs_node q fs" for q
    by (simp add: fs_node_def)
  show "fs_node base ?fs = Some Dir" and "separate base ?fs"
    using dir sep by (simp_all add: nodes separate_def)
  show "fs_wf ?fs"
    by (rule fs_wfI) (use fs_wfD [OF wf] in \<open>auto simp: nodes\<close>)
  show "same_outside base fs ?fs"
    unfolding same_outside_def
    using separateD [OF sep p _ node] by (auto simp: nodes fs_content_def split: option.splits node.splits)
qed

lemma confined_write:
  assumes "under base p"
  shows "keeps (confined base fs0) (fs_write p bs)"
proof (rule keepsI)
  fix fs
  assume c: "confined base fs0 fs"
  show "confined base fs0 (snd (fs_write p bs fs))"
  proof (cases "fs_node p fs")
    case None
    then have "p \<noteq> []"
      by (auto simp: fs_node_def)
    then show ?thesis
      using c None confined_adds [OF c fs_add_adds assms] by (auto simp: fs_write_def confined_def)
  next
    case (Some n)
    then show ?thesis
      using c confined_overwrite [OF c assms] by (cases n) (simp_all add: fs_write_def)
  qed
qed

section \<open>Every write of a configuration\<close>

lemma under_base [simp]:
  "under base base"
  "under base (base @ p)"
  "under base (join_name (base @ p) f)"
  "under base (butlast (base @ n # p))"
  by (simp_all add: under_def join_name_def butlast_append)

lemma confined_package_file: "keeps (confined base fs0) (write_package_file base name none content)"
  unfolding write_package_file_def
  by (intro triple_rules confined_create_dir_all confined_write) simp_all

lemma confined_named_files: "keeps (confined base fs0) (write_named_files (base @ p) files)"
  unfolding write_named_files_def write_named_file_def
  by (intro triple_rules confined_create_dir_all confined_write) simp_all

lemma confined_directory_name: "keeps P (write_directory_name rel p)"
  by (rule keepsI) (simp add: write_directory_name_def)

lemma confined_tree_file: "keeps (confined base fs0) (write_tree_file what (base @ [name]) file)"
  unfolding write_tree_file_def Let_def
  by (intro triple_rules confined_create_dir_all confined_write confined_directory_name) simp_all

lemmas config_write_defs =
  write_make_conf_inner_def write_package_use_inner_def write_package_accept_keywords_inner_def
  write_package_license_inner_def write_package_mask_inner_def write_package_unmask_inner_def
  write_package_env_inner_def write_env_files_inner_def write_repos_conf_inner_def
  write_profile_overlay_inner_def write_patches_inner_def

lemma apply_config_keeps:
  "keeps (confined base fs0) (apply_config_inner we is_dir link base config worker_chost gpg_key gpg_home)"
  unfolding apply_config_inner_def config_write_defs
  by (intro triple_rules confined_write confined_package_file confined_named_files confined_tree_file) simp


definition sample_container :: fs where
  "sample_container =
     \<lparr> fs_tree = [([''etc''], Dir), ([''etc'', ''portage''], Dir), ([''etc'', ''passwd''], File 0)],
       fs_inodes = [(0, [1, 2, 3])], fs_next = 1 \<rparr>"

definition sample_hostile_config :: portage_config where
  "sample_hostile_config = sample_portage_config\<lparr>
     pc_env_files := [(''..'', ''x''), (''../passwd'', ''x'')],
     pc_profile_overlay := [(''../../passwd'', ''x'')],
     pc_patches := [(''/etc/passwd'', ''x'')] \<rparr>"

definition sample_worker_env :: worker_env where
  "sample_worker_env = \<lparr> we_parallel_jobs = Some ''8'', we_load_average = None, we_skip_sync = True \<rparr>"

lemma sample_container_ok:
  "fs_wf sample_container"
  "fs_node [''etc'', ''portage''] sample_container = Some Dir"
  "separate [''etc'', ''portage''] sample_container"
  by (auto simp: sample_container_def fs_wf_def hm_wf_def fs_node_def separate_def under_def split: if_splits)


end
