(* ===== verification/Cli_Versions.thy ===== *)
theory Cli_Versions
  imports File_System Text_Lines "HOL-Library.Product_Lexorder"
begin

text \<open>Versions of packages as the client compares them, and whether an atom is installed
  (\<open>crates/cli/src/portage.rs\<close>: \<open>split_name_version\<close>, \<open>parse_atom_operator\<close>, \<open>split_revision\<close>,
  \<open>compare_versions\<close>, \<open>is_installed\<close>).\<close>

section \<open>Comparisons\<close>

datatype ordering = Less | Equal | Greater

definition cmp :: "'a::linorder \<Rightarrow> 'a \<Rightarrow> ordering" where
  "cmp a b = (if a < b then Less else if a = b then Equal else Greater)"

fun flip_ordering :: "ordering \<Rightarrow> ordering" where
  "flip_ordering Less = Greater"
| "flip_ordering Equal = Equal"
| "flip_ordering Greater = Less"

text \<open>The first difference decides.\<close>

fun then_with :: "ordering \<Rightarrow> ordering \<Rightarrow> ordering" where
  "then_with Equal d = d"
| "then_with c d = c"

section \<open>The parts of a version\<close>

fun find_version :: "string \<Rightarrow> string \<Rightarrow> (string \<times> string) option" where
  "find_version before [] = None"
| "find_version before (c # cs) =
     (case find_version (before @ [c]) cs of
        Some r \<Rightarrow> Some r
      | None \<Rightarrow> if c = CHR ''-'' \<and> cs \<noteq> [] \<and> is_digit (hd cs) then Some (before, cs) else None)"

definition split_name_version :: "string \<Rightarrow> string \<times> string option" where
  "split_name_version s = (case find_version [] s of Some (name, version) \<Rightarrow> (name, Some version) | None \<Rightarrow> (s, None))"

datatype atom_op = OpNone | OpEq | OpEqGlob | OpTilde | OpGe | OpLe | OpGt | OpLt

definition parse_atom_operator :: "string \<Rightarrow> atom_op \<times> string" where
  "parse_atom_operator atom =
     (case strip_prefix ''>='' atom of Some rest \<Rightarrow> (OpGe, rest) | None \<Rightarrow>
     (case strip_prefix ''<='' atom of Some rest \<Rightarrow> (OpLe, rest) | None \<Rightarrow>
     (case strip_prefix ''='' atom of Some rest \<Rightarrow> (if ends_with ''*'' rest then OpEqGlob else OpEq, rest) | None \<Rightarrow>
     (case strip_prefix ''~'' atom of Some rest \<Rightarrow> (OpTilde, rest) | None \<Rightarrow>
     (case strip_prefix ''>'' atom of Some rest \<Rightarrow> (OpGt, rest) | None \<Rightarrow>
     (case strip_prefix ''<'' atom of Some rest \<Rightarrow> (OpLt, rest) | None \<Rightarrow> (OpNone, atom)))))))"

text \<open>\<open>rfind\<close>: the last place where the pattern stands, as what is before it and what follows it.\<close>

fun rfind :: "string \<Rightarrow> string \<Rightarrow> string \<Rightarrow> (string \<times> string) option" where
  "rfind pat before [] = (if pat = [] then Some (before, []) else None)"
| "rfind pat before (c # cs) =
     (case rfind pat (before @ [c]) cs of
        Some r \<Rightarrow> Some r
      | None \<Rightarrow> map_option (Pair before) (strip_prefix pat (c # cs)))"

definition split_revision :: "string \<Rightarrow> string \<times> string option" where
  "split_revision version =
     (case rfind ''-r'' [] version of
        Some (base, after) \<Rightarrow>
          if after \<noteq> [] \<and> list_all is_digit after then (base, Some (CHR ''r'' # after)) else (version, None)
      | None \<Rightarrow> (version, None))"

fun split_any :: "char list \<Rightarrow> string \<Rightarrow> string list" where
  "split_any ds [] = [[]]"
| "split_any ds (c # cs) =
     (if c \<in> set ds then [] # split_any ds cs
      else (case split_any ds cs of [] \<Rightarrow> [[c]] | p # ps \<Rightarrow> (c # p) # ps))"

definition suffix_kind_with_number :: "string \<Rightarrow> string \<Rightarrow> int \<Rightarrow> (int \<times> nat) option" where
  "suffix_kind_with_number s prefix kind =
     (case strip_prefix prefix s of
        None \<Rightarrow> None
      | Some rest \<Rightarrow>
          if rest = [] then Some (kind, 0)
          else if \<not> list_all is_digit rest then None
          else map_option (Pair kind) (parse_unsigned u64_max rest))"

definition suffix_order :: "string \<Rightarrow> (int \<times> nat) option" where
  "suffix_order s =
     or_else (suffix_kind_with_number s ''alpha'' (-4))
     (or_else (suffix_kind_with_number s ''beta'' (-3))
     (or_else (suffix_kind_with_number s ''pre'' (-2))
     (or_else (suffix_kind_with_number s ''rc'' (-1))
       (suffix_kind_with_number s ''p'' 1))))"

definition split_numeric_letter :: "string \<Rightarrow> nat option \<times> char option" where
  "split_numeric_letter s =
     (let digits = takeWhile is_digit s; rest = dropWhile is_digit s in
      (if digits = [] then None else parse_unsigned u64_max digits,
       case rest of c # _ \<Rightarrow> if is_lower c then Some c else None | [] \<Rightarrow> None))"

section \<open>Comparing versions\<close>

definition compare_letters :: "char option \<Rightarrow> char option \<Rightarrow> ordering" where
  "compare_letters la lb =
     (case (la, lb) of
        (None, None) \<Rightarrow> Equal
      | (None, Some _) \<Rightarrow> Less
      | (Some _, None) \<Rightarrow> Greater
      | (Some a, Some b) \<Rightarrow> cmp a b)"

text \<open>One turn of the loop; \<open>Equal\<close> is where it continues.\<close>

definition compare_part :: "string \<Rightarrow> string \<Rightarrow> ordering" where
  "compare_part pa pb =
     (case (suffix_order pa, suffix_order pb) of
        (Some a, Some b) \<Rightarrow> cmp a b
      | (Some a, None) \<Rightarrow> cmp (fst a) 0
      | (None, Some b) \<Rightarrow> cmp 0 (fst b)
      | (None, None) \<Rightarrow>
          (let (na, la) = split_numeric_letter pa; (nb, lb) = split_numeric_letter pb in
           case (na, nb) of
             (Some a, Some b) \<Rightarrow> then_with (cmp a b) (compare_letters la lb)
           | (Some _, None) \<Rightarrow> Greater
           | (None, Some _) \<Rightarrow> Less
           | (None, None) \<Rightarrow> cmp pa pb))"

text \<open>The shorter version is filled up with empty parts.\<close>

fun compare_parts :: "string list \<Rightarrow> string list \<Rightarrow> ordering" where
  "compare_parts [] [] = Equal"
| "compare_parts (p # ps) [] = then_with (compare_part p []) (compare_parts ps [])"
| "compare_parts [] (q # qs) = then_with (compare_part [] q) (compare_parts [] qs)"
| "compare_parts (p # ps) (q # qs) = then_with (compare_part p q) (compare_parts ps qs)"

definition revision_number :: "string option \<Rightarrow> nat" where
  "revision_number revision =
     (case revision of None \<Rightarrow> 0
      | Some r \<Rightarrow> (case strip_prefix ''r'' r of None \<Rightarrow> 0 | Some n \<Rightarrow> unwrap_or 0 (parse_unsigned u64_max n)))"

definition version_parts :: "string \<Rightarrow> string list" where
  "version_parts v = split_any ''._'' (fst (split_revision v))"

definition compare_versions :: "string \<Rightarrow> string \<Rightarrow> ordering" where
  "compare_versions a b =
     then_with (compare_parts (version_parts a) (version_parts b))
       (cmp (revision_number (snd (split_revision a))) (revision_number (snd (split_revision b))))"

section \<open>Installed packages\<close>

definition version_matches :: "atom_op \<Rightarrow> string \<Rightarrow> string \<Rightarrow> bool" where
  "version_matches op installed wanted =
     (case op of
        OpNone \<Rightarrow> True
      | OpEq \<Rightarrow> installed = wanted
      | OpEqGlob \<Rightarrow> starts_with (trim_end_matches (CHR ''*'') wanted) installed
      | OpTilde \<Rightarrow> fst (split_revision installed) = fst (split_revision wanted)
      | OpGe \<Rightarrow> compare_versions installed wanted \<noteq> Less
      | OpLe \<Rightarrow> compare_versions installed wanted \<noteq> Greater
      | OpGt \<Rightarrow> compare_versions installed wanted = Greater
      | OpLt \<Rightarrow> compare_versions installed wanted = Less)"

definition entry_matches :: "atom_op \<Rightarrow> string \<Rightarrow> string option \<Rightarrow> string \<Rightarrow> bool" where
  "entry_matches op name wanted entry =
     (case split_name_version entry of (installed_name, installed) \<Rightarrow>
        installed_name = name \<and>
        (case wanted of
           None \<Rightarrow> True
         | Some w \<Rightarrow> (case installed of None \<Rightarrow> False | Some v \<Rightarrow> version_matches op v w)))"

definition is_installed :: "path \<Rightarrow> fs \<Rightarrow> string \<Rightarrow> bool" where
  "is_installed root fs atom =
     (if starts_with ''@'' atom then False
      else
        let (op, stripped) = parse_atom_operator atom in
        case split_once (CHR ''/'') stripped of
          None \<Rightarrow> False
        | Some (category, name_maybe_version) \<Rightarrow>
            let (name, wanted) =
                  (if op = OpNone then (name_maybe_version, None) else split_name_version name_maybe_version)
            in case fst (fs_read_dir (root @ [''var'', ''db'', ''pkg'', category]) fs) of
                 Inl _ \<Rightarrow> False
               | Inr entries \<Rightarrow> list_ex (\<lambda>(entry, _). entry_matches op name wanted entry) entries)"

section \<open>The order of versions\<close>

lemma cmp_simps [simp]:
  "cmp a b = Equal \<longleftrightarrow> a = b"
  "cmp a b = Less \<longleftrightarrow> a < b"
  "cmp a b = Greater \<longleftrightarrow> b < a"
  "cmp a a = Equal"
  by (auto simp: cmp_def)

lemma then_with_Equal [simp]: "then_with c Equal = c"
  by (cases c) simp_all

lemma cmp_ranks [simp]: "cmp (Suc 0) 2 = Less" "cmp 2 (Suc 0) = Greater"
  by (simp_all add: cmp_def)

lemma cmp_pair: "cmp (a, b) (c, d) = then_with (cmp a c) (cmp b d)"
  by (auto simp: cmp_def)

lemma cmp_Cons: "cmp (a # as) (b # bs) = then_with (cmp a b) (cmp as bs)"
  by (auto simp: cmp_def)

lemma flip_cmp: "flip_ordering (cmp a b) = cmp b a"
  by (auto simp: cmp_def)

text \<open>The key of a part: suffixes below the plain parts, then parts without a number, then numbers,
  then patch levels.\<close>

type_synonym part_key = "nat \<times> int \<times> nat \<times> nat \<times> string"

definition part_key :: "string \<Rightarrow> part_key" where
  "part_key p =
     (case suffix_order p of
        Some (kind, n) \<Rightarrow> (if kind < 0 then 0 else 3, kind, n, 0, [])
      | None \<Rightarrow>
          (case split_numeric_letter p of
             (Some n, letter) \<Rightarrow> (2, 0, n, (case letter of None \<Rightarrow> 0 | Some c \<Rightarrow> Suc (of_char c)), [])
           | (None, _) \<Rightarrow> (1, 0, 0, 0, p)))"

lemma suffix_kind_nonzero: "suffix_order s = Some (kind, n) \<Longrightarrow> kind \<noteq> 0"
  by (auto simp: suffix_order_def suffix_kind_with_number_def or_else_def
      split: option.splits if_splits)

lemma cmp_letter_codes:
  "cmp (case la of None \<Rightarrow> 0 | Some c \<Rightarrow> Suc (of_char c)) (case lb of None \<Rightarrow> 0 | Some c \<Rightarrow> Suc (of_char c))
    = compare_letters la lb"
  by (auto simp: compare_letters_def cmp_def less_char_def split: option.splits)

lemma compare_part_key: "compare_part pa pb = cmp (part_key pa) (part_key pb)"
proof (cases "suffix_order pa"; cases "suffix_order pb")
  fix a b
  assume "suffix_order pa = Some a" and "suffix_order pb = Some b"
  then show ?thesis
    by (cases a; cases b) (auto simp: compare_part_def part_key_def cmp_pair cmp_def)
next
  fix a
  assume "suffix_order pa = Some a" and "suffix_order pb = None"
  then show ?thesis
    using suffix_kind_nonzero [of pa "fst a" "snd a"]
    by (cases a) (auto simp: compare_part_def part_key_def cmp_pair cmp_def split: option.splits prod.splits)
next
  fix b
  assume "suffix_order pa = None" and "suffix_order pb = Some b"
  then show ?thesis
    using suffix_kind_nonzero [of pb "fst b" "snd b"]
    by (cases b) (auto simp: compare_part_def part_key_def cmp_pair cmp_def split: option.splits prod.splits)
next
  assume none: "suffix_order pa = None" "suffix_order pb = None"
  obtain na la where a: "split_numeric_letter pa = (na, la)" by (cases "split_numeric_letter pa")
  obtain nb lb where b: "split_numeric_letter pb = (nb, lb)" by (cases "split_numeric_letter pb")
  show ?thesis
    by (cases na; cases nb) (simp_all add: compare_part_def part_key_def none a b cmp_pair cmp_letter_codes)
qed

definition padded :: "nat \<Rightarrow> string list \<Rightarrow> string list" where
  "padded n ps = ps @ replicate (n - length ps) []"

lemma padded_Cons: "padded (Suc n) (p # ps) = p # padded n ps"
  by (simp add: padded_def)

lemma padded_Nil: "padded (Suc n) [] = [] # padded n []"
  by (simp add: padded_def)

lemma compare_parts_key:
  "length ps \<le> n \<Longrightarrow> length qs \<le> n \<Longrightarrow>
     compare_parts ps qs = cmp (map part_key (padded n ps)) (map part_key (padded n qs))"
proof (induction ps qs arbitrary: n rule: compare_parts.induct)
  case (2 p ps)
  then obtain m where "n = Suc m" by (cases n) auto
  with 2 show ?case by (simp add: padded_Cons padded_Nil cmp_Cons compare_part_key)
next
  case (3 q qs)
  then obtain m where "n = Suc m" by (cases n) auto
  with 3 show ?case by (simp add: padded_Cons padded_Nil cmp_Cons compare_part_key)
next
  case (4 p ps q qs)
  then obtain m where "n = Suc m" by (cases n) auto
  with 4 show ?case by (simp add: padded_Cons cmp_Cons compare_part_key)
qed simp

definition version_key :: "nat \<Rightarrow> string \<Rightarrow> part_key list \<times> nat" where
  "version_key n v = (map part_key (padded n (version_parts v)), revision_number (snd (split_revision v)))"

lemma compare_versions_key:
  assumes "length (version_parts a) \<le> n" and "length (version_parts b) \<le> n"
  shows "compare_versions a b = cmp (version_key n a) (version_key n b)"
  by (simp add: compare_versions_def version_key_def compare_parts_key [OF assms] cmp_pair)

text \<open>C29: the client's comparison of versions is a total preorder: every version equals itself, swapping
  the arguments swaps the answer, and it is transitive.\<close>

theorem compare_versions_preorder:
  "compare_versions a a = Equal \<and> compare_versions b a = flip_ordering (compare_versions a b)
   \<and> (compare_versions a b \<noteq> Greater \<longrightarrow> compare_versions b c \<noteq> Greater \<longrightarrow> compare_versions a c \<noteq> Greater)"
proof -
  define n where "n = Max (length ` version_parts ` {a, b, c})"
  have "length (version_parts v) \<le> n" if "v \<in> {a, b, c}" for v
    unfolding n_def by (rule Max_ge) (use that in auto)
  then have key: "compare_versions v w = cmp (version_key n v) (version_key n w)"
    if "v \<in> {a, b, c}" "w \<in> {a, b, c}" for v w
    using that by (intro compare_versions_key) auto
  show ?thesis
    by (auto simp: key flip_cmp not_less)
qed

theorem compare_versions_preorder_witness:
  "compare_versions ''1.9'' ''1.10_rc1'' = Less \<and> compare_versions ''1.10_rc1'' ''1.10-r1'' = Less
   \<and> compare_versions ''1.9'' ''1.10-r1'' \<noteq> Greater"
proof -
  have "compare_versions ''1.9'' ''1.10_rc1'' = Less" and "compare_versions ''1.10_rc1'' ''1.10-r1'' = Less"
    by code_simp+
  then show ?thesis
    using compare_versions_preorder [of "''1.9''" "''1.10_rc1''" "''1.10-r1''"] by simp
qed

lemma rfind_None: "hd pat \<notin> set s \<Longrightarrow> pat \<noteq> [] \<Longrightarrow> rfind pat before s = None"
  by (induction s arbitrary: before) (auto simp: neq_Nil_conv)

lemma split_revision_plain: "CHR ''-'' \<notin> set v \<Longrightarrow> split_revision v = (v, None)"
  by (simp add: split_revision_def rfind_None)

lemma split_any_not_Nil [simp]: "split_any ds s \<noteq> []"
  by (induction s) (auto split: list.split)

lemma split_any_append: "d \<in> set ds \<Longrightarrow> split_any ds (a @ d # b) = split_any ds a @ split_any ds b"
  by (induction a) (auto simp: split: list.splits)

lemma compare_parts_same_prefix: "compare_parts (ps @ qs) (ps @ rs) = compare_parts qs rs"
  by (induction ps) (simp_all add: compare_part_key)

lemma split_any_digit:
  assumes "is_digit c" and "\<not> is_digit CHR ''.''" and "\<not> is_digit CHR ''_''"
  shows "\<exists>p ps. split_any ''._'' (c # s) = (c # p) # ps"
  using assms by (auto split: list.split)

lemma suffix_order_digit:
  assumes "is_digit c"
  shows "suffix_order (c # p) = None"
proof -
  have "c \<noteq> CHR ''a''" "c \<noteq> CHR ''b''" "c \<noteq> CHR ''p''" "c \<noteq> CHR ''r''"
    using assms by (auto simp: is_digit_def)
  then show ?thesis
    by (simp add: suffix_order_def suffix_kind_with_number_def)
qed

text \<open>C30: a version with the suffix of a patch level ranks above every version that extends the same
  base by further numeric components, although Gentoo's rules compare the numeric components first:
  there 1.0_p comes before 1.0.1, here it comes after.\<close>

theorem patch_level_outranks_components:
  assumes "CHR ''-'' \<notin> set base" and "CHR ''-'' \<notin> set rest" and "rest \<noteq> []" and "is_digit (hd rest)"
  shows "compare_versions (base @ ''_p'') (base @ ''.'' @ rest) = Greater"
proof -
  obtain c cs where rest: "rest = c # cs" "is_digit c"
    using assms(3,4) by (cases rest) auto
  obtain p ps where parts: "split_any ''._'' rest = (c # p) # ps"
    using split_any_digit [of c cs] rest by (auto simp: is_digit_def)
  have "version_parts (base @ ''_p'') = split_any ''._'' base @ [''p'']"
    and "version_parts (base @ ''.'' @ rest) = split_any ''._'' base @ (c # p) # ps"
    using assms(1,2) parts split_any_append [of "CHR ''_''" "''._''" base "''p''"]
      split_any_append [of "CHR ''.''" "''._''" base rest]
    by (simp_all add: version_parts_def split_revision_plain)
  moreover have "compare_part ''p'' (c # p) = Greater"
    using rest(2) by (simp add: compare_part_def suffix_order_digit)
      (simp add: suffix_order_def suffix_kind_with_number_def)
  ultimately show ?thesis
    by (simp add: compare_versions_def compare_parts_same_prefix)
qed

theorem patch_level_outranks_components_witness:
  "CHR ''-'' \<notin> set ''1.0'' \<and> is_digit CHR ''1'' \<and> compare_versions (''1.0'' @ ''_p'') (''1.0'' @ ''.'' @ ''1'') = Greater"
  using patch_level_outranks_components [of "''1.0''" "''1''"] by (simp add: is_digit_def)

end
