(* ===== verification/Cli_Portage.thy ===== *)
theory Cli_Portage
  imports Worker_Setup
begin

text \<open>How the client reads its Portage configuration (\<open>crates/cli/src/portage.rs\<close> and
  \<open>crates/cli/src/cflags.rs\<close>): the parsers, the readers of files and directory trees, the resolution of
  compiler flags and USE flags, the snapshots of local repositories and their manifest.  The client's
  file system is that of \<open>File_System\<close>; programs the client runs are a parameter: what a run of a
  program prints, or None when it fails.\<close>

section \<open>Shell variables\<close>

definition is_var_start :: "char \<Rightarrow> bool" where
  "is_var_start c \<longleftrightarrow> c = CHR ''_'' \<or> is_alphabetic c"

definition is_var_char :: "char \<Rightarrow> bool" where
  "is_var_char c \<longleftrightarrow> c = CHR ''_'' \<or> is_alphanumeric c"

definition backslash :: char where
  "backslash = CHR 0x5C"

definition single_quote :: char where
  "single_quote = CHR 0x27"

definition skip_line :: "string \<Rightarrow> string" where
  "skip_line s = dropWhile (\<lambda>c. c \<noteq> newline) s"

definition skip_blanks :: "string \<Rightarrow> string" where
  "skip_blanks s = dropWhile (\<lambda>c. is_whitespace c \<and> c \<noteq> newline) s"

text \<open>The text up to the closing quote, what follows it, and whether there was one.\<close>

fun quoted_value :: "char \<Rightarrow> string \<Rightarrow> string \<times> string \<times> bool" where
  "quoted_value quote [] = ([], [], False)"
| "quoted_value quote [c] = (if c = quote then ([], [], True) else ([c], [], False))"
| "quoted_value quote (c # d # cs) =
     (if c = quote then ([], d # cs, True)
      else if c = backslash \<and> d = newline then quoted_value quote cs
      else if c = backslash \<and> quote = double_quote \<and> d \<in> {backslash, double_quote, CHR ''$'', CHR 0x60}
      then (case quoted_value quote cs of (v, r, t) \<Rightarrow> (d # v, r, t))
      else (case quoted_value quote (d # cs) of (v, r, t) \<Rightarrow> (c # v, r, t)))"

fun bare_value :: "string \<Rightarrow> string \<times> string" where
  "bare_value [] = ([], [])"
| "bare_value [c] = (if is_whitespace c \<or> c = CHR ''#'' then ([], [c]) else ([c], []))"
| "bare_value (c # d # cs) =
     (if c = backslash \<and> d = newline then bare_value cs
      else if is_whitespace c \<or> c = CHR ''#'' then ([], c # d # cs)
      else (case bare_value (d # cs) of (v, r) \<Rightarrow> (c # v, r)))"

definition read_value :: "string \<Rightarrow> string \<times> string" where
  "read_value s =
     (case s of
        [] \<Rightarrow> bare_value s
      | q # cs \<Rightarrow>
          if q = double_quote \<or> q = single_quote
          then (case quoted_value q cs of (v, r, terminated) \<Rightarrow> (if terminated then v else q # v, r))
          else bare_value s)"

definition skip_comment :: "string \<Rightarrow> string" where
  "skip_comment s = (case s of c # _ \<Rightarrow> if c = CHR ''#'' then skip_line s else s | [] \<Rightarrow> s)"

lemma length_skip: "length (skip_line s) \<le> length s" "length (skip_blanks s) \<le> length s"
  "length (skip_comment s) \<le> length s"
  by (auto simp: skip_line_def skip_blanks_def skip_comment_def length_dropWhile_le le_SucI split: list.split)

lemma length_quoted_value: "length (fst (snd (quoted_value quote s))) \<le> length s"
  by (induction quote s rule: quoted_value.induct) (auto split: prod.split simp: le_SucI)

lemma length_bare_value: "length (snd (bare_value s)) \<le> length s"
  by (induction s rule: bare_value.induct) (auto split: prod.split simp: le_SucI)

lemma length_read_value: "length (snd (read_value s)) \<le> length s"
proof (cases s)
  case (Cons q cs)
  then show ?thesis
    using length_quoted_value [of q cs] length_bare_value [of s]
    by (auto simp: read_value_def split: prod.split)
qed (simp add: read_value_def)

lemma dropWhile_shorter: "dropWhile P s = c # cs \<Longrightarrow> length cs < length s"
  by (metis Suc_le_lessD length_Cons length_dropWhile_le)

lemma skip_blanks_shorter: "skip_blanks (dropWhile P cs) = e # r \<Longrightarrow> length r < length cs"
  by (metis Suc_le_lessD le_trans length_Cons length_dropWhile_le length_skip(2))

text \<open>Every turn of the loop handles a comment, an assignment, or the rest of a line that is neither.\<close>

function parse_vars :: "(string, string) btree_map \<Rightarrow> string \<Rightarrow> (string, string) btree_map" where
  "parse_vars vars s =
     (case dropWhile is_whitespace s of
        [] \<Rightarrow> vars
      | c # cs \<Rightarrow>
          if c = CHR ''#'' \<or> \<not> is_var_start c then parse_vars vars (skip_line cs)
          else
            let key = c # takeWhile is_var_char cs; after = skip_blanks (dropWhile is_var_char cs) in
            case after of
              [] \<Rightarrow> parse_vars vars (skip_line after)
            | e # r \<Rightarrow>
                if e \<noteq> CHR ''='' then parse_vars vars (skip_line after)
                else parse_vars (bm_insert key (fst (read_value (skip_blanks r))) vars)
                       (skip_comment (skip_blanks (snd (read_value (skip_blanks r))))))"
  by pat_completeness auto

termination
proof (relation "measure (length \<circ> snd)", goal_cases)
  case (2 vars s c cs)
  then show ?case
    using dropWhile_shorter [of is_whitespace s c cs] length_skip(1) [of cs] by simp
next
  case (3 vars s c cs)
  then show ?case
    using dropWhile_shorter [of is_whitespace s c cs] by (auto simp: skip_line_def)
next
  case (4 vars s c cs key after e r)
  then have "length (skip_line after) \<le> length cs"
    using length_skip [of after] length_skip(2) [of "dropWhile is_var_char cs"] length_dropWhile_le [of is_var_char cs]
    by simp
  then show ?case
    using 4 dropWhile_shorter [of is_whitespace s c cs] by simp
next
  case (5 vars s c cs key after e r)
  have "length (skip_comment (skip_blanks (snd (read_value (skip_blanks r))))) \<le> length r"
    by (meson le_trans length_read_value length_skip(2,3))
  also have "\<dots> < length cs"
    using 5 skip_blanks_shorter [of is_var_char cs e r] by simp
  finally show ?case
    using 5 dropWhile_shorter [of is_whitespace s c cs] by simp
qed simp

declare parse_vars.simps [simp del]

definition parse_make_conf_vars :: "string \<Rightarrow> (string, string) btree_map" where
  "parse_make_conf_vars content = parse_vars [] content"

section \<open>Files of one line per package\<close>

definition significant_lines :: "string \<Rightarrow> string list" where
  "significant_lines content = filter (\<lambda>l. l \<noteq> [] \<and> \<not> starts_with ''#'' l) (map trim (str_lines content))"

definition parse_lines :: "(string \<Rightarrow> 'a option) \<Rightarrow> string \<Rightarrow> 'a list" where
  "parse_lines parser content = List.map_filter parser (significant_lines content)"

definition use_line :: "string \<Rightarrow> package_use_entry option" where
  "use_line line =
     (case split_whitespace line of
        atom # f # fs \<Rightarrow> Some \<lparr> pu_atom = atom, pu_flags = f # fs \<rparr>
      | _ \<Rightarrow> None)"

definition empty_accept_keywords_defaults :: "string \<Rightarrow> string list" where
  "empty_accept_keywords_defaults global_accept_keywords =
     map (\<lambda>keyword. CHR ''~'' # keyword)
       (filter (\<lambda>keyword. \<not> starts_with ''~'' keyword \<and> \<not> starts_with ''-'' keyword)
         (filter (\<lambda>keyword. keyword \<noteq> []) (split_whitespace global_accept_keywords)))"

definition keyword_line :: "string list \<Rightarrow> string \<Rightarrow> package_keyword_entry option" where
  "keyword_line default_keywords line =
     (case split_whitespace line of
        [] \<Rightarrow> None
      | atom # ks \<Rightarrow> Some \<lparr> pk_atom = atom, pk_keywords = (if ks \<noteq> [] then ks else default_keywords) \<rparr>)"

definition license_line :: "string \<Rightarrow> package_license_entry option" where
  "license_line line =
     (case split_whitespace line of
        atom # l # ls \<Rightarrow> Some \<lparr> pl_atom = atom, pl_licenses = l # ls \<rparr>
      | _ \<Rightarrow> None)"

definition atom_line :: "string \<Rightarrow> string option" where
  "atom_line line =
     (case split_whitespace line of
        [] \<Rightarrow> None
      | atom # _ \<Rightarrow> if atom = [] then None else Some atom)"

definition env_line :: "string \<Rightarrow> package_env_entry option" where
  "env_line line =
     (case split_whitespace line of
        atom # f # _ \<Rightarrow> Some \<lparr> pe_atom = atom, pe_env_file = f \<rparr>
      | _ \<Rightarrow> None)"

section \<open>Trees of files\<close>

text \<open>The entries of a directory; one that cannot be read has none.\<close>

definition dir_entries :: "fs \<Rightarrow> path \<Rightarrow> (string \<times> node) list" where
  "dir_entries fs dir = (case fst (fs_read_dir dir fs) of Inl _ \<Rightarrow> [] | Inr entries \<Rightarrow> entries)"

definition below_count :: "fs \<Rightarrow> path \<Rightarrow> nat" where
  "below_count fs dir = length (filter (\<lambda>(q, n). under dir q \<and> q \<noteq> dir) (fs_tree fs))"

lemma under_refl [simp]: "under dir dir"
  by (simp add: under_def)

lemma under_snoc: "under (dir @ [name]) q \<Longrightarrow> under dir q \<and> q \<noteq> dir"
  unfolding under_def by (metis append_eq_conv_conj append_self_conv length_append_singleton lessI not_Cons_self2 take_append take_take take_Suc_Cons take_all_iff linorder_not_less min.absorb1 nless_le)

lemma below_count_child:
  assumes "(name, n) \<in> set (dir_entries fs dir)"
  shows "below_count fs (dir @ [name]) < below_count fs dir"
proof -
  have entry: "(dir @ [name], n) \<in> set (fs_tree fs)"
    using assms by (auto simp: dir_entries_def fs_read_dir_def split: option.splits node.splits)
  let ?below = "\<lambda>d (q, n). under d q \<and> q \<noteq> d"
  have "filter (?below (dir @ [name])) (fs_tree fs) = filter (?below (dir @ [name])) (filter (?below dir) (fs_tree fs))"
    by (auto simp: filter_filter intro!: filter_cong dest: under_snoc)
  moreover have "length (filter (?below (dir @ [name])) (filter (?below dir) (fs_tree fs)))
      < length (filter (?below dir) (fs_tree fs))"
    by (rule length_filter_less [of "(dir @ [name], n)"]) (use entry under_snoc [of dir name "dir @ [name]"] in auto)
  ultimately show ?thesis
    by (simp add: below_count_def)
qed

text \<open>The files below a directory with their contents, in the order of the directory or sorted by name,
  with or without hidden entries.\<close>

function walk :: "bool \<Rightarrow> bool \<Rightarrow> fs \<Rightarrow> path \<Rightarrow> (path \<times> bytes) list" where
  "walk by_name skip_hidden fs dir =
     concat (map (\<lambda>(name, n).
         if skip_hidden \<and> starts_with ''.'' name then []
         else case n of
             Dir \<Rightarrow> walk by_name skip_hidden fs (dir @ [name])
           | File _ \<Rightarrow> (case fs_content (dir @ [name]) fs of None \<Rightarrow> [] | Some bs \<Rightarrow> [(dir @ [name], bs)]))
       ((if by_name then sort_key fst else id) (dir_entries fs dir)))"
  by pat_completeness auto

termination
  by (relation "measure (\<lambda>(_, _, fs, dir). below_count fs dir)")
    (auto intro: below_count_child split: if_splits)

declare walk.simps [simp del]

text \<open>A path relative to a directory that it is below.\<close>

definition relative_to :: "path \<Rightarrow> path \<Rightarrow> string" where
  "relative_to base p = join_with ''/'' (drop (length base) p)"

text \<open>Files that are not valid UTF-8 are skipped.\<close>

definition collect_text :: "path \<Rightarrow> (path \<times> bytes) list \<Rightarrow> (string, string) btree_map" where
  "collect_text base files =
     fold (\<lambda>(p, bs) out. case from_utf8 bs of None \<Rightarrow> out | Some s \<Rightarrow> bm_insert (relative_to base p) s out) files []"

definition read_patches_recursive :: "fs \<Rightarrow> path \<Rightarrow> (string, string) btree_map" where
  "read_patches_recursive fs base = collect_text base (walk False False fs base)"

definition read_dir_recursive :: "fs \<Rightarrow> path \<Rightarrow> (string, string) btree_map" where
  "read_dir_recursive fs base = collect_text base (walk False False fs base)"

text \<open>Here a backslash of a name becomes a slash.\<close>

definition read_text_tree_recursive :: "fs \<Rightarrow> path \<Rightarrow> (string, string) btree_map" where
  "read_text_tree_recursive fs base =
     fold (\<lambda>(p, bs) out. case from_utf8 bs of None \<Rightarrow> out
        | Some s \<Rightarrow> bm_insert (map (\<lambda>c. if c = backslash then CHR ''/'' else c) (relative_to base p)) s out)
       (walk True True fs base) []"

section \<open>Readers\<close>

definition read_package_entries :: "path \<Rightarrow> fs \<Rightarrow> string \<Rightarrow> (string \<Rightarrow> 'a option) \<Rightarrow> 'a list" where
  "read_package_entries root fs name parser =
     (let p = root @ [''etc'', ''portage'', name] in
      case fs_node p fs of
        Some Dir \<Rightarrow>
          concat (map (\<lambda>(q, bs). case from_utf8 bs of None \<Rightarrow> [] | Some s \<Rightarrow> parse_lines parser s) (walk True True fs p))
      | Some (File _) \<Rightarrow>
          parse_lines parser (case fst (fs_read_to_string p fs) of Inl _ \<Rightarrow> [] | Inr s \<Rightarrow> s)
      | None \<Rightarrow> [])"

definition read_package_use :: "path \<Rightarrow> fs \<Rightarrow> package_use_entry list" where
  "read_package_use root fs = read_package_entries root fs ''package.use'' use_line"

definition read_package_accept_keywords :: "path \<Rightarrow> fs \<Rightarrow> string \<Rightarrow> package_keyword_entry list" where
  "read_package_accept_keywords root fs global_accept_keywords =
     read_package_entries root fs ''package.accept_keywords''
       (keyword_line (empty_accept_keywords_defaults global_accept_keywords))"

definition read_package_license :: "path \<Rightarrow> fs \<Rightarrow> package_license_entry list" where
  "read_package_license root fs = read_package_entries root fs ''package.license'' license_line"

definition read_package_mask :: "path \<Rightarrow> fs \<Rightarrow> string list" where
  "read_package_mask root fs = read_package_entries root fs ''package.mask'' atom_line"

definition read_package_unmask :: "path \<Rightarrow> fs \<Rightarrow> string list" where
  "read_package_unmask root fs = read_package_entries root fs ''package.unmask'' atom_line"

definition read_package_env :: "path \<Rightarrow> fs \<Rightarrow> package_env_entry list" where
  "read_package_env root fs = read_package_entries root fs ''package.env'' env_line"

text \<open>The visible files of one directory.\<close>

definition read_flat_files :: "fs \<Rightarrow> path \<Rightarrow> (string, string) btree_map" where
  "read_flat_files fs dir =
     fold (\<lambda>(name, n) files.
         case n of
           Dir \<Rightarrow> files
         | File _ \<Rightarrow>
             if starts_with ''.'' name then files
             else case fst (fs_read_to_string (dir @ [name]) fs) of
                 Inl _ \<Rightarrow> files
               | Inr s \<Rightarrow> bm_insert name s files)
       (dir_entries fs dir) []"

definition read_env_files :: "path \<Rightarrow> fs \<Rightarrow> (string, string) btree_map" where
  "read_env_files root fs =
     (let dir = root @ [''etc'', ''portage'', ''env''] in
      if fs_node dir fs = Some Dir then read_flat_files fs dir else [])"

definition read_repos_conf :: "path \<Rightarrow> fs \<Rightarrow> (string, string) btree_map" where
  "read_repos_conf root fs =
     (let p = root @ [''etc'', ''portage'', ''repos.conf''] in
      case fs_node p fs of
        Some Dir \<Rightarrow> read_flat_files fs p
      | Some (File _) \<Rightarrow> (case fst (fs_read_to_string p fs) of Inl _ \<Rightarrow> [] | Inr s \<Rightarrow> [(''repos.conf'', s)])
      | None \<Rightarrow> [])"

definition read_patches :: "path \<Rightarrow> fs \<Rightarrow> (string, string) btree_map" where
  "read_patches root fs =
     (let dir = root @ [''etc'', ''portage'', ''patches''] in
      if fs_node dir fs = Some Dir then read_patches_recursive fs dir else [])"

definition read_profile_overlay :: "path \<Rightarrow> fs \<Rightarrow> (string, string) btree_map" where
  "read_profile_overlay root fs =
     (let dir = root @ [''etc'', ''portage'', ''profile''] in
      if fs_node dir fs = Some Dir then read_dir_recursive fs dir else [])"

text \<open>\<open>make.profile\<close> is a link; what it points to is an argument.\<close>

fun after_first :: "string \<Rightarrow> string \<Rightarrow> string option" where
  "after_first pat [] = (if pat = [] then Some [] else None)"
| "after_first pat (c # cs) =
     (case strip_prefix pat (c # cs) of Some rest \<Rightarrow> Some rest | None \<Rightarrow> after_first pat cs)"

definition read_profile :: "string option \<Rightarrow> string" where
  "read_profile link =
     (case link of
        Some target \<Rightarrow> unwrap_or target (after_first ''profiles/'' target)
      | None \<Rightarrow> ''unknown'')"

definition read_world :: "path \<Rightarrow> fs \<Rightarrow> string list" where
  "read_world root fs =
     (case fst (fs_read_to_string (root @ [''var'', ''lib'', ''portage'', ''world'']) fs) of
        Inl _ \<Rightarrow> []
      | Inr content \<Rightarrow> significant_lines content)"

end
