(* ===== verification/Cli_Config.thy ===== *)
theory Cli_Config
  imports Cli_Portage
begin

text \<open>What the client sends of its configuration (\<open>crates/cli/src/portage.rs\<close>, \<open>cflags.rs\<close>): flags
  resolved for the worker, snapshots of the repositories that only the client has with their manifest,
  and the package sets.\<close>

section \<open>What the client asks of its system\<close>

record process_output =
  po_success :: bool
  po_status :: string
  po_stdout :: bytes
  po_stderr :: bytes

text \<open>Programs that are run, lossy decoding, hashing, the encoding of a tree of digests, modification
  times, where a path given as a string leads, the variable \<open>DISTDIR\<close>, and the link \<open>make.profile\<close>.\<close>

record client_env =
  ce_run :: "string \<Rightarrow> string list \<Rightarrow> anyhow + process_output"
  ce_lossy :: "bytes \<Rightarrow> string"
  ce_sha256_hex :: "bytes \<Rightarrow> string"
  ce_enc_tree :: "snapshot_refs \<Rightarrow> bytes"
  ce_mtime :: "path \<Rightarrow> int"
  ce_follow :: "string \<Rightarrow> path"
  ce_distdir :: "string option"
  ce_profile_link :: "string option"

fun first_some :: "('a \<Rightarrow> 'b option) \<Rightarrow> 'a list \<Rightarrow> 'b option" where
  "first_some f [] = None"
| "first_some f (x # xs) = (case f x of None \<Rightarrow> first_some f xs | Some y \<Rightarrow> Some y)"

definition successful_stdout :: "client_env \<Rightarrow> string \<Rightarrow> string list \<Rightarrow> string option" where
  "successful_stdout ce program args =
     (case ce_run ce program args of
        Inl _ \<Rightarrow> None
      | Inr out \<Rightarrow> if po_success out then Some (ce_lossy ce (po_stdout out)) else None)"

text \<open>\<open>collect\<close> into a result: the first error ends it.\<close>

fun result_map :: "('a \<Rightarrow> 'e + 'b) \<Rightarrow> 'a list \<Rightarrow> 'e + 'b list" where
  "result_map f [] = Inr []"
| "result_map f (x # xs) = rbind (f x) (\<lambda>y. rbind (result_map f xs) (\<lambda>ys. Inr (y # ys)))"

section \<open>Compiler flags\<close>

definition extract_march_value :: "string \<Rightarrow> string option" where
  "extract_march_value flags =
     first_some (\<lambda>token. case strip_prefix ''-march='' token of
         Some v \<Rightarrow> if v \<noteq> ''native'' \<and> v \<noteq> [] then Some v else None
       | None \<Rightarrow> None) (split_whitespace flags)"

definition try_resolve_march_native_utility :: "client_env \<Rightarrow> string option" where
  "try_resolve_march_native_utility ce =
     (case successful_stdout ce ''resolve-march-native'' [] of None \<Rightarrow> None | Some out \<Rightarrow> extract_march_value out)"

definition gcc_march_line :: "string \<Rightarrow> string option" where
  "gcc_march_line line =
     (case strip_prefix ''-march='' (trim line) of
        None \<Rightarrow> None
      | Some rest \<Rightarrow> if trim rest \<noteq> [] \<and> trim rest \<noteq> ''native'' then Some (trim rest) else None)"

definition try_gcc_march_native :: "client_env \<Rightarrow> string option" where
  "try_gcc_march_native ce =
     (case successful_stdout ce ''gcc'' [''-march=native'', ''-Q'', ''--help=target''] of
        None \<Rightarrow> None
      | Some out \<Rightarrow> first_some gcc_march_line (str_lines out))"

definition resolve_march_native :: "client_env \<Rightarrow> string option" where
  "resolve_march_native ce = or_else (try_resolve_march_native_utility ce) (try_gcc_march_native ce)"

definition resolve_token :: "string \<Rightarrow> string \<Rightarrow> string" where
  "resolve_token resolved_march token =
     (if token = ''-march=native'' then ''-march='' @ resolved_march
      else if token = ''-mtune=native'' then ''-mtune='' @ resolved_march
      else token)"

definition resolve_cflags :: "string \<Rightarrow> string \<Rightarrow> string \<times> bool" where
  "resolve_cflags cflags resolved_march =
     (join_with '' '' (map (resolve_token resolved_march) (split_whitespace cflags)),
      list_ex (\<lambda>token. token = ''-march=native'' \<or> token = ''-mtune=native'') (split_whitespace cflags))"

definition resolve_cpu_flags :: "client_env \<Rightarrow> (string \<times> string list) option" where
  "resolve_cpu_flags ce =
     (case successful_stdout ce ''cpuid2cpuflags'' [] of
        None \<Rightarrow> None
      | Some out \<Rightarrow>
          (case split_once (CHR '':'') (trim out) of
             None \<Rightarrow> None
           | Some (var, flags_str) \<Rightarrow>
               if split_whitespace flags_str \<noteq> [] then Some (trim var, split_whitespace flags_str) else None))"

definition trimmed_stdout :: "client_env \<Rightarrow> string \<Rightarrow> string list \<Rightarrow> string option" where
  "trimmed_stdout ce program args =
     (case successful_stdout ce program args of
        None \<Rightarrow> None
      | Some out \<Rightarrow> if trim out = [] then None else Some (trim out))"

definition try_portageq_chost :: "client_env \<Rightarrow> string option" where
  "try_portageq_chost ce = trimmed_stdout ce ''portageq'' [''envvar'', ''CHOST'']"

definition try_gcc_dumpmachine :: "client_env \<Rightarrow> string option" where
  "try_gcc_dumpmachine ce = trimmed_stdout ce ''gcc'' [''-dumpmachine'']"

definition uname_chost :: "string \<Rightarrow> string" where
  "uname_chost arch =
     (if arch = ''x86_64'' then ''x86_64-pc-linux-gnu''
      else if arch = ''aarch64'' then ''aarch64-unknown-linux-gnu''
      else if arch = ''armv7l'' then ''armv7a-unknown-linux-gnueabihf''
      else if arch = ''i686'' then ''i686-pc-linux-gnu''
      else if arch = ''riscv64'' then ''riscv64-unknown-linux-gnu''
      else if arch = ''ppc64le'' then ''powerpc64le-unknown-linux-gnu''
      else arch @ ''-unknown-linux-gnu'')"

definition detect_system_chost :: "client_env \<Rightarrow> anyhow + string" where
  "detect_system_chost ce =
     (case try_portageq_chost ce of Some chost \<Rightarrow> Inr chost | None \<Rightarrow>
     (case try_gcc_dumpmachine ce of Some chost \<Rightarrow> Inr chost | None \<Rightarrow>
     (case ce_run ce ''uname'' [''-m''] of
        Inl e \<Rightarrow> Inl (with_context ''Failed to run uname'' e)
      | Inr out \<Rightarrow> Inr (uname_chost (trim (ce_lossy ce (po_stdout out)))))))"

record resolved_flags =
  rf_march :: "string option"
  rf_cpu_flags :: "(string \<times> string list) option"
  rf_chost :: string

definition resolve_native_flags :: "client_env \<Rightarrow> anyhow + resolved_flags" where
  "resolve_native_flags ce =
     rbind (detect_system_chost ce) (\<lambda>chost.
     Inr \<lparr> rf_march = resolve_march_native ce, rf_cpu_flags = resolve_cpu_flags ce, rf_chost = chost \<rparr>)"

section \<open>portageq\<close>

definition portageq_command :: "string list \<Rightarrow> string" where
  "portageq_command vars = [CHR 0x60] @ ''portageq envvar '' @ join_with '' '' vars @ [CHR 0x60]"

definition portageq_envvars :: "client_env \<Rightarrow> string list \<Rightarrow> anyhow + (string, string) btree_map" where
  "portageq_envvars ce vars =
     (case ce_run ce ''portageq'' (''envvar'' # vars) of
        Inl e \<Rightarrow> Inl (with_context (''Failed to run '' @ portageq_command vars) e)
      | Inr out \<Rightarrow>
          if \<not> po_success out
          then Inl (bail (portageq_command vars @ '' exited with '' @ po_status out @ '': '' @ ce_lossy ce (po_stderr out)))
          else case from_utf8 (po_stdout out) of
              None \<Rightarrow> Inl (bail ''portageq output is not valid UTF-8'')
            | Some stdout \<Rightarrow>
                (let ls = str_lines stdout in
                 if length ls < length vars
                 then Inl (bail (portageq_command vars @ '' returned too few lines for '' @ show_nat (length vars) @ '' variable(s)''))
                 else if length vars < length ls
                 then Inl (bail (portageq_command vars @ '' returned too many lines for '' @ show_nat (length vars) @ '' variable(s)''))
                 else Inr (fold (\<lambda>(var, v). bm_insert var (trim v)) (zip vars ls) [])))"

definition portageq_envvar :: "client_env \<Rightarrow> string \<Rightarrow> anyhow + string" where
  "portageq_envvar ce var =
     rbind (portageq_envvars ce [var]) (\<lambda>values.
     ok_or (bail (portageq_command [var] @ '' returned no output line'')) (map_of values var))"

section \<open>USE flags\<close>

definition expand_variants :: "string list" where
  "expand_variants = [''USE_EXPAND'', ''USE_EXPAND_UNPREFIXED'', ''USE_EXPAND_HIDDEN'']"

text \<open>The values of the three variables, as far as they are known.\<close>

definition expand_values :: "(string, string) btree_map option \<Rightarrow> string list" where
  "expand_values initial_portageq =
     List.map_filter (\<lambda>var. case initial_portageq of None \<Rightarrow> None | Some resolved \<Rightarrow> map_of resolved var) expand_variants"

definition strip_fallback :: "string list" where
  "strip_fallback =
     [''ABI_X86'', ''ABI_MIPS'', ''ABI_S390'', ''CPU_FLAGS_X86'', ''CPU_FLAGS_ARM'', ''PYTHON_TARGETS'',
      ''PYTHON_SINGLE_TARGET'', ''RUBY_TARGETS'', ''LUA_TARGETS'', ''LUA_SINGLE_TARGET'', ''LLVM_SLOT'', ''LLVM_TARGETS'',
      ''VIDEO_CARDS'', ''INPUT_DEVICES'', ''L10N'']"

definition strip_use_expand_flags :: "string list \<Rightarrow> (string, string) btree_map option \<Rightarrow> string list" where
  "strip_use_expand_flags flags initial_portageq =
     (let found = expand_values initial_portageq;
          names = (if found \<noteq> [] then concat (map split_whitespace found) else strip_fallback);
          prefixes = map (\<lambda>v. map to_lower v @ ''_'') names
      in filter (\<lambda>flag. \<not> list_ex (\<lambda>prefix. starts_with prefix flag) prefixes) flags)"

definition key_fallback :: "string list" where
  "key_fallback =
     [''ABI_X86'', ''VIDEO_CARDS'', ''INPUT_DEVICES'', ''L10N'', ''PYTHON_TARGETS'', ''PYTHON_SINGLE_TARGET'',
      ''RUBY_TARGETS'', ''LUA_TARGETS'', ''LUA_SINGLE_TARGET'', ''LLVM_SLOT'', ''LLVM_TARGETS'']"

definition find_use_expand_keys :: "bool \<Rightarrow> (string, string) btree_map option \<Rightarrow> string list" where
  "find_use_expand_keys can_query_portageq initial_portageq =
     (let found = (if can_query_portageq then expand_values initial_portageq else []) in
      if found \<noteq> [] then fold bs_insert (concat (map split_whitespace found)) [] else key_fallback)"

section \<open>make.conf\<close>

definition make_conf_paths :: "path \<Rightarrow> path list" where
  "make_conf_paths root = [root @ [''etc'', ''portage'', ''make.conf''], root @ [''etc'', ''make.conf'']]"

definition read_make_conf_file :: "fs \<Rightarrow> path \<Rightarrow> anyhow + string" where
  "read_make_conf_file fs p =
     (case fst (fs_read_to_string p fs) of
        Inl e \<Rightarrow> Inl (with_context (''Failed to read '' @ absolute_path p) e)
      | Inr s \<Rightarrow> Inr s)"

definition read_make_conf_vars :: "path \<Rightarrow> fs \<Rightarrow> anyhow + (string, string) btree_map" where
  "read_make_conf_vars root fs =
     (let present = filter (\<lambda>p. is_file p fs) (make_conf_paths root) in
      if present = []
      then Inl (bail (''Failed to read '' @ join_with '' or '' (map absolute_path (make_conf_paths root))))
      else
        rbind (result_map (read_make_conf_file fs) present) (\<lambda>contents.
        Inr (fold (\<lambda>content vars. fold (\<lambda>(k, v). bm_insert k v) (parse_make_conf_vars content) vars) contents [])))"

definition initial_vars :: "string list" where
  "initial_vars = [''CFLAGS'', ''CXXFLAGS'', ''CHOST'', ''USE'', ''USE_EXPAND'', ''USE_EXPAND_UNPREFIXED'', ''USE_EXPAND_HIDDEN'',
     ''LDFLAGS'', ''MAKEOPTS'', ''FEATURES'', ''ACCEPT_LICENSE'', ''ACCEPT_KEYWORDS'', ''EMERGE_DEFAULT_OPTS'']"

definition get_effective :: "(string, string) btree_map \<Rightarrow> (string, string) btree_map option \<Rightarrow> string \<Rightarrow> string" where
  "get_effective vars initial_portageq key =
     (case initial_portageq of
        Some resolved \<Rightarrow>
          (case map_of resolved key of
             Some v \<Rightarrow> if v \<noteq> [] then v else unwrap_or [] (map_of vars key)
           | None \<Rightarrow> unwrap_or [] (map_of vars key))
      | None \<Rightarrow> unwrap_or [] (map_of vars key))"

definition resolve_raw_cflags :: "string option \<Rightarrow> string \<Rightarrow> string \<times> string option" where
  "resolve_raw_cflags march raw =
     (case march of
        None \<Rightarrow> (raw, None)
      | Some m \<Rightarrow> (case resolve_cflags raw m of (resolved, modified) \<Rightarrow> if modified then (resolved, Some raw) else (raw, None)))"

definition resolve_raw_cxxflags :: "string option \<Rightarrow> string \<Rightarrow> string" where
  "resolve_raw_cxxflags march raw =
     (case march of
        Some m \<Rightarrow> if contains_str ''-march=native'' raw then fst (resolve_cflags raw m) else raw
      | None \<Rightarrow> raw)"

definition resolve_use ::
    "client_env \<Rightarrow> bool \<Rightarrow> (string, string) btree_map option \<Rightarrow> anyhow + string option" where
  "resolve_use ce can_query_portageq initial_portageq =
     (if can_query_portageq
      then
        (case (case initial_portageq of None \<Rightarrow> None | Some resolved \<Rightarrow> map_of resolved ''USE'') of
           Some v \<Rightarrow> Inr (Some v)
         | None \<Rightarrow> rbind (portageq_envvar ce ''USE'') (\<lambda>v. Inr (Some v)))
      else Inr None)"

definition use_flags_of ::
    "(string, string) btree_map \<Rightarrow> (string, string) btree_map option \<Rightarrow> anyhow + string option \<Rightarrow> string list \<times> bool" where
  "use_flags_of vars initial_portageq resolved_use =
     (case resolved_use of
        Inr v \<Rightarrow> (strip_use_expand_flags (split_whitespace (unwrap_or [] v)) initial_portageq, True)
      | Inl _ \<Rightarrow> (split_whitespace (get_effective vars initial_portageq ''USE''), False))"

definition collect_use_expand ::
    "(string, string) btree_map \<Rightarrow> (string, string) btree_map option \<Rightarrow> (string, string) btree_map option \<Rightarrow>
     string list \<Rightarrow> (string, string list) btree_map" where
  "collect_use_expand vars initial_portageq resolved keys =
     fold (\<lambda>key out.
         if starts_with ''CPU_FLAGS_'' key then out
         else
           let vals = (case (case resolved of None \<Rightarrow> None | Some r \<Rightarrow> map_of r key) of
                 Some v \<Rightarrow> split_whitespace v
               | None \<Rightarrow> split_whitespace (get_effective vars initial_portageq key))
           in if vals \<noteq> [] then bm_insert key vals out else out)
       keys []"

definition known_keys :: "string list" where
  "known_keys = [''CFLAGS'', ''CXXFLAGS'', ''LDFLAGS'', ''MAKEOPTS'', ''USE'', ''FEATURES'', ''ACCEPT_LICENSE'',
     ''ACCEPT_KEYWORDS'', ''EMERGE_DEFAULT_OPTS'', ''CHOST'']"

text \<open>The result of a query that may fail.\<close>

definition query_ok :: "anyhow + 'a \<Rightarrow> 'a option" where
  "query_ok r = (case r of Inl _ \<Rightarrow> None | Inr v \<Rightarrow> Some v)"

definition read_make_conf :: "client_env \<Rightarrow> path \<Rightarrow> fs \<Rightarrow> anyhow + make_conf" where
  "read_make_conf ce root fs =
     rbind (read_make_conf_vars root fs) (\<lambda>vars.
     let can_query_portageq = (root = []);
         initial_portageq = (if can_query_portageq then query_ok (portageq_envvars ce initial_vars) else None);
         effective = get_effective vars initial_portageq
     in
     rbind (case resolve_native_flags ce of
         Inl e \<Rightarrow> Inl (with_context ''Failed to resolve native compiler flags'' e)
       | Inr r \<Rightarrow> Inr r) (\<lambda>resolved.
     let (cflags, original_cflags) = resolve_raw_cflags (rf_march resolved) (effective ''CFLAGS'');
         (use_flags, use_flags_resolved) =
           use_flags_of vars initial_portageq (resolve_use ce can_query_portageq initial_portageq);
         keys = find_use_expand_keys can_query_portageq initial_portageq;
         key_values = (if can_query_portageq \<and> keys \<noteq> [] then query_ok (portageq_envvars ce keys) else None)
     in Inr
       \<lparr> mc_cflags = cflags,
         mc_cxxflags = resolve_raw_cxxflags (rf_march resolved) (effective ''CXXFLAGS''),
         mc_ldflags = effective ''LDFLAGS'',
         mc_makeopts = effective ''MAKEOPTS'',
         mc_use_flags = use_flags,
         mc_features = split_whitespace (effective ''FEATURES''),
         mc_accept_license = effective ''ACCEPT_LICENSE'',
         mc_accept_keywords = effective ''ACCEPT_KEYWORDS'',
         mc_emerge_default_opts = effective ''EMERGE_DEFAULT_OPTS'',
         mc_chost = (if effective ''CHOST'' \<noteq> [] then effective ''CHOST'' else rf_chost resolved),
         mc_cpu_flags = rf_cpu_flags resolved,
         mc_original_cflags = original_cflags,
         mc_use_expand = collect_use_expand vars initial_portageq key_values keys,
         mc_extra = filter (\<lambda>(k, v). k \<notin> set known_keys \<and> k \<notin> set keys) vars,
         mc_use_flags_resolved = use_flags_resolved \<rparr>))"

section \<open>Repositories\<close>

record client_section =
  cs_name :: string
  cs_location :: string
  cs_sync_uri :: "string option"
  cs_auto_sync :: "bool option"

record client_section_state =
  ct_name :: string
  ct_location :: "string option"
  ct_sync_uri :: "string option"
  ct_auto_sync :: "bool option"
  ct_repos :: "client_section list"

definition parse_bool :: "string \<Rightarrow> bool option" where
  "parse_bool v =
     (let lower = map to_lower (trim v) in
      if lower \<in> {''yes'', ''true'', ''1''} then Some True
      else if lower \<in> {''no'', ''false'', ''0''} then Some False
      else None)"

definition flush_client_section :: "client_section_state \<Rightarrow> client_section_state" where
  "flush_client_section st =
     st\<lparr> ct_repos := ct_repos st @
           (case ct_location st of
              Some loc \<Rightarrow>
                if ct_name st \<noteq> [] \<and> \<not> eq_ignore_ascii_case (ct_name st) ''DEFAULT''
                then [\<lparr> cs_name = ct_name st, cs_location = loc, cs_sync_uri = ct_sync_uri st, cs_auto_sync = ct_auto_sync st \<rparr>]
                else []
            | None \<Rightarrow> []),
         ct_location := None, ct_sync_uri := None, ct_auto_sync := None \<rparr>"

definition client_section_line :: "string \<Rightarrow> client_section_state \<Rightarrow> client_section_state" where
  "client_section_line line st =
     (let trimmed = trim line in
      if is_section_line trimmed
      then (flush_client_section st)\<lparr> ct_name := trim (tl (butlast trimmed)) \<rparr>
      else case split_once (CHR ''='') trimmed of
          None \<Rightarrow> st
        | Some (key, v) \<Rightarrow>
            (let k = map to_lower (trim key) in
             if k = ''location'' then st\<lparr> ct_location := Some (trim v) \<rparr>
             else if k = ''sync-uri'' then (if trim v \<noteq> [] then st\<lparr> ct_sync_uri := Some (trim v) \<rparr> else st)
             else if k = ''auto-sync'' then st\<lparr> ct_auto_sync := parse_bool v \<rparr>
             else st))"

definition client_repo_sections :: "string \<Rightarrow> client_section list" where
  "client_repo_sections content =
     ct_repos (flush_client_section (fold client_section_line (str_lines content)
       \<lparr> ct_name = [], ct_location = None, ct_sync_uri = None, ct_auto_sync = None, ct_repos = [] \<rparr>))"

definition should_snapshot_repo :: "client_section \<Rightarrow> bool" where
  "should_snapshot_repo repo \<longleftrightarrow>
     \<not> eq_ignore_ascii_case (cs_name repo) ''gentoo''
     \<and> \<not> ends_with ''/gentoo'' (trim_end_matches (CHR ''/'') (cs_location repo))
     \<and> (cs_auto_sync repo = Some False \<or> cs_sync_uri repo = None)"

definition read_repo_snapshots ::
    "client_env \<Rightarrow> fs \<Rightarrow> (string, string) btree_map \<Rightarrow> (string, repo_snapshot) btree_map" where
  "read_repo_snapshots ce fs repos_conf =
     fold (\<lambda>repo snapshots.
         if \<not> should_snapshot_repo repo then snapshots
         else if fs_node (ce_follow ce (cs_location repo)) fs \<noteq> Some Dir then snapshots
         else
           let files = read_text_tree_recursive fs (ce_follow ce (cs_location repo)) in
           if files \<noteq> [] then bm_insert (cs_name repo) files snapshots else snapshots)
       (concat (map (\<lambda>(_, content). client_repo_sections content) repos_conf)) []"

definition manifest_distfile :: "string \<Rightarrow> string option" where
  "manifest_distfile line =
     (case split_whitespace line of
        word # name # _ \<Rightarrow> if word = ''DIST'' \<and> is_valid_distfile_basename name then Some name else None
      | _ \<Rightarrow> None)"

definition parse_manifest_distfiles :: "string \<Rightarrow> string list" where
  "parse_manifest_distfiles content = List.map_filter manifest_distfile (str_lines content)"

definition detect_distdir :: "client_env \<Rightarrow> path \<Rightarrow> fs \<Rightarrow> string" where
  "detect_distdir ce root fs =
     (let given = (case ce_distdir ce of None \<Rightarrow> [] | Some v \<Rightarrow> trim v) in
      if given \<noteq> [] then given
      else if fs_node (root @ [''var'', ''cache'', ''distfiles'']) fs = Some Dir
      then absolute_path (root @ [''var'', ''cache'', ''distfiles''])
      else if root \<noteq> [] then ''/var/cache/distfiles''
      else case portageq_envvar ce ''DISTDIR'' of
          Inr v \<Rightarrow> if v \<noteq> [] then v else ''/var/cache/distfiles''
        | Inl _ \<Rightarrow> ''/var/cache/distfiles'')"

text \<open>A file below a directory; a name that ends like a directory's is none.\<close>

definition read_below :: "path \<Rightarrow> string \<Rightarrow> bytes fs_action" where
  "read_below dir name =
     (case single_normal name of
        None \<Rightarrow> act_fail (os_error ENOENT)
      | Some n \<Rightarrow> if names_directory name then act_fail (os_error ENOTDIR) else fs_read (dir @ [n]))"

definition read_distfile_snapshots ::
    "client_env \<Rightarrow> path \<Rightarrow> fs \<Rightarrow> (string, repo_snapshot) btree_map \<Rightarrow> (string, bytes) btree_map" where
  "read_distfile_snapshots ce root fs repo_snapshots =
     fold (\<lambda>distfile files.
         if map_of files distfile \<noteq> None then files
         else case fst (read_below (ce_follow ce (detect_distdir ce root fs)) distfile fs) of
             Inl _ \<Rightarrow> files
           | Inr bytes \<Rightarrow> bm_insert distfile bytes files)
       (concat (map (\<lambda>(_, snapshot).
           concat (map (\<lambda>(p, content). parse_manifest_distfiles content)
             (filter (\<lambda>(p, content). ends_with ''/Manifest'' p \<or> p = ''Manifest'') snapshot))) repo_snapshots)) []"

definition compute_repo_snapshot_refs ::
    "client_env \<Rightarrow> (string, repo_snapshot) btree_map \<Rightarrow> (string, snapshot_refs) btree_map" where
  "compute_repo_snapshot_refs ce repo_snapshots =
     map (\<lambda>(repo, snapshot). (repo, map (\<lambda>(p, content). (p, ce_sha256_hex ce (string_bytes content))) snapshot)) repo_snapshots"

definition tree_digest :: "client_env \<Rightarrow> snapshot_refs \<Rightarrow> string" where
  "tree_digest ce entries = ce_sha256_hex ce (ce_enc_tree ce entries)"

definition compute_repo_snapshot_trees ::
    "client_env \<Rightarrow> (string, snapshot_refs) btree_map \<Rightarrow> (string, string) btree_map" where
  "compute_repo_snapshot_trees ce refs = map (\<lambda>(repo, entries). (repo, tree_digest ce entries)) refs"

definition compute_distfile_snapshot_refs :: "client_env \<Rightarrow> (string, bytes) btree_map \<Rightarrow> (string, string) btree_map" where
  "compute_distfile_snapshot_refs ce distfiles = map (\<lambda>(name, bytes). (name, ce_sha256_hex ce bytes)) distfiles"

definition config_locations :: "(string, string) btree_map \<Rightarrow> (string, string) btree_map" where
  "config_locations repos_conf =
     bm_of_list (map (\<lambda>repo. (cs_name repo, cs_location repo))
       (concat (map (\<lambda>(_, content). client_repo_sections content) repos_conf)))"

definition join_relative :: "path \<Rightarrow> string \<Rightarrow> path" where
  "join_relative root rel = root @ filter (\<lambda>p. p \<noteq> []) (split_on (CHR ''/'') rel)"

definition stat_entry :: "client_env \<Rightarrow> fs \<Rightarrow> path \<Rightarrow> string \<Rightarrow> anyhow + snapshot_entry" where
  "stat_entry ce fs p digest =
     (case fst (fs_metadata p fs) of
        Inl e \<Rightarrow> Inl (with_context (''Failed to stat '' @ absolute_path p) e)
      | Inr len \<Rightarrow> Inr \<lparr> se_digest = digest, se_size = len, se_mtime_secs = ce_mtime ce p \<rparr>)"

definition repo_manifest ::
    "client_env \<Rightarrow> fs \<Rightarrow> (string, string) btree_map \<Rightarrow> (string, snapshot_refs) btree_map \<Rightarrow> (string, string) btree_map \<Rightarrow>
     string \<times> repo_snapshot \<Rightarrow> anyhow + (string \<times> repo_snapshot_manifest)" where
  "repo_manifest ce fs locations all_refs trees snap =
     (case snap of (repo_name, snapshot) \<Rightarrow>
        rbind (ok_or (bail (''Missing repo snapshot refs for repo '' @ quoted repo_name)) (map_of all_refs repo_name)) (\<lambda>refs.
        rbind (ok_or (bail (''Missing repo location for repo '' @ quoted repo_name)) (map_of locations repo_name)) (\<lambda>location.
        rbind (result_map (\<lambda>(p, content).
            rbind (ok_or (bail (''Missing repo snapshot digest for '' @ quoted (repo_name @ '':'' @ p))) (map_of refs p)) (\<lambda>digest.
            rbind (stat_entry ce fs (join_relative (ce_follow ce location) p) digest) (\<lambda>e. Inr (p, e)))) snapshot) (\<lambda>entries.
        Inr (repo_name, \<lparr> rsm_tree_digest = unwrap_or [] (map_of trees repo_name), rsm_entries = bm_of_list entries \<rparr>)))))"

definition distfile_entry ::
    "client_env \<Rightarrow> fs \<Rightarrow> path \<Rightarrow> (string, string) btree_map \<Rightarrow> string \<times> bytes \<Rightarrow> anyhow + (string \<times> snapshot_entry)" where
  "distfile_entry ce fs distdir refs distfile =
     (case distfile of (filename, bytes) \<Rightarrow>
        rbind (ok_or (bail (''Missing distfile snapshot digest for '' @ quoted filename)) (map_of refs filename)) (\<lambda>digest.
        rbind (stat_entry ce fs (join_relative distdir filename) digest) (\<lambda>e.
        if se_size e \<noteq> length bytes
        then Inl (bail (''Distfile snapshot size mismatch for '' @ quoted filename @ '': captured '' @ show_nat (length bytes)
          @ '' bytes, filesystem reports '' @ show_nat (se_size e)))
        else Inr (filename, e))))"

definition build_snapshot_manifest ::
    "client_env \<Rightarrow> path \<Rightarrow> fs \<Rightarrow> (string, string) btree_map \<Rightarrow> (string, repo_snapshot) btree_map \<Rightarrow>
     (string, snapshot_refs) btree_map \<Rightarrow> (string, string) btree_map \<Rightarrow> (string, bytes) btree_map \<Rightarrow>
     (string, string) btree_map \<Rightarrow> anyhow + snapshot_manifest" where
  "build_snapshot_manifest ce root fs repos_conf repo_snapshots refs trees distfiles distfile_refs =
     rbind (result_map (repo_manifest ce fs (config_locations repos_conf) refs trees) repo_snapshots) (\<lambda>repos.
     rbind (result_map (distfile_entry ce fs (ce_follow ce (detect_distdir ce root fs)) distfile_refs) distfiles) (\<lambda>files.
     Inr (snapshot_manifest_default\<lparr> sm_repo_snapshots := bm_of_list repos, sm_distfiles := bm_of_list files \<rparr>)))"

section \<open>Package sets\<close>

text \<open>The argument bounds the depth of the recursion into parent profiles, which the code does not
  bound; None stands for a recursion that is still going.\<close>

definition system_package :: "string \<Rightarrow> string option" where
  "system_package line =
     (case strip_prefix ''*'' line of
        None \<Rightarrow> None
      | Some atom \<Rightarrow> if trim atom \<noteq> [] then Some (trim atom) else None)"

definition file_lines :: "client_env \<Rightarrow> fs \<Rightarrow> string \<Rightarrow> string list" where
  "file_lines ce fs file =
     (case fst (fs_read_to_string (ce_follow ce file) fs) of Inl _ \<Rightarrow> [] | Inr s \<Rightarrow> significant_lines s)"

fun option_concat :: "'a list option list \<Rightarrow> 'a list option" where
  "option_concat [] = Some []"
| "option_concat (None # _) = None"
| "option_concat (Some xs # os) = map_option ((@) xs) (option_concat os)"

fun read_profile_packages :: "nat \<Rightarrow> client_env \<Rightarrow> fs \<Rightarrow> string \<Rightarrow> string list option" where
  "read_profile_packages 0 ce fs profile_dir = None"
| "read_profile_packages (Suc fuel) ce fs profile_dir =
     map_option (\<lambda>atoms. atoms @ List.map_filter system_package (file_lines ce fs (join_str profile_dir ''packages'')))
       (option_concat (map (read_profile_packages fuel ce fs)
         (filter (\<lambda>parent. fs_node (ce_follow ce parent) fs = Some Dir)
           (map (join_str profile_dir) (file_lines ce fs (join_str profile_dir ''parent''))))))"

definition read_system_set :: "nat \<Rightarrow> client_env \<Rightarrow> path \<Rightarrow> fs \<Rightarrow> string list option" where
  "read_system_set fuel ce root fs =
     (case ce_profile_link ce of
        None \<Rightarrow> Some []
      | Some target \<Rightarrow> read_profile_packages fuel ce fs (join_str (absolute_path (root @ [''etc'', ''portage''])) target))"

definition expand_set :: "nat \<Rightarrow> client_env \<Rightarrow> path \<Rightarrow> fs \<Rightarrow> string \<Rightarrow> string list option" where
  "expand_set fuel ce root fs set_name =
     (if set_name = ''@world''
      then Some (if read_world root fs = [] then [set_name] else read_world root fs)
      else if set_name = ''@system''
      then map_option (\<lambda>atoms. if atoms = [] then [set_name] else atoms) (read_system_set fuel ce root fs)
      else Some [set_name])"

section \<open>The identity of the system\<close>

definition make_conf_vars_if_readable :: "path \<Rightarrow> fs \<Rightarrow> (string, string) btree_map option" where
  "make_conf_vars_if_readable root fs =
     (case fst (fs_read_to_string (root @ [''etc'', ''portage'', ''make.conf'']) fs) of
        Inl _ \<Rightarrow> None
      | Inr content \<Rightarrow> Some (parse_make_conf_vars content))"

definition detect_chost :: "client_env \<Rightarrow> path \<Rightarrow> fs \<Rightarrow> anyhow + string" where
  "detect_chost ce root fs =
     (let configured = (case make_conf_vars_if_readable root fs of None \<Rightarrow> [] | Some vars \<Rightarrow> unwrap_or [] (map_of vars ''CHOST'')) in
      if configured \<noteq> [] then Inr configured
      else case resolve_native_flags ce of
          Inl e \<Rightarrow> Inl (with_context ''Failed to detect CHOST'' e)
        | Inr r \<Rightarrow> Inr (rf_chost r))"

definition utf8_stdout :: "client_env \<Rightarrow> string \<Rightarrow> string list \<Rightarrow> string option" where
  "utf8_stdout ce program args =
     (case ce_run ce program args of Inl _ \<Rightarrow> None | Inr out \<Rightarrow> from_utf8 (po_stdout out))"

definition known_arches :: "string list" where
  "known_arches = [''amd64'', ''arm64'', ''arm'', ''x86'', ''ppc64'', ''riscv'', ''s390'']"

definition detect_arch :: "client_env \<Rightarrow> string \<Rightarrow> string" where
  "detect_arch ce profile =
     (case find (\<lambda>part. part \<in> set known_arches) (split_on (CHR ''/'') profile) of
        Some part \<Rightarrow> part
      | None \<Rightarrow>
          (case utf8_stdout ce ''uname'' [''-m''] of
             None \<Rightarrow> ''amd64''
           | Some out \<Rightarrow>
               if trim out = ''x86_64'' then ''amd64''
               else if trim out = ''aarch64'' then ''arm64''
               else trim out))"

definition first_line_of :: "client_env \<Rightarrow> string \<Rightarrow> string list \<Rightarrow> string" where
  "first_line_of ce program args =
     (case utf8_stdout ce program args of
        None \<Rightarrow> ''unknown''
      | Some out \<Rightarrow> (case str_lines out of [] \<Rightarrow> ''unknown'' | l # _ \<Rightarrow> trim l))"

definition detect_version :: "client_env \<Rightarrow> string \<Rightarrow> string" where
  "detect_version ce program = first_line_of ce program [''--version'']"

definition detect_libc_version :: "client_env \<Rightarrow> string" where
  "detect_libc_version ce = first_line_of ce ''ldd'' [''--version'']"

definition detect_kernel_version :: "client_env \<Rightarrow> string" where
  "detect_kernel_version ce = (case utf8_stdout ce ''uname'' [''-r''] of None \<Rightarrow> ''unknown'' | Some out \<Rightarrow> trim out)"

definition detect_python_targets :: "path \<Rightarrow> fs \<Rightarrow> string list" where
  "detect_python_targets root fs =
     (case make_conf_vars_if_readable root fs of
        None \<Rightarrow> []
      | Some vars \<Rightarrow> (case map_of vars ''PYTHON_TARGETS'' of None \<Rightarrow> [] | Some targets \<Rightarrow> split_whitespace targets))"

definition read_system_identity :: "client_env \<Rightarrow> path \<Rightarrow> fs \<Rightarrow> anyhow + system_identity" where
  "read_system_identity ce root fs =
     (let profile = read_profile (ce_profile_link ce) in
      rbind (detect_chost ce root fs) (\<lambda>chost.
      Inr \<lparr> si_arch = detect_arch ce profile, si_chost = chost, si_gcc_version = detect_version ce ''gcc'',
            si_libc_version = detect_libc_version ce, si_kernel_version = detect_kernel_version ce,
            si_python_targets = detect_python_targets root fs, si_profile = profile \<rparr>))"

section \<open>The whole configuration\<close>

definition read_config :: "client_env \<Rightarrow> path \<Rightarrow> fs \<Rightarrow> anyhow + portage_config" where
  "read_config ce root fs =
     rbind (read_make_conf ce root fs) (\<lambda>mc.
     let repos_conf = read_repos_conf root fs;
         repo_snapshots = read_repo_snapshots ce fs repos_conf;
         refs = compute_repo_snapshot_refs ce repo_snapshots;
         trees = compute_repo_snapshot_trees ce refs;
         distfiles = read_distfile_snapshots ce root fs repo_snapshots;
         distfile_refs = compute_distfile_snapshot_refs ce distfiles
     in
     rbind (build_snapshot_manifest ce root fs repos_conf repo_snapshots refs trees distfiles distfile_refs) (\<lambda>manifest.
     Inr \<lparr> pc_make_conf = mc,
       pc_package_use = read_package_use root fs,
       pc_package_accept_keywords = read_package_accept_keywords root fs (mc_accept_keywords mc),
       pc_package_license = read_package_license root fs,
       pc_package_mask = read_package_mask root fs,
       pc_package_unmask = read_package_unmask root fs,
       pc_package_env = read_package_env root fs,
       pc_env_files = read_env_files root fs,
       pc_repos_conf = repos_conf,
       pc_snapshot_manifest = manifest,
       pc_repo_snapshots = repo_snapshots,
       pc_repo_snapshot_refs = refs,
       pc_repo_snapshot_trees = trees,
       pc_patches = read_patches root fs,
       pc_profile_overlay = read_profile_overlay root fs,
       pc_distfile_snapshots = distfiles,
       pc_distfile_snapshot_refs = distfile_refs,
       pc_profile = read_profile (ce_profile_link ce),
       pc_world = read_world root fs \<rparr>))"

section \<open>The native architecture is resolved\<close>

lemma map_fixed_iff: "map f xs = xs \<longleftrightarrow> (\<forall>x \<in> set xs. f x = x)"
  by (induction xs) auto

lemma resolve_token_word: "is_word token \<Longrightarrow> is_word m \<Longrightarrow> is_word (resolve_token m token)"
  by (auto simp: resolve_token_def is_word_def is_whitespace_def)

lemma resolved_cflags_words:
  assumes "is_word m"
  shows "split_whitespace (fst (resolve_cflags cflags m)) = map (resolve_token m) (split_whitespace cflags)"
  unfolding resolve_cflags_def fst_conv
  by (rule split_whitespace_join) (use split_whitespace_words [of cflags] assms in \<open>auto simp: list_all_iff resolve_token_word\<close>)

text \<open>No compiler flag that the client sends asks the worker for its own native architecture: where
  the client's architecture is known, both native flags name it instead, every other flag stays as it is,
  and the original flags are kept exactly when something changed.\<close>

theorem native_flags_resolved:
  assumes "is_word m" and "m \<noteq> ''native''" and "resolve_raw_cflags (Some m) raw = (cflags, original)"
  shows "''-march=native'' \<notin> set (split_whitespace cflags) \<and> ''-mtune=native'' \<notin> set (split_whitespace cflags)
    \<and> split_whitespace cflags = map (resolve_token m) (split_whitespace raw)
    \<and> (original = None \<longleftrightarrow> split_whitespace cflags = split_whitespace raw)"
proof -
  let ?native = "\<lambda>token. token = ''-march=native'' \<or> token = ''-mtune=native''"
  have changed: "resolve_token m token = token \<longleftrightarrow> \<not> ?native token" for token
    using assms(2) by (auto simp: resolve_token_def)
  have clean: "\<not> ?native (resolve_token m token)" for token
    using assms(2) by (auto simp: resolve_token_def)
  have words: "split_whitespace cflags = map (resolve_token m) (split_whitespace raw)"
  proof (cases "snd (resolve_cflags raw m)")
    case True
    then show ?thesis
      using assms(3) resolved_cflags_words [OF assms(1), of raw] by (simp add: resolve_raw_cflags_def split: prod.splits)
  next
    case False
    then have "\<forall>token \<in> set (split_whitespace raw). resolve_token m token = token"
      unfolding changed by (auto simp: resolve_cflags_def list_ex_iff)
    with False show ?thesis
      using assms(3) by (simp add: resolve_raw_cflags_def map_idI split: prod.splits)
  qed
  have "original = None \<longleftrightarrow> (\<forall>token \<in> set (split_whitespace raw). \<not> ?native token)"
    using assms(3) by (auto simp: resolve_raw_cflags_def resolve_cflags_def list_ex_iff split: if_splits)
  also have "\<dots> \<longleftrightarrow> split_whitespace cflags = split_whitespace raw"
    unfolding words map_fixed_iff changed ..
  finally have original: "original = None \<longleftrightarrow> split_whitespace cflags = split_whitespace raw" .
  have "''-march=native'' \<notin> set (split_whitespace cflags)" and "''-mtune=native'' \<notin> set (split_whitespace cflags)"
    unfolding words set_map using clean by fastforce+
  then show ?thesis
    using original words by (intro conjI)
qed

theorem native_flags_resolved_witness:
  "resolve_raw_cflags (Some ''znver3'') ''-O2 -march=native'' = (''-O2 -march=znver3'', Some ''-O2 -march=native'')
   \<and> ''-march=native'' \<notin> set (split_whitespace ''-O2 -march=znver3'')"
proof -
  have "is_word ''znver3''" and "''znver3'' \<noteq> ''native''"
    and r: "resolve_raw_cflags (Some ''znver3'') ''-O2 -march=native'' = (''-O2 -march=znver3'', Some ''-O2 -march=native'')"
    by code_simp+
  from native_flags_resolved [OF this] r show ?thesis
    by blast
qed

section \<open>A root other than the system's\<close>

text \<open>With a root other than the system's own, the USE flags of make.conf are lost: whatever the
  file sets, the configuration has no USE flags, and is marked as completely resolved.\<close>

theorem other_root_loses_use_flags:
  assumes "root \<noteq> []" and "read_make_conf ce root fs = Inr mc"
  shows "mc_use_flags mc = [] \<and> mc_use_flags_resolved mc"
  using assms(2)
  by (clarsimp simp: read_make_conf_def assms(1) rbind_Inr_iff Let_def case_prod_beta resolve_use_def use_flags_of_def
      strip_use_expand_flags_def)

definition sample_client_env :: client_env where
  "sample_client_env =
     \<lparr> ce_run = (\<lambda>program args. Inr \<lparr> po_success = True, po_status = ''exit status: 0'',
         po_stdout = string_bytes ''x86_64-pc-linux-gnu'', po_stderr = [] \<rparr>),
       ce_lossy = (\<lambda>bs. map (\<lambda>b. char_of (unat b)) bs), ce_sha256_hex = (\<lambda>bs. show_nat (length bs)),
       ce_enc_tree = (\<lambda>refs. []), ce_mtime = (\<lambda>_. 0), ce_follow = (\<lambda>_. []), ce_distdir = None, ce_profile_link = None \<rparr>"

definition sample_root_fs :: fs where
  "sample_root_fs =
     \<lparr> fs_tree = [([''r''], Dir), ([''r'', ''etc''], Dir), ([''r'', ''etc'', ''make.conf''], File 0)],
       fs_inodes = [(0, string_bytes (''USE='' @ [double_quote] @ ''dbus'' @ [double_quote, newline]))], fs_next = 1 \<rparr>"

theorem other_root_loses_use_flags_witness:
  "\<exists>mc. read_make_conf sample_client_env [''r''] sample_root_fs = Inr mc
     \<and> read_make_conf_vars [''r''] sample_root_fs = Inr [(''USE'', ''dbus'')] \<and> mc_use_flags mc = []"
proof -
  have "is_ok (read_make_conf sample_client_env [''r''] sample_root_fs)"
    and vars: "read_make_conf_vars [''r''] sample_root_fs = Inr [(''USE'', ''dbus'')]"
    by code_simp+
  then obtain mc where mc: "read_make_conf sample_client_env [''r''] sample_root_fs = Inr mc"
    by (cases "read_make_conf sample_client_env [''r''] sample_root_fs") simp_all
  then show ?thesis
    using other_root_loses_use_flags [OF _ mc] vars by simp
qed

section \<open>Parent profiles\<close>

definition parent_profiles :: "client_env \<Rightarrow> fs \<Rightarrow> string \<Rightarrow> string list" where
  "parent_profiles ce fs profile_dir =
     filter (\<lambda>parent. fs_node (ce_follow ce parent) fs = Some Dir)
       (map (join_str profile_dir) (file_lines ce fs (join_str profile_dir ''parent'')))"

lemma option_concat_None: "None \<in> set os \<Longrightarrow> option_concat os = None"
  by (induction os rule: option_concat.induct) auto

lemma option_concat_Some: "\<forall>x \<in> set os. x \<noteq> None \<Longrightarrow> option_concat os \<noteq> None"
  by (induction os rule: option_concat.induct) auto

text \<open>Where every profile has a parent among the same profiles, the recursion never ends.\<close>

lemma cyclic_profiles_diverge:
  assumes "\<And>d. d \<in> D \<Longrightarrow> set (parent_profiles ce fs d) \<inter> D \<noteq> {}"
  shows "d \<in> D \<Longrightarrow> read_profile_packages fuel ce fs d = None"
proof (induction fuel arbitrary: d)
  case (Suc fuel)
  then obtain p where "p \<in> set (parent_profiles ce fs d)" and "p \<in> D"
    using assms by blast
  then have "None \<in> set (map (read_profile_packages fuel ce fs) (parent_profiles ce fs d))"
    using Suc.IH by (force simp: image_iff)
  from option_concat_None [OF this] show ?case
    by (simp add: parent_profiles_def)
qed simp

text \<open>Where the parents have a smaller rank, as many turns as the rank are enough.\<close>

lemma ranked_profiles_terminate:
  assumes "\<And>d p. p \<in> set (parent_profiles ce fs d) \<Longrightarrow> rank p < (rank d :: nat)"
  shows "rank d < fuel \<Longrightarrow> \<exists>atoms. read_profile_packages fuel ce fs d = Some atoms"
proof (induction fuel arbitrary: d)
  case (Suc fuel)
  have "\<forall>x \<in> set (map (read_profile_packages fuel ce fs) (parent_profiles ce fs d)). x \<noteq> None"
    using Suc assms by fastforce
  from option_concat_Some [OF this] show ?case
    by (auto simp: parent_profiles_def)
qed simp

end
