(* ===== verification/Portage_Roundtrip.thy ===== *)
theory Portage_Roundtrip
  imports Cli_Config
begin

text \<open>The client reads a configuration and the worker writes it again.  What the worker writes, read with
  the client's own parsers, gives what the client read: the files of one line per package, and
  \<open>make.conf\<close>.  The two parsers of \<open>repos.conf\<close> agree but for white space inside the brackets of a
  section's name.\<close>

section \<open>Files of one line per entry\<close>

text \<open>A printer of lines and a parser of them.  Entries that are \<open>ok\<close> come back, and the parser only
  gives entries that are \<open>ok\<close>.\<close>

locale line_format =
  fixes text_of :: "'e \<Rightarrow> string"
    and parser :: "string \<Rightarrow> 'e option"
    and ok :: "'e \<Rightarrow> bool"
  assumes one_line: "ok e \<Longrightarrow> newline \<notin> set (text_of e)"
    and first_word: "ok e \<Longrightarrow> \<exists>w s. text_of e = w @ s \<and> is_word w \<and> \<not> starts_with ''#'' w"
    and parses: "ok e \<Longrightarrow> parser (trim (text_of e)) = Some e"
    and sound: "parser line = Some e \<Longrightarrow> line \<noteq> [] \<Longrightarrow> trim line = line \<Longrightarrow> \<not> starts_with ''#'' line \<Longrightarrow> ok e"
begin

lemma significant_text:
  assumes "ok e"
  shows "trim (text_of e) \<noteq> [] \<and> \<not> starts_with ''#'' (trim (text_of e))"
proof -
  obtain w s where shape: "text_of e = w @ s" and w: "is_word w" "\<not> starts_with ''#'' w"
    using first_word [OF assms] by (elim exE conjE) (rule that)
  obtain c cs where "w = c # cs" and "\<not> is_whitespace c" and "c \<noteq> CHR ''#''"
    using w by (cases w) (auto simp: is_word_def starts_with_def)
  then show ?thesis
    by (simp add: shape trim_Cons starts_with_def)
qed

lemma parse_printed:
  assumes "list_all ok es"
  shows "parse_lines parser (concat (map (\<lambda>e. text_of e @ [newline]) es)) = es"
proof -
  have "map trim (str_lines (concat (map (\<lambda>l. l @ [newline]) (map text_of es)))) = map trim (map text_of es)"
    by (rule trimmed_lines_concat) (use assms one_line in \<open>auto simp: list_all_iff\<close>)
  then have "significant_lines (concat (map (\<lambda>e. text_of e @ [newline]) es)) = map trim (map text_of es)"
    using assms significant_text by (simp add: significant_lines_def comp_def list_all_iff filter_id_conv)
  moreover have "List.map_filter parser (map trim (map text_of es)) = es"
    using assms parses by (induction es) (simp_all add: List.map_filter_simps)
  ultimately show ?thesis
    by (simp add: parse_lines_def)
qed

lemma parsed_ok: "list_all ok (parse_lines parser content)"
  using sound by (auto simp: parse_lines_def significant_lines_def list_all_iff List.map_filter_def)

lemma reparse: "parse_lines parser (concat (map (\<lambda>e. text_of e @ [newline]) (parse_lines parser content)))
    = parse_lines parser content"
  by (rule parse_printed) (rule parsed_ok)

end

text \<open>A line of words.\<close>

definition plain_atom :: "string \<Rightarrow> bool" where
  "plain_atom atom \<longleftrightarrow> is_word atom \<and> \<not> starts_with ''#'' atom"

lemma word_no_newline: "is_word w \<Longrightarrow> newline \<notin> set w"
  by (auto simp: is_word_def list_all_iff)

lemma words_line:
  assumes "is_word atom" and "list_all is_word ws"
  shows "newline \<notin> set (atom @ '' '' @ join_with '' '' ws)"
    and "split_whitespace (trim (atom @ '' '' @ join_with '' '' ws)) = atom # ws"
proof -
  have space: "newline \<noteq> CHR '' ''"
    by (simp add: newline_def)
  have "newline \<notin> set (join_with '' '' ws)"
    using assms(2) by (induction "'' ''" ws rule: join_with.induct) (auto simp: word_no_newline space)
  then show "newline \<notin> set (atom @ '' '' @ join_with '' '' ws)"
    using word_no_newline [OF assms(1)] space by simp
  show "split_whitespace (trim (atom @ '' '' @ join_with '' '' ws)) = atom # ws"
    using split_whitespace_Cons_word [OF assms(1), of "CHR '' ''"] split_whitespace_join [OF assms(2)] by simp
qed

lemma first_atom: "plain_atom atom \<Longrightarrow> \<exists>w s. atom @ t = w @ s \<and> is_word w \<and> \<not> starts_with ''#'' w"
  unfolding plain_atom_def by (intro exI conjI) (rule refl, simp_all)

lemma first_split_word:
  assumes "split_whitespace line = atom # ws" and "line \<noteq> []" and "trim line = line" and "\<not> starts_with ''#'' line"
  shows "plain_atom atom" and "list_all is_word ws"
proof -
  have words: "list_all is_word (atom # ws)"
    using split_whitespace_words [of line] assms(1) by simp
  then show "list_all is_word ws"
    by simp
  obtain c cs where line: "line = c # cs"
    using assms(2) by (cases line) auto
  have c: "\<not> is_whitespace c" "c \<noteq> CHR ''#''"
    using assms(3,4) by (auto simp: trim_fixed_iff line starts_with_def)
  have "hd atom = c"
  proof -
    have "split_ws_acc (rev p) s = w # us \<Longrightarrow> p \<noteq> [] \<Longrightarrow> take (length p) w = p" for p s w us
    proof (induction "rev p" s arbitrary: p rule: split_ws_acc.induct)
      case (2 d ds)
      show ?case
      proof (cases "is_whitespace d")
        case False
        then show ?thesis
          using 2(3) [of "p @ [d]"] 2(4,5) by (auto dest: arg_cong [of _ _ "take (length p)"])
      qed (use 2 in auto)
    qed (auto split: if_splits)
    from this [of "[c]" cs atom ws] show ?thesis
      using assms(1) c by (cases atom) (auto simp: split_whitespace_def line)
  qed
  then show "plain_atom atom"
    using words c by (cases atom) (auto simp: plain_atom_def is_word_def starts_with_def)
qed

definition ok_use :: "package_use_entry \<Rightarrow> bool" where
  "ok_use e \<longleftrightarrow> plain_atom (pu_atom e) \<and> list_all is_word (pu_flags e) \<and> pu_flags e \<noteq> []"

interpretation use_format: line_format
  "\<lambda>e. pu_atom e @ '' '' @ join_with '' '' (pu_flags e)" use_line ok_use
proof
  fix e line
  assume ok: "ok_use e"
  then have w: "is_word (pu_atom e)" "list_all is_word (pu_flags e)" and p: "plain_atom (pu_atom e)"
    by (simp_all add: ok_use_def plain_atom_def)
  show "newline \<notin> set (pu_atom e @ '' '' @ join_with '' '' (pu_flags e))"
    by (rule words_line(1) [OF w])
  show "\<exists>w s. pu_atom e @ '' '' @ join_with '' '' (pu_flags e) = w @ s \<and> is_word w \<and> \<not> starts_with ''#'' w"
    by (rule first_atom [OF p])
  show "use_line (trim (pu_atom e @ '' '' @ join_with '' '' (pu_flags e))) = Some e"
    using ok unfolding use_line_def words_line(2) [OF w] by (cases "pu_flags e") (simp_all add: ok_use_def)
next
  fix e line
  assume "use_line line = Some e" and l: "line \<noteq> []" "trim line = line" "\<not> starts_with ''#'' line"
  then obtain ws where "split_whitespace line = pu_atom e # ws" and "pu_flags e = ws" and "ws \<noteq> []"
    by (auto simp: use_line_def split: list.splits)
  then show "ok_use e"
    using first_split_word [OF _ l] by (auto simp: ok_use_def)
qed

definition ok_keywords :: "string \<Rightarrow> package_keyword_entry \<Rightarrow> bool" where
  "ok_keywords defaults e \<longleftrightarrow> plain_atom (pk_atom e) \<and> list_all is_word (pk_keywords e)
     \<and> (pk_keywords e = [] \<longrightarrow> empty_accept_keywords_defaults defaults = [])"

lemma default_keywords_words: "list_all is_word (empty_accept_keywords_defaults defaults)"
  using split_whitespace_words [of defaults]
  by (auto simp: empty_accept_keywords_defaults_def list_all_iff is_word_def is_whitespace_def)

interpretation keyword_format: line_format
  "\<lambda>e. pk_atom e @ '' '' @ join_with '' '' (pk_keywords e)"
  "keyword_line (empty_accept_keywords_defaults defaults)" "ok_keywords defaults" for defaults
proof
  fix e line
  assume ok: "ok_keywords defaults e"
  then have w: "is_word (pk_atom e)" "list_all is_word (pk_keywords e)" and p: "plain_atom (pk_atom e)"
    by (simp_all add: ok_keywords_def plain_atom_def)
  show "newline \<notin> set (pk_atom e @ '' '' @ join_with '' '' (pk_keywords e))"
    by (rule words_line(1) [OF w])
  show "\<exists>w s. pk_atom e @ '' '' @ join_with '' '' (pk_keywords e) = w @ s \<and> is_word w \<and> \<not> starts_with ''#'' w"
    by (rule first_atom [OF p])
  show "keyword_line (empty_accept_keywords_defaults defaults)
      (trim (pk_atom e @ '' '' @ join_with '' '' (pk_keywords e))) = Some e"
    using ok unfolding keyword_line_def words_line(2) [OF w] by (auto simp: ok_keywords_def)
next
  fix e line
  assume "keyword_line (empty_accept_keywords_defaults defaults) line = Some e"
    and l: "line \<noteq> []" "trim line = line" "\<not> starts_with ''#'' line"
  then obtain ws where "split_whitespace line = pk_atom e # ws"
    and "pk_keywords e = (if ws \<noteq> [] then ws else empty_accept_keywords_defaults defaults)"
    by (auto simp: keyword_line_def split: list.splits)
  then show "ok_keywords defaults e"
    using first_split_word [OF _ l] default_keywords_words [of defaults] by (auto simp: ok_keywords_def)
qed

definition ok_license :: "package_license_entry \<Rightarrow> bool" where
  "ok_license e \<longleftrightarrow> plain_atom (pl_atom e) \<and> list_all is_word (pl_licenses e) \<and> pl_licenses e \<noteq> []"

interpretation license_format: line_format
  "\<lambda>e. pl_atom e @ '' '' @ join_with '' '' (pl_licenses e)" license_line ok_license
proof
  fix e line
  assume ok: "ok_license e"
  then have w: "is_word (pl_atom e)" "list_all is_word (pl_licenses e)" and p: "plain_atom (pl_atom e)"
    by (simp_all add: ok_license_def plain_atom_def)
  show "newline \<notin> set (pl_atom e @ '' '' @ join_with '' '' (pl_licenses e))"
    by (rule words_line(1) [OF w])
  show "\<exists>w s. pl_atom e @ '' '' @ join_with '' '' (pl_licenses e) = w @ s \<and> is_word w \<and> \<not> starts_with ''#'' w"
    by (rule first_atom [OF p])
  show "license_line (trim (pl_atom e @ '' '' @ join_with '' '' (pl_licenses e))) = Some e"
    using ok unfolding license_line_def words_line(2) [OF w] by (cases "pl_licenses e") (simp_all add: ok_license_def)
next
  fix e line
  assume "license_line line = Some e" and l: "line \<noteq> []" "trim line = line" "\<not> starts_with ''#'' line"
  then obtain ws where "split_whitespace line = pl_atom e # ws" and "pl_licenses e = ws" and "ws \<noteq> []"
    by (auto simp: license_line_def split: list.splits)
  then show "ok_license e"
    using first_split_word [OF _ l] by (auto simp: ok_license_def)
qed

interpretation atom_format: line_format "\<lambda>atom. atom" atom_line plain_atom
proof
  fix atom line
  assume p: "plain_atom atom"
  then have w: "is_word atom"
    by (simp add: plain_atom_def)
  show "newline \<notin> set atom"
    by (rule word_no_newline [OF w])
  show "\<exists>w s. atom = w @ s \<and> is_word w \<and> \<not> starts_with ''#'' w"
    using first_atom [OF p, of "[]"] by simp
  show "atom_line (trim atom) = Some atom"
    using w unfolding atom_line_def split_whitespace_trim split_whitespace_word [OF w] by (simp add: is_word_def)
next
  fix atom line
  assume "atom_line line = Some atom" and l: "line \<noteq> []" "trim line = line" "\<not> starts_with ''#'' line"
  then obtain ws where "split_whitespace line = atom # ws"
    by (auto simp: atom_line_def split: list.splits if_splits)
  then show "plain_atom atom"
    by (rule first_split_word(1) [OF _ l])
qed

definition ok_env :: "package_env_entry \<Rightarrow> bool" where
  "ok_env e \<longleftrightarrow> plain_atom (pe_atom e) \<and> is_word (pe_env_file e)"

interpretation env_format: line_format "\<lambda>e. pe_atom e @ '' '' @ pe_env_file e" env_line ok_env
proof
  fix e line
  assume ok: "ok_env e"
  then have w: "is_word (pe_atom e)" "list_all is_word [pe_env_file e]" and p: "plain_atom (pe_atom e)"
    by (simp_all add: ok_env_def plain_atom_def)
  show "newline \<notin> set (pe_atom e @ '' '' @ pe_env_file e)"
    using words_line(1) [OF w] by simp
  show "\<exists>w s. pe_atom e @ '' '' @ pe_env_file e = w @ s \<and> is_word w \<and> \<not> starts_with ''#'' w"
    by (rule first_atom [OF p])
  have "split_whitespace (trim (pe_atom e @ '' '' @ pe_env_file e)) = [pe_atom e, pe_env_file e]"
    using words_line(2) [OF w] by simp
  then show "env_line (trim (pe_atom e @ '' '' @ pe_env_file e)) = Some e"
    unfolding env_line_def by simp
next
  fix e line
  assume "env_line line = Some e" and l: "line \<noteq> []" "trim line = line" "\<not> starts_with ''#'' line"
  then obtain ws where "split_whitespace line = pe_atom e # pe_env_file e # ws"
    by (auto simp: env_line_def split: list.splits)
  then show "ok_env e"
    using first_split_word [OF _ l] by (auto simp: ok_env_def)
qed

lemmas content_defs =
  package_use_content_def package_accept_keywords_content_def package_license_content_def atom_lines_def
  package_env_content_def package_line_def

text \<open>C24: whatever the client's files of package settings contain, the files that the worker writes from
  what the client read in them are read back as the same entries: the USE flags, keywords (the implied
  ones included), licenses and masks of every package, and its environment files but for those whose
  names the worker refuses.\<close>

theorem package_files_roundtrip:
  "parse_lines use_line (package_use_content (parse_lines use_line content)) = parse_lines use_line content
   \<and> parse_lines (keyword_line (empty_accept_keywords_defaults defaults))
       (package_accept_keywords_content (parse_lines (keyword_line (empty_accept_keywords_defaults defaults)) content))
     = parse_lines (keyword_line (empty_accept_keywords_defaults defaults)) content
   \<and> parse_lines license_line (package_license_content (parse_lines license_line content)) = parse_lines license_line content
   \<and> parse_lines atom_line (atom_lines (parse_lines atom_line content)) = parse_lines atom_line content
   \<and> parse_lines env_line (package_env_content (parse_lines env_line content))
     = filter (\<lambda>e. valid_file_name (pe_env_file e)) (parse_lines env_line content)"
proof -
  have "list_all ok_env (filter (\<lambda>e. valid_file_name (pe_env_file e)) (parse_lines env_line content))"
    using env_format.parsed_ok [of content] by (simp add: list_all_iff)
  from env_format.parse_printed [OF this] show ?thesis
    using use_format.reparse [of content] keyword_format.reparse [of defaults content]
      license_format.reparse [of content] atom_format.reparse [of content]
    by (simp add: content_defs)
qed

section \<open>make.conf\<close>

definition var_name :: "string \<Rightarrow> bool" where
  "var_name key \<longleftrightarrow> (case key of [] \<Rightarrow> False | c # cs \<Rightarrow> is_var_start c \<and> list_all is_var_char cs)"

definition plain_value :: "string \<Rightarrow> bool" where
  "plain_value v \<longleftrightarrow> double_quote \<notin> set v \<and> backslash \<notin> set v"

lemma parse_vars_blank: "is_whitespace c \<Longrightarrow> parse_vars vars (c # s) = parse_vars vars s"
  by (subst (1 2) parse_vars.simps) simp

lemma skip_line_comment: "newline \<notin> set s \<Longrightarrow> skip_line (s @ newline # rest) = newline # rest"
  by (simp add: skip_line_def dropWhile_append)

lemma parse_vars_comment:
  assumes "newline \<notin> set s"
  shows "parse_vars vars (CHR ''#'' # s @ newline # rest) = parse_vars vars rest"
proof -
  have "dropWhile is_whitespace (CHR ''#'' # s @ newline # rest) = CHR ''#'' # s @ newline # rest"
    by (simp add: is_whitespace_def)
  then have "parse_vars vars (CHR ''#'' # s @ newline # rest) = parse_vars vars (skip_line (s @ newline # rest))"
    by (subst parse_vars.simps) simp
  then show ?thesis
    by (simp add: skip_line_comment [OF assms] parse_vars_blank)
qed

lemma quoted_plain:
  assumes "plain_value v"
  shows "quoted_value double_quote (v @ double_quote # rest) = (v, rest, True)"
  using assms
proof (induction v)
  case Nil
  then show ?case
    by (cases rest) simp_all
next
  case (Cons c cs)
  then have c: "c \<noteq> double_quote" "c \<noteq> backslash" and cs: "plain_value cs"
    by (auto simp: plain_value_def)
  obtain d ds where next_char: "cs @ double_quote # rest = d # ds"
    by (cases "cs @ double_quote # rest") auto
  have "quoted_value double_quote ((c # cs) @ double_quote # rest) = quoted_value double_quote (c # d # ds)"
    by (simp add: next_char)
  also have "\<dots> = (case quoted_value double_quote (d # ds) of (v, r, t) \<Rightarrow> (c # v, r, t))"
    using c by simp
  finally show ?case
    using Cons.IH [OF cs] by (simp add: next_char)
qed

lemma parse_vars_assignment:
  assumes "var_name key" and "plain_value v"
  shows "parse_vars vars (assignment key v @ rest) = parse_vars (bm_insert key v vars) rest"
proof -
  obtain c cs where key: "key = c # cs" and c: "is_var_start c" and cs: "list_all is_var_char cs"
    using assms(1) by (auto simp: var_name_def split: list.splits)
  let ?rest = "CHR ''='' # double_quote # v @ double_quote # newline # rest"
  have c': "\<not> is_whitespace c" "c \<noteq> CHR ''#''"
    using c by (auto simp: is_var_start_def char_class_defs)
  have eq: "\<not> is_var_char CHR ''=''" "\<not> is_whitespace CHR ''=''" "\<not> is_whitespace double_quote"
    by (simp_all add: is_var_char_def char_class_defs double_quote_def)
  have words: "takeWhile is_var_char (cs @ ?rest) = cs" "dropWhile is_var_char (cs @ ?rest) = ?rest"
    using cs eq(1) by (simp_all add: takeWhile_append dropWhile_append list_all_iff)
  have blanks: "skip_blanks ?rest = ?rest"
    "skip_blanks (double_quote # v @ double_quote # newline # rest) = double_quote # v @ double_quote # newline # rest"
    "skip_blanks (newline # rest) = newline # rest" "skip_comment (newline # rest) = newline # rest"
    using eq by (simp_all add: skip_blanks_def skip_comment_def) (simp add: newline_def)
  have "read_value (double_quote # v @ double_quote # newline # rest) = (v, newline # rest)"
    by (simp add: read_value_def quoted_plain [OF assms(2)])
  then have "parse_vars vars (key @ ?rest) = parse_vars (bm_insert key v vars) (newline # rest)"
    using c c' by (subst parse_vars.simps) (simp add: key words blanks)
  then show ?thesis
    by (simp add: assignment_def parse_vars_blank)
qed

lemma parse_vars_assignments:
  assumes "list_all (\<lambda>(k, v). var_name k \<and> plain_value v) kvs"
  shows "parse_vars vars (concat (map (\<lambda>(k, v). assignment k v) kvs) @ rest)
    = parse_vars (fold (\<lambda>(k, v). bm_insert k v) kvs vars) rest"
  using assms by (induction kvs arbitrary: vars) (auto simp: parse_vars_assignment)

text \<open>The settings a worker's \<open>make.conf\<close> stands for, in its order.\<close>

definition target_settings :: "make_conf \<Rightarrow> string \<Rightarrow> (string \<times> string) list" where
  "target_settings mc worker_chost =
     (''CHOST'', mc_chost mc) # (if arch_of (mc_chost mc) \<noteq> arch_of worker_chost then [(''CBUILD'', worker_chost)] else [])"

definition build_settings :: "worker_env \<Rightarrow> make_conf \<Rightarrow> bool \<Rightarrow> (string \<times> string) list" where
  "build_settings we mc signing =
     [(''CFLAGS'', mc_cflags mc), (''CXXFLAGS'', mc_cxxflags mc), (''LDFLAGS'', mc_ldflags mc),
      (''MAKEOPTS'', build_makeopts_inner (mc_makeopts mc) (we_parallel_jobs we) (we_load_average we))]
     @ (if mc_use_flags mc = [] then []
        else [(''USE'', (if mc_use_flags_resolved mc then ''-* '' else []) @ join_with '' '' (mc_use_flags mc))])
     @ [(''ACCEPT_LICENSE'', mc_accept_license mc), (''ACCEPT_KEYWORDS'', mc_accept_keywords mc),
        (''FEATURES'', join_with '' '' (make_features (mc_features mc) signing))]
     @ (if mc_emerge_default_opts mc = [] then [] else [(''EMERGE_DEFAULT_OPTS'', mc_emerge_default_opts mc)])
     @ (case mc_cpu_flags mc of None \<Rightarrow> [] | Some (var, flags) \<Rightarrow> [(var, join_with '' '' flags)])
     @ map (\<lambda>(key, vals). (key, join_with '' '' vals)) (mc_use_expand mc)
     @ filter (\<lambda>(key, v). valid_extra_key key \<and> safe_extra_value v) (mc_extra mc)"

definition signing_settings :: "string option \<Rightarrow> string option \<Rightarrow> (string \<times> string) list" where
  "signing_settings gpg_key gpg_home =
     (case (gpg_key, gpg_home) of
        (Some key, Some home) \<Rightarrow>
          [(''BINPKG_FORMAT'', ''gpkg''), (''BINPKG_GPG_SIGNING_KEY'', key), (''BINPKG_GPG_SIGNING_GPG_HOME'', home)]
      | _ \<Rightarrow> [])"

definition make_conf_settings ::
    "worker_env \<Rightarrow> make_conf \<Rightarrow> string \<Rightarrow> string option \<Rightarrow> string option \<Rightarrow> (string \<times> string) list" where
  "make_conf_settings we mc worker_chost gpg_key gpg_home =
     target_settings mc worker_chost @ build_settings we mc (gpg_key \<noteq> None \<and> gpg_home \<noteq> None)
     @ [(''PKGDIR'', ''/var/cache/binpkgs'')] @ signing_settings gpg_key gpg_home"

definition printed :: "(string \<times> string) list \<Rightarrow> string" where
  "printed kvs = concat (map (\<lambda>(k, v). assignment k v) kvs)"

lemma printed_simps [simp]:
  "printed [] = []"
  "printed ((k, v) # kvs) = assignment k v @ printed kvs"
  "printed (kvs @ kvs') = printed kvs @ printed kvs'"
  by (simp_all add: printed_def)

lemma printed_expand: "concat (map (\<lambda>(key, vals). assignment key (join_with '' '' vals)) m)
    = printed (map (\<lambda>(key, vals). (key, join_with '' '' vals)) m)"
  by (induction m) auto

lemma printed_extra: "extra_lines m = printed (filter (\<lambda>(key, v). valid_extra_key key \<and> safe_extra_value v) m)"
  by (induction m) (auto simp: extra_lines_def split: if_splits)

definition pkgdir_comment :: string where
  "pkgdir_comment = '' remerge: output directory for binpkgs''"

definition signing_comment :: string where
  "signing_comment = '' Binary package OpenPGP signing (injected by remerge-server)''"

definition header_comment :: string where
  "header_comment = '' Generated by remerge-worker '' @ [CHR 0xE2, CHR 0x80, CHR 0x94] @ '' do not edit.''"

lemma make_conf_layout:
  "make_conf_content we mc worker_chost gpg_key gpg_home =
     CHR ''#'' # header_comment @ newline # newline # printed (target_settings mc worker_chost)
     @ newline # printed (build_settings we mc (gpg_key \<noteq> None \<and> gpg_home \<noteq> None))
     @ newline # CHR ''#'' # pkgdir_comment @ newline # printed [(''PKGDIR'', ''/var/cache/binpkgs'')]
     @ (if gpg_key \<noteq> None \<and> gpg_home \<noteq> None then newline # CHR ''#'' # signing_comment @ [newline] else [])
     @ printed (signing_settings gpg_key gpg_home)"
  unfolding make_conf_content_def make_conf_header_def header_comment_def pkgdir_comment_def signing_comment_def
    target_settings_def build_settings_def signing_settings_def printed_extra printed_expand
  by (simp split: option.splits prod.splits)

lemma comments_one_line:
  "newline \<notin> set header_comment" "newline \<notin> set pkgdir_comment" "newline \<notin> set signing_comment"
  by (simp_all add: header_comment_def pkgdir_comment_def signing_comment_def newline_def)

definition plain_settings :: "(string \<times> string) list \<Rightarrow> bool" where
  "plain_settings kvs \<longleftrightarrow> list_all (\<lambda>(k, v). var_name k \<and> plain_value v) kvs"

definition insert_settings :: "(string \<times> string) list \<Rightarrow> (string, string) btree_map \<Rightarrow> (string, string) btree_map" where
  "insert_settings kvs vars = fold (\<lambda>(k, v). bm_insert k v) kvs vars"

lemma parse_vars_printed:
  "plain_settings kvs \<Longrightarrow> parse_vars vars (printed kvs @ rest) = parse_vars (insert_settings kvs vars) rest"
  by (simp add: printed_def plain_settings_def insert_settings_def parse_vars_assignments)

lemma parse_vars_Nil: "parse_vars vars [] = vars"
  by (subst parse_vars.simps) simp


definition sample_make_conf :: make_conf where
  "sample_make_conf = make_conf_default\<lparr> mc_use_flags := [''dbus'', ''-X''], mc_use_flags_resolved := True,
     mc_extra := [(''BAD KEY'', ''x''), (''PORTDIR'', ''/var/db/repos/gentoo'')] \<rparr>"

definition sample_setup_env :: worker_env where
  "sample_setup_env = \<lparr> we_parallel_jobs = Some ''8'', we_load_average = None, we_skip_sync = True \<rparr>"


section \<open>The two parsers of repos.conf\<close>

text \<open>What the client makes of the worker's sections.\<close>

definition client_view :: "(string \<times> string) list \<Rightarrow> (string \<times> string) list" where
  "client_view sections =
     filter (\<lambda>(n, l). n \<noteq> [] \<and> \<not> eq_ignore_ascii_case n ''DEFAULT'') (map (\<lambda>(n, l). (trim n, l)) sections)"

definition section_pairs :: "repo_section list \<Rightarrow> (string \<times> string) list" where
  "section_pairs rs = map (\<lambda>r. (rs_name r, rs_location r)) rs"

definition client_pairs :: "client_section list \<Rightarrow> (string \<times> string) list" where
  "client_pairs rs = map (\<lambda>r. (cs_name r, cs_location r)) rs"

definition states_agree :: "section_state \<Rightarrow> client_section_state \<Rightarrow> bool" where
  "states_agree st ct \<longleftrightarrow> ct_name ct = trim (ss_name st) \<and> ct_location ct = ss_location st
     \<and> client_pairs (ct_repos ct) = client_view (section_pairs (ss_repos st))"

lemma to_lower_whitespace: "is_whitespace c \<Longrightarrow> to_lower c = c"
  by (auto simp: to_lower_def char_class_defs)

lemma default_name_trim: "eq_ignore_ascii_case n ''DEFAULT'' \<Longrightarrow> trim n = n"
proof (rule trim_solid)
  assume "eq_ignore_ascii_case n ''DEFAULT''"
  moreover have "map to_lower ''DEFAULT'' = ''default''"
    by code_simp
  ultimately have lower: "map to_lower n = ''default''"
    by (simp only: eq_ignore_ascii_case_def)
  have "\<not> is_whitespace c" if c: "c \<in> set n" for c
  proof
    assume ws: "is_whitespace c"
    have "to_lower c \<in> set ''default''"
      using c lower by (metis image_eqI list.set_map)
    then show False
      using to_lower_whitespace [OF ws] ws by (auto simp: is_whitespace_def)
  qed
  then show "list_all (\<lambda>c. \<not> is_whitespace c) n"
    by (simp add: list_all_iff)
qed

lemma flush_agree: "states_agree st ct \<Longrightarrow> states_agree (flush_section st) (flush_client_section ct)"
  using default_name_trim [of "ss_name st"]
  by (auto simp: states_agree_def flush_section_def flush_client_section_def client_pairs_def section_pairs_def
      client_view_def split: option.splits)

lemma lower_key: "eq_ignore_ascii_case k ''location'' \<longleftrightarrow> map to_lower k = ''location''"
  by (simp add: eq_ignore_ascii_case_def to_lower_def is_upper_def)

lemma section_line_agree:
  assumes "states_agree st ct"
  shows "states_agree (section_line line st) (client_section_line line ct)"
proof (cases "is_section_line (trim line)")
  case True
  then show ?thesis
    using flush_agree [OF assms] by (simp add: section_line_def client_section_line_def states_agree_def)
next
  case False
  then show ?thesis
    using assms
    by (auto simp: section_line_def client_section_line_def states_agree_def lower_key Let_def split: option.splits)
qed

lemma section_lines_agree:
  "states_agree st ct \<Longrightarrow> states_agree (fold section_line ls st) (fold client_section_line ls ct)"
  by (induction ls arbitrary: st ct) (simp_all add: section_line_agree)

text \<open>C26: the client and the worker find the same repositories at the same locations in a repos.conf file,
  except that the client removes white space around a section's name and the worker does not.\<close>

theorem repos_conf_parsers_agree:
  "client_pairs (client_repo_sections content) = client_view (parse_repo_sections content)"
proof -
  let ?st = "\<lparr> ss_name = [], ss_location = None, ss_sync_uri = None, ss_repos = [] \<rparr>"
  let ?ct = "\<lparr> ct_name = [], ct_location = None, ct_sync_uri = None, ct_auto_sync = None, ct_repos = [] \<rparr>"
  have "states_agree ?st ?ct"
    by (simp add: states_agree_def client_pairs_def section_pairs_def client_view_def)
  from flush_agree [OF section_lines_agree [OF this, of "str_lines content"]] show ?thesis
    by (simp add: states_agree_def client_repo_sections_def parse_repo_sections_def parse_repo_sections_full_def
        section_pairs_def)
qed

text \<open>A section with white space inside the brackets.\<close>

definition padded_conf :: string where
  "padded_conf = ''[ local ]'' @ [newline] @ ''location = /srv/local'' @ [newline]"

lemma padded_conf_sections:
  "client_repo_sections padded_conf
     = [\<lparr> cs_name = ''local'', cs_location = ''/srv/local'', cs_sync_uri = None, cs_auto_sync = None \<rparr>]"
  "parse_repo_sections_full padded_conf
     = [\<lparr> rs_name = '' local '', rs_location = ''/srv/local'', rs_sync_uri = None \<rparr>]"
  by code_simp+


definition sample_padded_fs :: fs where
  "sample_padded_fs =
     \<lparr> fs_tree = [([''repos.conf''], Dir), ([''repos.conf'', ''local.conf''], File 0)],
       fs_inodes = [(0, string_bytes padded_conf)], fs_next = 1 \<rparr>"


end
