(* ===== verification/Spec2Isabelle.thy ===== *)
theory Spec2Isabelle
  imports Remerge_Prelude Text_Lines Remerge_Types Atom_Validation Chunk_Frame Auth Registry Metrics
    Server_Config Binpkg_Repo Server_State Queue Trace_Context Server_Api Lifecycle Server_Effects
    Server_System Server_Properties File_System Snapshot_Store Snapshot_Runtime Store_Properties
    Server_Store Blob_Upload Upload_Session Upload_Resume Worker_Setup Worker_Confinement Cli_Versions
    Cli_Portage Cli_Config Portage_Roundtrip
begin

text \<open>
  remerge builds Gentoo packages on a central server.  A client reads its own Portage
  configuration and submits a workorder; the server keeps the workorders, builds each in a container
  from the configuration it was sent, and collects the binary packages; the worker inside the
  container writes the configuration to disk and runs emerge.  This development models the shared
  types, the server, the part of the worker that writes configurations and the part of the client
  that reads them, and proves what makes them correct.

  \<^bold>\<open>Conventions.\<close>  Strings are lists of bytes; a \<open>HashMap\<close> is an association list with distinct keys
  in an arbitrary order, a \<open>BTreeMap\<close> the sorted list of its entries.  Integers that can wrap or saturate
  do so in the definitions; the others are \<open>nat\<close> or \<open>int\<close>.  Errors are values of a sum type, with the
  chain of contexts of \<open>anyhow\<close>.  Code outside the repository is a parameter: SHA-256, Adler-32, zstd,
  JSON and TOML, the Docker daemon, the programs that are run, the clock and fresh identifiers.  Laws
  of parameters, where a theorem needs one, are hypotheses of that theorem.

  \<^bold>\<open>Foundations.\<close>  \<open>Remerge_Prelude\<close> has results, options, maps and the string functions of the Rust
  library, \<open>Text_Lines\<close> their laws for lines and words.  \<open>File_System\<close> models \<open>tokio::fs\<close> as a tree of names over inodes, so that
  hard links share contents, with an action monad whose failures keep the state reached, and triples
  for actions.

  \<^bold>\<open>Shared types\<close> (\<open>crates/types\<close>).  \<open>Remerge_Types\<close> has the records and enumerations with their
  printers and parsers; \<open>Atom_Validation\<close> the grammar of package atoms and that \<open>validate_atom\<close> accepts exactly it;
  \<open>Chunk_Frame\<close> the frames of uploads and that decoding inverts encoding; \<open>Trace_Context\<close> the trace headers.

  \<^bold>\<open>Server\<close> (\<open>crates/server\<close>).  \<open>Auth\<close> (\<open>auth.rs\<close>), \<open>Registry\<close> (\<open>registry.rs\<close>), \<open>Metrics\<close>
  (\<open>metrics.rs\<close>), \<open>Server_Config\<close> (\<open>config.rs\<close>) and \<open>Binpkg_Repo\<close> (\<open>repo.rs\<close>) model one component each,
  with the properties of its operations.  \<open>Server_State\<close> (\<open>state.rs\<close>, \<open>persistence.rs\<close>) has the state,
  its recovery after a crash and the eviction of old workorders; \<open>Queue\<close> (\<open>queue.rs\<close>) the claim of a
  workorder and every phase of its task; \<open>Server_Api\<close> (\<open>api.rs\<close>) the handlers of requests.
  \<open>Lifecycle\<close> is the abstract machine of a workorder.  \<open>Server_System\<close> puts handlers, queue loop, tasks,
  spawned clean-ups and restarts together as one step relation whose steps interleave at the points
  where the code holds no lock; \<open>Server_Effects\<close> says what each step changes, and \<open>Server_Properties\<close>
  proves over all reachable states that the server refines the lifecycle, that a workorder in
  progress has exactly one task, that markers, channels, permits and gauges agree with the workorders,
  and that the work always finishes.

  \<^bold>\<open>Snapshots\<close> (\<open>blob_store.rs\<close>, \<open>tree_store.rs\<close>, \<open>runtime.rs\<close>, the blob routes of \<open>api.rs\<close>).
  \<open>Snapshot_Store\<close> models the two stores, \<open>Snapshot_Runtime\<close> ingestion, staging, normalisation and
  garbage collection; \<open>Store_Properties\<close> shows that uploads store what they are named after, that staging
  stays in its directory and that the clean-up spares what is referenced and deletes no more than it
  must; \<open>Server_Store\<close> that every step of the whole server keeps the stores intact.  \<open>Blob_Upload\<close> models
  upload and download with the resumable WebSocket sessions; \<open>Upload_Session\<close> shows that a connection,
  whatever messages arrive, leaves the stores intact and reports completion only for a stored blob;
  \<open>Upload_Resume\<close> how sessions are resumed, and two ways in which they cannot be.

  \<^bold>\<open>Worker\<close> (\<open>crates/worker/src/portage_setup.rs\<close>).  \<open>Worker_Setup\<close> models the contents of make.conf and
  of the files under /etc/portage, the parser of repos.conf, the rewriting of repository
  locations, restored snapshots and the choice of the profile; it shows that parsed sections are well
  formed and that a rewrite moves exactly the sections it should.  \<open>Worker_Confinement\<close> shows that
  applying a configuration changes nothing outside its directory.

  \<^bold>\<open>Client\<close> (\<open>crates/cli/src/portage.rs\<close>, \<open>cflags.rs\<close>).  \<open>Cli_Versions\<close> models versions and installed packages
  and shows that the comparison is a total preorder; \<open>Cli_Portage\<close> the parsers and the walks over
  directories; \<open>Cli_Config\<close> the resolution of flags, the snapshots with their manifest, package
  sets, and the whole configuration.  \<open>Portage_Roundtrip\<close> relates client and worker: what the worker
  writes, the client's parsers read back as what was written, and the two parsers of repos.conf agree but for the white
  space of section names.

  \<^bold>\<open>Interfaces.\<close>  Where several operations share a contract it is a locale, interpreted on the model's
  own definitions in the theory that provides them: maps, codecs with their
  inverses, invariants and simulations of step relations, the slots of clients, frames of the stores
  and of upload sessions, and the line formats of the package files.

  \<^bold>\<open>Bounds and fuel.\<close>  Loops of the model end by structural recursion or a measure.  Fuel appears in the
  recursion into parent profiles, which the code does not bound: \<open>read_profile_packages\<close> gives None while it is still going, any
  fuel above the rank of a profile is enough where the parents are ranked, and no fuel is where they are
  cyclic.  Step relations have no bound.

  \<^bold>\<open>Not modelled.\<close>  The Docker client and package signing only call other programs.  Of the
  worker, the running of emerge, crossdev and emaint and the copying of staged snapshot trees; of the client,
  arguments, terminal output and the HTTP client; of the server, routing, TLS, signals, the text of the container log and
  the progress socket.  Symbolic links are not nodes of the file system: where the code makes or follows
  them, the link is a result or a parameter.  File operations do not fail for lack of space or
  permission, and Unicode beyond bytes has no case and no white space.
\<close>

end
